(* ===== verification/Prelude.thy ===== *)
theory Prelude
  imports Main "HOL-Library.Word" "HOL-Library.Sublist" "HOL-Library.Char_ord" "HOL-Library.List_Lexorder"
begin

text \<open>
  The shared vocabulary of the development.

  \<^item> Names of the machine types and of the instants the services stamp rows with. An instant
    is a number of nanoseconds since the epoch, as \<open>chrono::DateTime<Utc>\<close> keeps it, so that
    \<open>Duration::seconds\<close> and \<open>Duration::days\<close> are multiplications and \<open>timestamp()\<close> is a
    division rounding down.
  \<^item> A relational table as the list of its rows, with the statements the repositories issue:
    \<open>UPDATE ... WHERE\<close>, \<open>DELETE ... WHERE\<close>, \<open>SELECT ... WHERE\<close> and \<open>COUNT\<close>.
  \<^item> The lemma collections: \<open>table_simps\<close> for what a statement does to a table and
    \<open>unique_intros\<close> for the unique keys it keeps.
\<close>

section \<open>Types\<close>

type_synonym u8 = "8 word"
type_synonym u16 = "16 word"
type_synonym u32 = "32 word"
type_synonym u64 = "64 word"
type_synonym bytes = "8 word list"
type_synonym instant = int

named_theorems table_simps
named_theorems unique_intros

section \<open>Durations\<close>

definition secs :: "int \<Rightarrow> int" where
  "secs n = n * 1000000000"

definition hours :: "int \<Rightarrow> int" where
  "hours n = secs (n * 3600)"

definition days :: "int \<Rightarrow> int" where
  "days n = secs (n * 86400)"

definition timestamp :: "instant \<Rightarrow> int" where
  "timestamp t = t div 1000000000"

section \<open>Tables\<close>

definition sql_update :: "('r \<Rightarrow> bool) \<Rightarrow> ('r \<Rightarrow> 'r) \<Rightarrow> 'r list \<Rightarrow> 'r list" where
  "sql_update p f t = map (\<lambda>r. if p r then f r else r) t"

definition sql_delete :: "('r \<Rightarrow> bool) \<Rightarrow> 'r list \<Rightarrow> 'r list" where
  "sql_delete p t = filter (\<lambda>r. \<not> p r) t"

definition sql_count :: "('r \<Rightarrow> bool) \<Rightarrow> 'r list \<Rightarrow> nat" where
  "sql_count p t = length (filter p t)"

definition sql_exists :: "('r \<Rightarrow> bool) \<Rightarrow> 'r list \<Rightarrow> bool" where
  "sql_exists p t = list_ex p t"

definition at_most_one :: "('r \<Rightarrow> bool) \<Rightarrow> 'r list \<Rightarrow> bool" where
  "at_most_one p t = (sql_count p t \<le> 1)"

section \<open>Lemmas on tables\<close>

lemma sql_update_Nil [simp]: "sql_update p f [] = []"
  by (simp add: sql_update_def)

lemma sql_update_Cons [simp]:
  "sql_update p f (r # t) = (if p r then f r else r) # sql_update p f t"
  by (simp add: sql_update_def)

lemma sql_update_append [simp]:
  "sql_update p f (s @ t) = sql_update p f s @ sql_update p f t"
  by (simp add: sql_update_def)

lemma sql_delete_Nil [simp]: "sql_delete p [] = []"
  by (simp add: sql_delete_def)

lemma sql_delete_Cons [simp]:
  "sql_delete p (r # t) = (if p r then sql_delete p t else r # sql_delete p t)"
  by (simp add: sql_delete_def)

lemma sql_delete_append [simp]: "sql_delete p (s @ t) = sql_delete p s @ sql_delete p t"
  by (simp add: sql_delete_def)

lemma sql_count_Nil [simp]: "sql_count p [] = 0"
  by (simp add: sql_count_def)

lemma sql_count_Cons [simp]:
  "sql_count p (r # t) = (if p r then Suc (sql_count p t) else sql_count p t)"
  by (simp add: sql_count_def)

lemma sql_count_append [simp]: "sql_count p (s @ t) = sql_count p s + sql_count p t"
  by (simp add: sql_count_def)

lemma sql_exists_Nil [simp]: "\<not> sql_exists p []"
  by (simp add: sql_exists_def)

lemma sql_exists_Cons [simp]: "sql_exists p (r # t) \<longleftrightarrow> p r \<or> sql_exists p t"
  by (simp add: sql_exists_def)

lemma sql_exists_append [simp]: "sql_exists p (s @ t) \<longleftrightarrow> sql_exists p s \<or> sql_exists p t"
  by (induction s) auto

lemma sql_exists_iff: "sql_exists p t \<longleftrightarrow> (\<exists>r \<in> set t. p r)"
  by (simp add: sql_exists_def list_ex_iff)

lemma set_sql_delete [simp]: "set (sql_delete p t) = {r \<in> set t. \<not> p r}"
  by (simp add: sql_delete_def)

lemma set_sql_update: "set (sql_update p f t) = (\<lambda>r. if p r then f r else r) ` set t"
  by (simp add: sql_update_def)

lemma Ball_sql_update:
  "(\<forall>r \<in> set (sql_update p f t). Q r) \<longleftrightarrow> (\<forall>r \<in> set t. if p r then Q (f r) else Q r)"
  by (auto simp: set_sql_update)

lemma length_sql_update [simp]: "length (sql_update p f t) = length t"
  by (simp add: sql_update_def)

lemma sql_update_none [table_simps]: "\<not> sql_exists p t \<Longrightarrow> sql_update p f t = t"
  by (induction t) auto

lemma sql_delete_none [table_simps]: "\<not> sql_exists p t \<Longrightarrow> sql_delete p t = t"
  by (induction t) auto

lemma sql_count_zero_iff: "sql_count p t = 0 \<longleftrightarrow> \<not> sql_exists p t"
  by (induction t) auto

lemma sql_count_pos_iff: "0 < sql_count p t \<longleftrightarrow> sql_exists p t"
  by (induction t) auto

lemma sql_count_mono: "(\<And>r. r \<in> set t \<Longrightarrow> p r \<Longrightarrow> q r) \<Longrightarrow> sql_count p t \<le> sql_count q t"
  by (induction t) (auto simp: le_SucI)

lemma sql_count_delete_le: "sql_count p (sql_delete q t) \<le> sql_count p t"
  by (induction t) (auto simp: le_SucI)

lemma sql_count_cong:
  "(\<And>r. r \<in> set t \<Longrightarrow> p r = q r) \<Longrightarrow> sql_count p t = sql_count q t"
  by (induction t) auto

lemma sql_count_update_keep:
  "(\<And>r. r \<in> set t \<Longrightarrow> p r \<Longrightarrow> q (f r) = q r) \<Longrightarrow> sql_count q (sql_update p f t) = sql_count q t"
  by (induction t) auto

lemma sql_count_update_le:
  "(\<And>r. r \<in> set t \<Longrightarrow> p r \<Longrightarrow> q (f r) \<Longrightarrow> q r) \<Longrightarrow> sql_count q (sql_update p f t) \<le> sql_count q t"
  by (induction t) (auto simp: le_SucI)

lemma sql_count_update_none:
  "(\<And>r. r \<in> set t \<Longrightarrow> q r \<Longrightarrow> p r) \<Longrightarrow> (\<And>r. r \<in> set t \<Longrightarrow> p r \<Longrightarrow> \<not> q (f r)) \<Longrightarrow>
    sql_count q (sql_update p f t) = 0"
  by (induction t) auto

lemma find_sql_update_keep:
  "(\<And>r. r \<in> set t \<Longrightarrow> p r \<Longrightarrow> q (f r) = q r) \<Longrightarrow>
    find q (sql_update p f t) = map_option (\<lambda>r. if p r then f r else r) (find q t)"
  by (induction t) auto

lemma find_sql_delete_other:
  "(\<And>r. r \<in> set t \<Longrightarrow> q r \<Longrightarrow> \<not> p r) \<Longrightarrow> find q (sql_delete p t) = find q t"
  by (induction t) auto

lemma filter_sql_update_other:
  "(\<And>r. r \<in> set t \<Longrightarrow> p r \<Longrightarrow> \<not> q r \<and> \<not> q (f r)) \<Longrightarrow> filter q (sql_update p f t) = filter q t"
  by (induction t) auto

lemma filter_sql_delete_other:
  "(\<And>r. r \<in> set t \<Longrightarrow> p r \<Longrightarrow> \<not> q r) \<Longrightarrow> filter q (sql_delete p t) = filter q t"
  by (induction t) auto

lemma find_append: "find p (s @ t) = (case find p s of None \<Rightarrow> find p t | Some r \<Rightarrow> Some r)"
  by (induction s) auto

lemma find_Some_D: "find p t = Some r \<Longrightarrow> p r \<and> r \<in> set t"
  by (induction t) (auto split: if_splits)

lemma find_None_exists: "find p t = None \<longleftrightarrow> \<not> sql_exists p t"
  by (induction t) auto

lemma find_Some_exists: "(\<exists>r. find p t = Some r) \<longleftrightarrow> sql_exists p t"
  by (induction t) auto

lemma find_unique:
  "at_most_one p t \<Longrightarrow> r \<in> set t \<Longrightarrow> p r \<Longrightarrow> find p t = Some r"
proof (induction t)
  case (Cons s t)
  then show ?case
    by (cases "p s") (auto simp: at_most_one_def sql_count_zero_iff sql_exists_iff)
qed simp

lemma at_most_one_Nil [simp]: "at_most_one p []"
  by (simp add: at_most_one_def)

lemma at_most_one_delete [unique_intros]: "at_most_one p t \<Longrightarrow> at_most_one p (sql_delete q t)"
  using sql_count_delete_le [of p q t] by (simp add: at_most_one_def)

lemma at_most_one_update [unique_intros]:
  "at_most_one q t \<Longrightarrow> (\<And>r. r \<in> set t \<Longrightarrow> p r \<Longrightarrow> q (f r) \<Longrightarrow> q r) \<Longrightarrow> at_most_one q (sql_update p f t)"
  using sql_count_update_le [of t p q f] by (simp add: at_most_one_def)

lemma at_most_one_insert [unique_intros]:
  "at_most_one p t \<Longrightarrow> (p r \<Longrightarrow> \<not> sql_exists p t) \<Longrightarrow> at_most_one p (t @ [r])"
  by (auto simp: at_most_one_def sql_count_zero_iff [symmetric])

lemma distinct_key_delete [unique_intros]:
  "distinct (map k t) \<Longrightarrow> distinct (map k (sql_delete p t))"
  by (induction t) auto

lemma map_key_update [table_simps]:
  "(\<And>r. r \<in> set t \<Longrightarrow> p r \<Longrightarrow> k (f r) = k r) \<Longrightarrow> map k (sql_update p f t) = map k t"
  by (induction t) auto

lemma distinct_key_insert [unique_intros]:
  "distinct (map k t) \<Longrightarrow> \<not> sql_exists (\<lambda>s. k s = k r) t \<Longrightarrow> distinct (map k (t @ [r]))"
  by (auto simp: sql_exists_iff)

lemma distinct_key_find:
  "distinct (map k t) \<Longrightarrow> r \<in> set t \<Longrightarrow> k r = x \<Longrightarrow> find (\<lambda>s. k s = x) t = Some r"
  by (induction t) auto

lemma distinct_key_count: "distinct (map k t) \<Longrightarrow> sql_count (\<lambda>s. k s = x) t \<le> 1"
proof (induction t)
  case (Cons a t)
  have "k a = x \<Longrightarrow> sql_count (\<lambda>s. k s = x) t = 0"
    using Cons.prems by (auto simp: sql_count_zero_iff sql_exists_iff intro: rev_image_eqI)
  with Cons show ?case by auto
qed simp

lemma foldl_invariant:
  "I s \<Longrightarrow> (\<And>s x. x \<in> set xs \<Longrightarrow> I s \<Longrightarrow> I (f s x)) \<Longrightarrow> I (foldl f s xs)"
  by (induction xs arbitrary: s) auto

section \<open>Arithmetic of durations\<close>

lemma secs_add: "secs (a + b) = secs a + secs b"
  by (simp add: secs_def algebra_simps)

lemma secs_mono: "a \<le> b \<Longrightarrow> secs a \<le> secs b"
  by (simp add: secs_def)

lemma timestamp_secs [simp]: "timestamp (secs n) = n"
  by (simp add: timestamp_def secs_def)

lemma timestamp_add_secs: "timestamp (t + secs n) = timestamp t + n"
  by (simp add: timestamp_def secs_def)

lemma timestamp_mono: "s \<le> t \<Longrightarrow> timestamp s \<le> timestamp t"
  by (simp add: timestamp_def zdiv_mono1)

end
