(* ===== verification/Contract.thy ===== *)
theory Contract
  imports Prelude
begin

text \<open>
  The shared API contract of the services (\<open>common/src/contract.rs\<close>, \<open>error.rs\<close>,
  \<open>event.rs\<close>): the lifecycle enums with their database text forms, the entitlement and the
  resource views, the domain events, and the transport-neutral \<open>ApiError\<close> with its HTTP
  status. The interface locale \<open>text_codec\<close> states what every \<open>as_str\<close>/\<open>from_db\<close> pair promises; the
  three pairs of the contract interpret it.
\<close>

section \<open>Lifecycle enums\<close>

datatype provisioning_state = Provisioning | Active | Deprovisioning

fun provisioning_as_str :: "provisioning_state \<Rightarrow> string" where
  "provisioning_as_str Provisioning = ''provisioning''"
| "provisioning_as_str Active = ''active''"
| "provisioning_as_str Deprovisioning = ''deprovisioning''"

definition provisioning_from_db :: "string \<Rightarrow> string + provisioning_state" where
  "provisioning_from_db s =
     (if s = ''provisioning'' then Inr Provisioning
      else if s = ''active'' then Inr Active
      else if s = ''deprovisioning'' then Inr Deprovisioning
      else Inl (''unknown provisioning_state '' @ s))"

datatype code_purpose = Signup | PasswordReset | PasswordChange | Enrollment

fun purpose_as_str :: "code_purpose \<Rightarrow> string" where
  "purpose_as_str Signup = ''signup''"
| "purpose_as_str PasswordReset = ''password_reset''"
| "purpose_as_str PasswordChange = ''password_change''"
| "purpose_as_str Enrollment = ''enrollment''"

record entitlement =
  max_networks :: u32
  max_daemons :: u32

definition entitlement_DEFAULT :: entitlement where
  "entitlement_DEFAULT = \<lparr>max_networks = 1, max_daemons = 1\<rparr>"

datatype subscription_status = Trialing | SubActive | PastDue | Canceled

fun status_as_str :: "subscription_status \<Rightarrow> string" where
  "status_as_str Trialing = ''trialing''"
| "status_as_str SubActive = ''active''"
| "status_as_str PastDue = ''past_due''"
| "status_as_str Canceled = ''canceled''"

definition status_from_db :: "string \<Rightarrow> subscription_status" where
  "status_from_db s =
     (if s = ''trialing'' then Trialing
      else if s = ''active'' then SubActive
      else if s = ''past_due'' then PastDue
      else Canceled)"

section \<open>Resource views\<close>

record network_view =
  nv_id :: string
  nv_tenant_id :: string
  nv_slug :: string
  nv_display_name :: string
  nv_region :: string
  nv_provisioning_state :: provisioning_state
  nv_created_at :: instant
  nv_updated_at :: instant

record subscription_view =
  sv_id :: string
  sv_status :: subscription_status
  sv_entitlement :: entitlement
  sv_trial_expires_at :: "instant option"
  sv_current_period_end :: "instant option"
  sv_created_at :: instant
  sv_updated_at :: instant

definition subscription_view_is_active :: "subscription_view \<Rightarrow> bool" where
  "subscription_view_is_active v = (sv_status v \<noteq> Canceled)"

record tenant_view =
  tv_id :: string
  tv_email :: string
  tv_subscription :: "subscription_view option"
  tv_created_at :: instant

record daemon_view =
  dv_id :: string
  dv_network_id :: string
  dv_public_key :: string
  dv_created_at :: instant

record me_view =
  mv_tenant_id :: string
  mv_email :: string
  mv_subscription :: "subscription_view option"

section \<open>Domain events\<close>

datatype domain_event =
    TenantCreated (event_tenant: string)
  | TenantDeregistered (event_tenant: string)
  | SubscriptionDeactivated (event_tenant: string)

section \<open>Errors of the API\<close>

datatype api_error =
    NotFound string
  | Conflict string
  | Unauthorized string
  | Forbidden string
  | BadRequest string
  | TooManyRequests string
  | ServiceUnavailable string
  | Internal string

fun into_response :: "api_error \<Rightarrow> nat \<times> string" where
  "into_response (NotFound m) = (404, m)"
| "into_response (Conflict m) = (409, m)"
| "into_response (Unauthorized m) = (401, m)"
| "into_response (Forbidden m) = (403, m)"
| "into_response (BadRequest m) = (400, m)"
| "into_response (TooManyRequests m) = (429, m)"
| "into_response (ServiceUnavailable m) = (503, m)"
| "into_response (Internal e) = (500, ''internal server error'')"

section \<open>Text codecs\<close>

text \<open>
  The contract a \<open>as_str\<close>/\<open>from_db\<close> pair keeps: what is written is read back. The laws
  used by the repositories follow once and for all: the text form determines the value, and a
  \<open>WHERE column = $1\<close> on the text selects exactly the rows with that value.
\<close>

locale text_codec =
  fixes print :: "'a \<Rightarrow> string"
    and parse :: "string \<Rightarrow> 'a option"
  assumes parse_print: "parse (print x) = Some x"
begin

lemma print_inj: "print x = print y \<longleftrightarrow> x = y"
  by (metis option.inject parse_print)

lemma where_text: "filter (\<lambda>r. print (c r) = print x) t = filter (\<lambda>r. c r = x) t"
  by (simp add: print_inj)

end

definition provisioning_parse :: "string \<Rightarrow> provisioning_state option" where
  "provisioning_parse s = (case provisioning_from_db s of Inl e \<Rightarrow> None | Inr st \<Rightarrow> Some st)"

definition status_parse :: "string \<Rightarrow> subscription_status option" where
  "status_parse s = Some (status_from_db s)"

definition purpose_parse :: "string \<Rightarrow> code_purpose option" where
  "purpose_parse s = find (\<lambda>p. purpose_as_str p = s) [Signup, PasswordReset, PasswordChange, Enrollment]"

interpretation provisioning_codec: text_codec provisioning_as_str provisioning_parse
proof
  fix x show "provisioning_parse (provisioning_as_str x) = Some x"
    by (cases x) (simp_all add: provisioning_parse_def provisioning_from_db_def)
qed

interpretation status_codec: text_codec status_as_str status_parse
proof
  fix x show "status_parse (status_as_str x) = Some x"
    by (cases x) (simp_all add: status_parse_def status_from_db_def)
qed

interpretation purpose_codec: text_codec purpose_as_str purpose_parse
proof
  fix x show "purpose_parse (purpose_as_str x) = Some x"
    by (cases x) (simp_all add: purpose_parse_def)
qed

lemma status_from_db_fail_closed:
  "status_from_db s \<noteq> Canceled \<Longrightarrow> s = status_as_str (status_from_db s)"
  by (auto simp: status_from_db_def)

lemma internal_is_opaque: "into_response (Internal e) = into_response (Internal e')"
  by simp

end
