(* ===== verification/Text.thy ===== *)
theory Text
  imports Prelude
begin

text \<open>
  The text operations of the Rust standard library the services use. A \<open>str\<close> is the list of
  its UTF-8 bytes, so \<open>len()\<close> is the length of the list. \<open>trim\<close> and \<open>to_lowercase\<close> are
  modelled on their ASCII range: bytes above 127 are left alone. Decimal printing and
  \<open>str::parse\<close> of integers are exact, including the range check.
\<close>

section \<open>Trimming, case and search\<close>

definition is_whitespace :: "char \<Rightarrow> bool" where
  "is_whitespace c = (of_char c = (32::nat) \<or> (9 \<le> (of_char c :: nat) \<and> (of_char c :: nat) \<le> 13))"

definition trim_start :: "string \<Rightarrow> string" where
  "trim_start s = dropWhile is_whitespace s"

definition trim :: "string \<Rightarrow> string" where
  "trim s = rev (dropWhile is_whitespace (rev (trim_start s)))"

definition lower_char :: "char \<Rightarrow> char" where
  "lower_char c = (if (65::nat) \<le> of_char c \<and> (of_char c :: nat) \<le> 90
     then char_of ((of_char c :: nat) + 32) else c)"

definition to_lowercase :: "string \<Rightarrow> string" where
  "to_lowercase s = map lower_char s"

definition starts_with :: "string \<Rightarrow> string \<Rightarrow> bool" where
  "starts_with p s = (take (length p) s = p)"

definition ends_with :: "string \<Rightarrow> string \<Rightarrow> bool" where
  "ends_with p s = (length p \<le> length s \<and> drop (length s - length p) s = p)"

definition strip_prefix :: "string \<Rightarrow> string \<Rightarrow> string option" where
  "strip_prefix p s = (if starts_with p s then Some (drop (length p) s) else None)"

definition strip_suffix :: "string \<Rightarrow> string \<Rightarrow> string option" where
  "strip_suffix p s = (if ends_with p s then Some (take (length s - length p) s) else None)"

fun split_on :: "char \<Rightarrow> string \<Rightarrow> string list" where
  "split_on d [] = [[]]"
| "split_on d (c # s) =
     (if c = d then [] # split_on d s
      else (case split_on d s of [] \<Rightarrow> [[c]] | w # ws \<Rightarrow> (c # w) # ws))"

definition split_once :: "char \<Rightarrow> string \<Rightarrow> (string \<times> string) option" where
  "split_once d s = (if d \<in> set s
     then Some (takeWhile (\<lambda>c. c \<noteq> d) s, tl (dropWhile (\<lambda>c. c \<noteq> d) s)) else None)"

fun join_with :: "string \<Rightarrow> string list \<Rightarrow> string" where
  "join_with sep [] = []"
| "join_with sep [w] = w"
| "join_with sep (w # v # ws) = w @ sep @ join_with sep (v # ws)"

section \<open>Decimal numbers\<close>

definition digit_char :: "nat \<Rightarrow> char" where
  "digit_char d = char_of (48 + d)"

definition digit_val :: "char \<Rightarrow> nat option" where
  "digit_val c = (if (48::nat) \<le> of_char c \<and> (of_char c :: nat) \<le> 57
     then Some (of_char c - 48) else None)"

fun show_nat :: "nat \<Rightarrow> string" where
  "show_nat n = (if n < 10 then [digit_char n] else show_nat (n div 10) @ [digit_char (n mod 10)])"

declare show_nat.simps [simp del]

definition show_int :: "int \<Rightarrow> string" where
  "show_int i = (if i < 0 then ''-'' @ show_nat (nat (- i)) else show_nat (nat i))"

fun parse_digits :: "nat \<Rightarrow> string \<Rightarrow> nat option" where
  "parse_digits acc [] = Some acc"
| "parse_digits acc (c # s) =
     (case digit_val c of None \<Rightarrow> None | Some d \<Rightarrow> parse_digits (10 * acc + d) s)"

definition parse_nat :: "string \<Rightarrow> nat option" where
  "parse_nat s = (if s = [] then None else parse_digits 0 s)"

definition parse_signed :: "nat \<Rightarrow> string \<Rightarrow> int option" where
  "parse_signed w s =
     (if s \<noteq> [] \<and> hd s = CHR ''-''
      then (case parse_nat (tl s) of None \<Rightarrow> None
            | Some n \<Rightarrow> if n \<le> 2 ^ (w - 1) then Some (- int n) else None)
      else (case parse_nat (if s \<noteq> [] \<and> hd s = CHR ''+'' then tl s else s) of None \<Rightarrow> None
            | Some n \<Rightarrow> if n < 2 ^ (w - 1) then Some (int n) else None))"

definition parse_i64 :: "string \<Rightarrow> int option" where
  "parse_i64 s = parse_signed 64 s"

definition parse_unsigned :: "nat \<Rightarrow> string \<Rightarrow> nat option" where
  "parse_unsigned w s =
     (case parse_nat (if s \<noteq> [] \<and> hd s = CHR ''+'' then tl s else s) of None \<Rightarrow> None
      | Some n \<Rightarrow> if n < 2 ^ w then Some n else None)"

definition parse_u32 :: "string \<Rightarrow> u32 option" where
  "parse_u32 s = map_option of_nat (parse_unsigned 32 s)"

section \<open>Lemmas\<close>

lemma lower_char_idem [simp]: "lower_char (lower_char c) = lower_char c"
  by (auto simp: lower_char_def of_char_of take_bit_eq_mod)

lemma to_lowercase_idem [simp]: "to_lowercase (to_lowercase s) = to_lowercase s"
  by (simp add: to_lowercase_def)

lemma length_to_lowercase [simp]: "length (to_lowercase s) = length s"
  by (simp add: to_lowercase_def)

lemma is_whitespace_lower [simp]: "is_whitespace (lower_char c) = is_whitespace c"
  by (auto simp: lower_char_def is_whitespace_def of_char_of take_bit_eq_mod)

lemma trim_start_fix: "trim_start s = s \<longleftrightarrow> s = [] \<or> \<not> is_whitespace (hd s)"
proof (cases s)
  case (Cons c t)
  have "length (dropWhile is_whitespace t) \<le> length t"
    by (rule length_dropWhile_le)
  then have "dropWhile is_whitespace t \<noteq> c # t"
    by (metis Suc_n_not_le_n length_Cons)
  with Cons show ?thesis by (simp add: trim_start_def)
qed (simp add: trim_start_def)

lemma dropWhile_idem_hd: "s = [] \<or> \<not> P (hd s) \<Longrightarrow> dropWhile P s = s"
  by (cases s) auto

lemma hd_rev_dropWhile_rev:
  assumes "s \<noteq> []" and "\<not> P (hd s)"
  shows "hd (rev (dropWhile P (rev s))) = hd s \<and> dropWhile P (rev s) \<noteq> []"
proof -
  have "\<exists>c \<in> set (rev s). \<not> P c" using assms by (cases s) auto
  then have ne: "dropWhile P (rev s) \<noteq> []" by (auto simp: dropWhile_eq_Nil_conv)
  have "rev s = takeWhile P (rev s) @ dropWhile P (rev s)" by simp
  then have "s = rev (dropWhile P (rev s)) @ rev (takeWhile P (rev s))"
    by (metis rev_append rev_rev_ident)
  with ne show ?thesis by (metis hd_append2 rev_is_Nil_conv)
qed

lemma trim_edges: "trim s = [] \<or> (\<not> is_whitespace (hd (trim s)) \<and> \<not> is_whitespace (last (trim s)))"
proof (cases "trim_start s = []")
  case False
  have h: "\<not> is_whitespace (hd (trim_start s))"
    using False hd_dropWhile [of is_whitespace s] by (simp add: trim_start_def)
  let ?d = "dropWhile is_whitespace (rev (trim_start s))"
  from hd_rev_dropWhile_rev [of "trim_start s" is_whitespace, OF False h] have 1: "hd (rev ?d) = hd (trim_start s)" "?d \<noteq> []" by auto
  have "\<not> is_whitespace (hd ?d)" using 1(2) by (rule hd_dropWhile)
  with 1 h show ?thesis by (simp add: trim_def last_rev)
qed (simp add: trim_def)

lemma trim_fix: "s = [] \<or> (\<not> is_whitespace (hd s) \<and> \<not> is_whitespace (last s)) \<Longrightarrow> trim s = s"
  by (auto simp: trim_def trim_start_def dropWhile_idem_hd hd_rev)

lemma trim_idem [simp]: "trim (trim s) = trim s"
  by (rule trim_fix) (rule trim_edges)

lemma trim_to_lowercase: "trim (to_lowercase s) = to_lowercase (trim s)"
  by (simp add: trim_def trim_start_def to_lowercase_def dropWhile_map rev_map o_def)

lemma starts_with_append [simp]: "starts_with p (p @ s)"
  by (simp add: starts_with_def)

lemma starts_with_iff: "starts_with p s \<longleftrightarrow> (\<exists>t. s = p @ t)"
  by (metis append_eq_conv_conj append_take_drop_id starts_with_def)

lemma ends_with_iff: "ends_with p s \<longleftrightarrow> (\<exists>t. s = t @ p)"
  by (auto simp: ends_with_def) (metis append_take_drop_id)

lemma strip_suffix_append [simp]: "strip_suffix p (s @ p) = Some s"
  by (simp add: strip_suffix_def ends_with_def)

lemma strip_suffix_Some: "strip_suffix p s = Some t \<longleftrightarrow> s = t @ p"
proof
  assume "strip_suffix p s = Some t"
  then show "s = t @ p"
    by (auto simp: strip_suffix_def ends_with_iff split: if_splits)
qed simp

lemma strip_prefix_append [simp]: "strip_prefix p (p @ s) = Some s"
  by (simp add: strip_prefix_def)

lemma strip_prefix_Some: "strip_prefix p s = Some t \<longleftrightarrow> s = p @ t"
  by (auto simp: strip_prefix_def starts_with_iff split: if_splits)

lemma takeWhile_delim: "d \<notin> set a \<Longrightarrow> takeWhile (\<lambda>c. c \<noteq> d) (a @ d # b) = a"
  by (induction a) auto

lemma dropWhile_delim: "d \<notin> set a \<Longrightarrow> dropWhile (\<lambda>c. c \<noteq> d) (a @ d # b) = d # b"
  by (induction a) auto

lemma split_once_Some:
  "split_once d s = Some (a, b) \<longleftrightarrow> s = a @ d # b \<and> d \<notin> set a"
proof
  assume "split_once d s = Some (a, b)"
  then have d: "d \<in> set s" and a: "a = takeWhile (\<lambda>c. c \<noteq> d) s"
    and b: "b = tl (dropWhile (\<lambda>c. c \<noteq> d) s)"
    by (auto simp: split_once_def split: if_splits)
  have ne: "dropWhile (\<lambda>c. c \<noteq> d) s \<noteq> []" using d by (auto simp: dropWhile_eq_Nil_conv)
  then have "hd (dropWhile (\<lambda>c. c \<noteq> d) s) = d" using hd_dropWhile [OF ne] by simp
  with ne have "dropWhile (\<lambda>c. c \<noteq> d) s = d # b" using b by (metis list.collapse)
  then show "s = a @ d # b \<and> d \<notin> set a"
    using a by (metis (mono_tags, lifting) set_takeWhileD takeWhile_dropWhile_id)
next
  assume "s = a @ d # b \<and> d \<notin> set a"
  then have s: "s = a @ d # b" and n: "d \<notin> set a" by auto
  have "takeWhile (\<lambda>c. c \<noteq> d) s = a" using s n by (simp add: takeWhile_delim)
  moreover have "dropWhile (\<lambda>c. c \<noteq> d) s = d # b" using s n by (simp add: dropWhile_delim)
  ultimately show "split_once d s = Some (a, b)" using s by (simp add: split_once_def)
qed

lemma split_on_not_Nil [simp]: "split_on d s \<noteq> []"
  by (induction s) (auto split: list.splits)

lemma split_on_no_delim: "w \<in> set (split_on d s) \<Longrightarrow> d \<notin> set w"
  by (induction s arbitrary: w) (auto split: list.splits if_splits)

lemma split_on_single: "d \<notin> set s \<Longrightarrow> split_on d s = [s]"
  by (induction s) auto

lemma split_on_append: "d \<notin> set a \<Longrightarrow> split_on d (a @ d # s) = a # split_on d s"
  by (induction a) auto

lemma split_on_delim: "split_on d (a @ d # s) = split_on d a @ split_on d s"
proof (induction a)
  case (Cons c a)
  then show ?case by (cases "split_on d a") auto
qed simp

lemma last_split_on_append: "last (split_on d (a @ d # s)) = last (split_on d s)"
  by (simp add: split_on_delim)

lemma last_split_on:
  "last (split_on d s) = w \<longleftrightarrow> d \<notin> set w \<and> (s = w \<or> (\<exists>a. s = a @ d # w))"
proof (cases "d \<in> set s")
  case True
  then obtain a b where s: "s = a @ d # b" "d \<notin> set b" by (metis split_list_last)
  then have l: "last (split_on d s) = b" by (simp add: last_split_on_append split_on_single)
  show ?thesis
  proof
    assume "last (split_on d s) = w" then show "d \<notin> set w \<and> (s = w \<or> (\<exists>a. s = a @ d # w))" using l s by auto
  next
    assume r: "d \<notin> set w \<and> (s = w \<or> (\<exists>a. s = a @ d # w))"
    then obtain c where "s = c @ d # w" using True by auto
    then show "last (split_on d s) = w" using r by (simp add: last_split_on_append split_on_single)
  qed
next
  case False then show ?thesis by (auto simp: split_on_single)
qed

lemma join_split_on: "join_with [d] (split_on d s) = s"
proof (induction s)
  case (Cons c s)
  then show ?case
    by (cases "split_on d s"; cases "tl (split_on d s)") auto
qed simp

section \<open>Lemmas on decimal numbers\<close>

lemma digit_val_digit_char [simp]: "d < 10 \<Longrightarrow> digit_val (digit_char d) = Some d"
  by (simp add: digit_val_def digit_char_def of_char_of take_bit_eq_mod)

lemma parse_digits_append:
  "parse_digits acc (s @ t) = (case parse_digits acc s of None \<Rightarrow> None | Some n \<Rightarrow> parse_digits n t)"
  by (induction s arbitrary: acc) (auto split: option.splits)

lemma show_nat_not_Nil [simp]: "show_nat n \<noteq> []"
  by (subst show_nat.simps) simp

lemma parse_digits_show_nat: "parse_digits 0 (show_nat n) = Some n"
proof (induction n rule: show_nat.induct)
  case (1 n)
  then show ?case
    by (cases "n < 10") (simp_all add: show_nat.simps [of n] parse_digits_append)
qed

lemma parse_show_nat [simp]: "parse_nat (show_nat n) = Some n"
  by (simp add: parse_nat_def parse_digits_show_nat)

lemma digit_val_Some: "digit_val c = Some d \<Longrightarrow> d < 10 \<and> c = digit_char d"
  by (auto simp: digit_val_def digit_char_def split: if_splits)

lemma show_nat_digits: "c \<in> set (show_nat n) \<Longrightarrow> \<exists>d < 10. c = digit_char d"
proof (induction n rule: show_nat.induct)
  case (1 n)
  show ?case
  proof (cases "n < 10")
    case True
    then show ?thesis using 1(2) by (auto simp: show_nat.simps [of n])
  next
    case False
    then have "c \<in> set (show_nat (n div 10)) \<or> c = digit_char (n mod 10)"
      using 1(2) by (auto simp: show_nat.simps [of n])
    then show ?thesis using 1(1) False by (metis mod_less_divisor zero_less_numeral)
  qed
qed

lemma digit_char_neq: "d < 10 \<Longrightarrow> digit_char d \<noteq> CHR ''-'' \<and> digit_char d \<noteq> CHR ''+'' \<and> digit_char d \<noteq> CHR '':''"
proof -
  assume "d < 10"
  then have "of_char (digit_char d) = 48 + d"
    by (simp add: digit_char_def of_char_of take_bit_eq_mod)
  then show ?thesis using \<open>d < 10\<close> by auto
qed

lemma show_nat_no_sign: "CHR ''-'' \<notin> set (show_nat n)" "CHR ''+'' \<notin> set (show_nat n)"
    "CHR '':'' \<notin> set (show_nat n)"
  using show_nat_digits digit_char_neq by metis+

lemma show_int_no_colon: "CHR '':'' \<notin> set (show_int i)"
  by (simp add: show_int_def show_nat_no_sign)

lemma show_int_inj: "show_int i = show_int j \<Longrightarrow> i = j"
proof -
  assume a: "show_int i = show_int j"
  have no: "show_nat m \<noteq> CHR ''-'' # show_nat n" for m n
    using show_nat_no_sign(1) [of m] by force
  have inj: "show_nat m = show_nat n \<Longrightarrow> m = n" for m n
    by (metis option.inject parse_show_nat)
  show "i = j"
    using a no [symmetric] by (auto simp: show_int_def no dest!: inj split: if_splits)
qed

lemma parse_show_i64:
  assumes "- (2 ^ 63) \<le> i" and "i < 2 ^ 63"
  shows "parse_i64 (show_int i) = Some i"
proof (cases "i < 0")
  case True
  then show ?thesis using assms by (simp add: parse_i64_def parse_signed_def show_int_def nat_le_iff)
next
  case False
  have "hd (show_nat (nat i)) \<in> set (show_nat (nat i))" by simp
  then have "hd (show_nat (nat i)) \<noteq> CHR ''-''" "hd (show_nat (nat i)) \<noteq> CHR ''+''"
    using show_nat_no_sign [of "nat i"] by metis+
  then show ?thesis using False assms
    by (simp add: parse_i64_def parse_signed_def show_int_def nat_less_iff)
qed

lemma parse_i64_range: "parse_i64 s = Some i \<Longrightarrow> - (2 ^ 63) \<le> i \<and> i < 2 ^ 63"
  by (auto simp: parse_i64_def parse_signed_def split: option.splits if_splits)

end
