(* ===== verification/Token.thy ===== *)
theory Token
  imports Contract Text
begin

text \<open>
  Identity tokens (\<open>common/src/token/mod.rs\<close>). The JOSE library is a parameter: \<open>jwt_encode\<close> turns
  claims into a compact token and \<open>jwt_decode\<close> returns the claims of a token whose signature and
  registered claims pass a given validation. \<open>jwt_sound\<close> states what its documentation promises of
  an accepted token, and \<open>jwt_roundtrip\<close> that a freshly signed token that passes the validation is
  returned. Base64 is the parameter \<open>b64_decode\<close>.
\<close>

definition ISSUER :: string where "ISSUER = ''tenants''"

datatype principal_type = Daemon | User

record claims =
  cl_iss :: string
  cl_tid :: string
  cl_pt :: principal_type
  cl_sub :: string
  cl_net :: "string option"
  cl_cnf :: "string option"
  cl_aud :: "string list"
  cl_iat :: int
  cl_exp :: int

definition pop_public_key :: "(string \<Rightarrow> bytes option) \<Rightarrow> claims \<Rightarrow> string + bytes" where
  "pop_public_key b64_decode c =
     (case cl_cnf c of
        None \<Rightarrow> Inl ''token carries no cnf proof-of-possession key''
      | Some k \<Rightarrow>
          (case b64_decode (trim k) of
             None \<Rightarrow> Inl ''cnf ed25519 is not valid base64''
           | Some bs \<Rightarrow> if length bs = 32 then Inr bs else Inl ''cnf ed25519 must be 32 bytes''))"

record claims_spec =
  spec_tenant_id :: string
  spec_principal_type :: principal_type
  spec_subject :: string
  spec_network :: "string option"
  spec_cnf :: "string option"
  spec_audience :: "string list"

definition spec_claims :: "claims_spec \<Rightarrow> int \<Rightarrow> int \<Rightarrow> claims" where
  "spec_claims spec issued_at ttl_secs =
     \<lparr>cl_iss = ISSUER, cl_tid = spec_tenant_id spec, cl_pt = spec_principal_type spec, cl_sub = spec_subject spec,
      cl_net = spec_network spec, cl_cnf = spec_cnf spec, cl_aud = spec_audience spec,
      cl_iat = issued_at, cl_exp = issued_at + ttl_secs\<rparr>"

definition sign :: "(claims \<Rightarrow> string + string) \<Rightarrow> claims_spec \<Rightarrow> int \<Rightarrow> int \<Rightarrow> string + string" where
  "sign jwt_encode spec issued_at ttl_secs =
     (case jwt_encode (spec_claims spec issued_at ttl_secs) of
        Inl e \<Rightarrow> Inl (''failed to sign JWT: '' @ e) | Inr token \<Rightarrow> Inr token)"

record jwt_validation =
  issuers :: "string list"
  audiences :: "string list"
  validate_exp :: bool
  validate_aud :: bool
  leeway :: int

definition verifier_validation :: "string \<Rightarrow> jwt_validation" where
  "verifier_validation expected_audience =
     \<lparr>issuers = [ISSUER], audiences = [expected_audience], validate_exp = True, validate_aud = True, leeway = 0\<rparr>"

type_synonym jwt_decoder = "jwt_validation \<Rightarrow> int \<Rightarrow> string \<Rightarrow> string + claims"

definition verify :: "jwt_decoder \<Rightarrow> string \<Rightarrow> int \<Rightarrow> string \<Rightarrow> string + claims" where
  "verify jwt_decode expected_audience now token =
     (case jwt_decode (verifier_validation expected_audience) now token of
        Inl e \<Rightarrow> Inl (''JWT verification failed: '' @ e) | Inr c \<Rightarrow> Inr c)"

definition canonical_request_payload :: "string \<Rightarrow> string \<Rightarrow> int \<Rightarrow> string \<Rightarrow> string" where
  "canonical_request_payload method path_and_query ts body_sha256_hex =
     method @ [CHR 0x0A] @ path_and_query @ [CHR 0x0A] @ show_int ts @ [CHR 0x0A] @ body_sha256_hex"

section \<open>What the library promises\<close>

definition passes :: "jwt_validation \<Rightarrow> int \<Rightarrow> claims \<Rightarrow> bool" where
  "passes v now c =
     (cl_iss c \<in> set (issuers v) \<and>
      (validate_aud v \<longrightarrow> (\<exists>a \<in> set (cl_aud c). a \<in> set (audiences v))) \<and>
      (validate_exp v \<longrightarrow> now - leeway v \<le> cl_exp c))"

definition jwt_sound :: "jwt_decoder \<Rightarrow> bool" where
  "jwt_sound jwt_decode = (\<forall>v now token c. jwt_decode v now token = Inr c \<longrightarrow> passes v now c)"

definition jwt_roundtrip :: "(claims \<Rightarrow> string + string) \<Rightarrow> jwt_decoder \<Rightarrow> bool" where
  "jwt_roundtrip jwt_encode jwt_decode =
     (\<forall>v now token c. jwt_encode c = Inr token \<longrightarrow> passes v now c \<longrightarrow> jwt_decode v now token = Inr c)"

section \<open>Lemmas\<close>

lemma verify_Inr: "verify jd a now t = Inr c \<longleftrightarrow> jd (verifier_validation a) now t = Inr c"
  by (auto simp: verify_def split: sum.splits)

lemma verify_passes:
  "jwt_sound jd \<Longrightarrow> verify jd a now t = Inr c \<Longrightarrow> cl_iss c = ISSUER \<and> a \<in> set (cl_aud c) \<and> now \<le> cl_exp c"
proof -
  assume "jwt_sound jd" and "verify jd a now t = Inr c"
  then have "passes (verifier_validation a) now c" by (simp add: verify_Inr jwt_sound_def)
  then show ?thesis by (auto simp: passes_def verifier_validation_def)
qed

lemma sign_Inr: "sign je spec at ttl = Inr t \<longleftrightarrow> je (spec_claims spec at ttl) = Inr t"
  by (auto simp: sign_def split: sum.splits)

lemma sign_verify:
  assumes "jwt_roundtrip je jd" and "sign je spec at ttl = Inr t"
    and "a \<in> set (spec_audience spec)" and "now \<le> at + ttl"
  shows "verify jd a now t = Inr (spec_claims spec at ttl)"
  using assms by (auto simp: verify_Inr sign_Inr jwt_roundtrip_def passes_def verifier_validation_def spec_claims_def)

lemma pop_public_key_length: "pop_public_key b64 c = Inr k \<Longrightarrow> length k = 32"
  by (auto simp: pop_public_key_def split: option.splits if_splits)

lemma newline_free_prefix:
  fixes x :: char
  assumes "a @ [x] @ b = a' @ [x] @ b'" and "x \<notin> set a" and "x \<notin> set a'"
  shows "a = a' \<and> b = b'"
proof -
  have 1: "split_once x (a @ [x] @ b) = Some (a, b)" and 2: "split_once x (a' @ [x] @ b') = Some (a', b')"
    using assms(2,3) by (simp_all add: split_once_Some)
  have "Some (a, b) = Some (a', b')" using 1 2 unfolding assms(1) by (rule trans [OF sym])
  then show ?thesis by simp
qed

lemma show_int_no_newline: "CHR 0x0A \<notin> set (show_int i)"
proof -
  have "CHR 0x0A \<notin> set (show_nat n)" for n
  proof
    assume "CHR 0x0A \<in> set (show_nat n)"
    then obtain d where "d < 10" "CHR 0x0A = digit_char d" using show_nat_digits by blast
    then have "of_char (CHR 0x0A) = 48 + d" by (simp add: digit_char_def of_char_of take_bit_eq_mod)
    then show False by simp
  qed
  then show ?thesis by (simp add: show_int_def)
qed

lemma canonical_inj:
  assumes "canonical_request_payload m p ts h = canonical_request_payload m' p' ts' h'"
    and "CHR 0x0A \<notin> set m" "CHR 0x0A \<notin> set m'" "CHR 0x0A \<notin> set p" "CHR 0x0A \<notin> set p'"
  shows "m = m' \<and> p = p' \<and> ts = ts' \<and> h = h'"
proof -
  have 1: "m = m' \<and> p @ [CHR 0x0A] @ show_int ts @ [CHR 0x0A] @ h = p' @ [CHR 0x0A] @ show_int ts' @ [CHR 0x0A] @ h'"
    using assms unfolding canonical_request_payload_def by (intro newline_free_prefix)
  then have 2: "p = p' \<and> show_int ts @ [CHR 0x0A] @ h = show_int ts' @ [CHR 0x0A] @ h'"
    using assms by (intro newline_free_prefix) auto
  then have "show_int ts = show_int ts' \<and> h = h'"
    using newline_free_prefix [OF conjunct2 [OF 2] show_int_no_newline show_int_no_newline] by simp
  with 1 2 show ?thesis by (auto dest: show_int_inj)
qed

end
