(* ===== verification/Replay_Cache.thy ===== *)
theory Replay_Cache
  imports Prelude
begin

text \<open>
  The in-memory replay cache (\<open>common/src/replay_cache.rs\<close>): a hash map from keys to the second
  they were first seen, pruned on every call. The cache is an association list with distinct keys.
  The locale \<open>replay_guard\<close> is what the signed-request check relies on; its client lemma says
  that a key cannot be admitted twice within the window, whatever calls happen in between.
\<close>

type_synonym replay_cache = "(string \<times> int) list"

definition REPLAY_WINDOW_SECS :: int where "REPLAY_WINDOW_SECS = 120"

definition contains_or_insert :: "string \<Rightarrow> int \<Rightarrow> replay_cache \<Rightarrow> bool \<times> replay_cache" where
  "contains_or_insert key now cache =
     (let kept = filter (\<lambda>(k, ts). now - ts < REPLAY_WINDOW_SECS) cache in
      if key \<in> set (map fst kept) then (True, kept) else (False, (key, now) # kept))"

definition cache_wf :: "replay_cache \<Rightarrow> bool" where
  "cache_wf cache = distinct (map fst cache)"

section \<open>The interface\<close>

locale replay_guard =
  fixes check :: "'k \<Rightarrow> int \<Rightarrow> 'st \<Rightarrow> bool \<times> 'st"
    and seen :: "'k \<Rightarrow> int \<Rightarrow> 'st \<Rightarrow> bool"
    and window :: int
  assumes check_seen: "fst (check k now st) = False \<Longrightarrow> seen k now (snd (check k now st))"
    and check_keeps: "seen k t st \<Longrightarrow> now < t + window \<Longrightarrow> seen k t (snd (check k' now st))"
    and check_rejects: "seen k t st \<Longrightarrow> now < t + window \<Longrightarrow> fst (check k now st)"
begin

definition checks :: "('k \<times> int) list \<Rightarrow> 'st \<Rightarrow> 'st" where
  "checks xs st = foldl (\<lambda>st (k, now). snd (check k now st)) st xs"

lemma checks_keep:
  "seen k t st \<Longrightarrow> \<forall>(k', now) \<in> set xs. now < t + window \<Longrightarrow> seen k t (checks xs st)"
proof (induction xs arbitrary: st)
  case (Cons x xs)
  obtain k' now where "x = (k', now)" by (cases x)
  with Cons show ?case by (auto simp: checks_def check_keeps)
qed (simp add: checks_def)

lemma readmitted_late:
  assumes "fst (check k t st) = False" and "\<forall>(k', now) \<in> set xs. now \<le> t'"
    and "fst (check k t' (checks xs (snd (check k t st)))) = False"
  shows "t + window \<le> t'"
proof (rule ccontr)
  assume "\<not> t + window \<le> t'"
  then have "\<forall>(k', now) \<in> set xs. now < t + window" using assms(2) by auto
  then have "seen k t (checks xs (snd (check k t st)))"
    using check_seen [OF assms(1)] by (rule checks_keep [rotated])
  with assms(3) \<open>\<not> t + window \<le> t'\<close> show False using check_rejects [of k t] by auto
qed

end

section \<open>The cache provides it\<close>

lemma insert_fresh:
  "k \<notin> set (map fst cache) \<Longrightarrow> contains_or_insert k now cache =
    (False, (k, now) # filter (\<lambda>(k, ts). now - ts < REPLAY_WINDOW_SECS) cache)"
  by (auto simp: contains_or_insert_def Let_def)

lemma contains_or_insert_wf: "cache_wf cache \<Longrightarrow> cache_wf (snd (contains_or_insert k now cache))"
  by (simp add: contains_or_insert_def cache_wf_def Let_def distinct_map_filter)

lemma contains_or_insert_bound:
  "(k', ts) \<in> set (snd (contains_or_insert k now cache)) \<Longrightarrow> now - ts < REPLAY_WINDOW_SECS"
  by (auto simp: contains_or_insert_def Let_def REPLAY_WINDOW_SECS_def split: if_splits)

interpretation replay: replay_guard contains_or_insert "\<lambda>k t cache. (k, t) \<in> set cache" REPLAY_WINDOW_SECS
  by unfold_locales (force simp: contains_or_insert_def Let_def split: if_splits)+

text \<open>The boundary: the entry of a key first seen at \<open>t\<close> is dropped by a call at \<open>t + 120\<close>.\<close>

lemma dropped_at_window:
  assumes "cache_wf cache" and "(k, t) \<in> set cache"
  shows "fst (contains_or_insert k (t + REPLAY_WINDOW_SECS) cache) = False"
  using assms by (auto simp: contains_or_insert_def cache_wf_def Let_def distinct_map inj_on_def) fastforce

end
