(* ===== verification/Auth.thy ===== *)
theory Auth
  imports Token Replay_Cache
begin

text \<open>
  The authentication middleware (\<open>common/src/auth/mod.rs\<close>). A request is the parts the middleware
  reads; headers are the header map, names in lower case. The clock is read twice by the signed-request
  check, once for the timestamp window and once for the replay cache, so both readings are arguments.
  The cryptographic primitives are the record \<open>crypto\<close>. The middleware either rejects with a status
  and a message or forwards the resolved caller; the replay cache is its state.
\<close>

definition TIMESTAMP_WINDOW_SECS :: int where "TIMESTAMP_WINDOW_SECS = 60"

definition MAX_BODY_BYTES :: nat where "MAX_BODY_BYTES = 1024 * 1024"

record crypto =
  b64_decode :: "string \<Rightarrow> bytes option"
  sha256_hex :: "string \<Rightarrow> string"
  key_from_bytes :: "bytes \<Rightarrow> bool"
  ed25519_verify :: "bytes \<Rightarrow> string \<Rightarrow> bytes \<Rightarrow> bool"

datatype caller_type = SERVICE | DAEMON | USER

record service_identity =
  si_trust_domain :: string
  si_env :: string
  si_scope :: string
  si_service :: string

record daemon_caller =
  dc_tenant_id :: string
  dc_public_key :: string
  dc_network :: "string option"

record user_caller =
  uc_tenant_id :: string
  uc_user_id :: string
  uc_network :: "string option"

datatype caller = ServiceCaller service_identity | DaemonCaller daemon_caller | UserCaller user_caller

fun caller_type_of :: "caller \<Rightarrow> caller_type" where
  "caller_type_of (ServiceCaller s) = SERVICE"
| "caller_type_of (DaemonCaller d) = DAEMON"
| "caller_type_of (UserCaller u) = USER"

fun caller_tenant_id :: "caller \<Rightarrow> string option" where
  "caller_tenant_id (DaemonCaller d) = Some (dc_tenant_id d)"
| "caller_tenant_id (UserCaller u) = Some (uc_tenant_id u)"
| "caller_tenant_id (ServiceCaller s) = None"

type_synonym header_map = "(string \<times> string) list"

record request =
  rq_method :: string
  rq_path :: string
  rq_path_and_query :: "string option"
  rq_headers :: header_map
  rq_body :: string
  rq_service :: "service_identity option"

definition to_str :: "string \<Rightarrow> string option" where
  "to_str v = (if list_all (\<lambda>c. of_char c = (9::nat) \<or> (32 \<le> (of_char c :: nat) \<and> (of_char c :: nat) < 127)) v
     then Some v else None)"

definition header :: "string \<Rightarrow> header_map \<Rightarrow> string option" where
  "header name hs = Option.bind (map_of hs name) to_str"

definition bearer :: "header_map \<Rightarrow> string option" where
  "bearer hs = Option.bind (header ''authorization'' hs) (strip_prefix ''Bearer '')"

definition verify_signature_bytes :: "crypto \<Rightarrow> bytes \<Rightarrow> string \<Rightarrow> string \<Rightarrow> string + unit" where
  "verify_signature_bytes cr pub_key message signature_b64 =
     (if \<not> key_from_bytes cr pub_key then Inl ''invalid verifying key''
      else case b64_decode cr signature_b64 of
             None \<Rightarrow> Inl ''base64-decode signature''
           | Some sig \<Rightarrow>
               if length sig \<noteq> 64 then Inl ''Ed25519 signature must be exactly 64 bytes''
               else if ed25519_verify cr pub_key message sig then Inr () else Inl ''signature mismatch'')"

definition verify_pop ::
  "crypto \<Rightarrow> int \<Rightarrow> string \<Rightarrow> string \<Rightarrow> int \<Rightarrow> string \<Rightarrow> string \<Rightarrow> bytes \<Rightarrow> string + string" where
  "verify_pop cr now method path_and_query ts signature_b64 body pub_key =
     (if \<bar>now - ts\<bar> > TIMESTAMP_WINDOW_SECS then Inl ''timestamp outside window''
      else let body_hash = sha256_hex cr body;
               payload = canonical_request_payload method path_and_query ts body_hash in
           case verify_signature_bytes cr pub_key payload signature_b64 of
             Inl e \<Rightarrow> Inl e | Inr _ \<Rightarrow> Inr body_hash)"

definition replay_key :: "string \<Rightarrow> int \<Rightarrow> string \<Rightarrow> string" where
  "replay_key subject ts body_hash = subject @ '':'' @ show_int ts @ '':'' @ body_hash"

definition verify_pop_request ::
  "crypto \<Rightarrow> int \<Rightarrow> int \<Rightarrow> string \<Rightarrow> string \<Rightarrow> header_map \<Rightarrow> string \<Rightarrow> bytes \<Rightarrow> string \<Rightarrow> replay_cache
    \<Rightarrow> (string + unit) \<times> replay_cache" where
  "verify_pop_request cr now now' method path_and_query hs body pub_key subject cache =
     (case Option.bind (header ''x-wardnet-timestamp'' hs) parse_i64 of
        None \<Rightarrow> (Inl ''missing or invalid X-Wardnet-Timestamp'', cache)
      | Some ts \<Rightarrow>
          (case verify_pop cr now method path_and_query ts
                  (case header ''x-wardnet-signature'' hs of None \<Rightarrow> [] | Some s \<Rightarrow> s) body pub_key of
             Inl _ \<Rightarrow> (Inl ''invalid request signature'', cache)
           | Inr body_hash \<Rightarrow>
               (case contains_or_insert (replay_key subject ts body_hash) now' cache of
                  (True, cache') \<Rightarrow> (Inl ''replayed request'', cache')
                | (False, cache') \<Rightarrow> (Inr (), cache'))))"

definition verify_signed_request ::
  "crypto \<Rightarrow> int \<Rightarrow> int \<Rightarrow> request \<Rightarrow> string \<Rightarrow> bytes \<Rightarrow> replay_cache \<Rightarrow> ((nat \<times> string) + unit) \<times> replay_cache" where
  "verify_signed_request cr now now' rq subject pub_key cache =
     (let path_and_query = (case rq_path_and_query rq of None \<Rightarrow> rq_path rq | Some p \<Rightarrow> p) in
      case verify_pop_request cr now now' (rq_method rq) path_and_query (rq_headers rq) (rq_body rq) pub_key
             subject cache of
        (Inl reason, cache') \<Rightarrow> (Inl (401, reason), cache')
      | (Inr _, cache') \<Rightarrow> (Inr (), cache'))"

record auth_context =
  ax_crypto :: crypto
  ax_jwt_decode :: jwt_decoder
  ax_service :: string

definition authenticate ::
  "auth_context \<Rightarrow> caller_type set \<Rightarrow> int \<Rightarrow> int \<Rightarrow> request \<Rightarrow> replay_cache
    \<Rightarrow> ((nat \<times> string) + caller) \<times> replay_cache" where
  "authenticate ax allowed now now' rq cache =
     (if length (rq_body rq) > MAX_BODY_BYTES then (Inl (413, ''request body exceeds 1 MiB limit''), cache)
      else case rq_service rq of
        Some service \<Rightarrow>
          if SERVICE \<notin> allowed then (Inl (403, ''this endpoint does not accept service callers''), cache)
          else (Inr (ServiceCaller service), cache)
      | None \<Rightarrow>
        (case bearer (rq_headers rq) of
           None \<Rightarrow> (Inl (401, ''authentication required''), cache)
         | Some token \<Rightarrow>
           (case verify (ax_jwt_decode ax) (ax_service ax) now token of
              Inl _ \<Rightarrow> (Inl (401, ''invalid token''), cache)
            | Inr c \<Rightarrow>
              (case cl_pt c of
                 Daemon \<Rightarrow>
                   if DAEMON \<notin> allowed then (Inl (403, ''this endpoint does not accept daemon callers''), cache)
                   else (case pop_public_key (b64_decode (ax_crypto ax)) c of
                     Inl _ \<Rightarrow> (Inl (401, ''invalid token''), cache)
                   | Inr pub_key \<Rightarrow>
                     (case verify_signed_request (ax_crypto ax) now now' rq (cl_sub c) pub_key cache of
                        (Inl rejection, cache') \<Rightarrow> (Inl rejection, cache')
                      | (Inr _, cache') \<Rightarrow>
                          (Inr (DaemonCaller \<lparr>dc_tenant_id = cl_tid c, dc_public_key = cl_sub c, dc_network = cl_net c\<rparr>), cache')))
               | User \<Rightarrow>
                   if USER \<notin> allowed then (Inl (403, ''this endpoint does not accept user callers''), cache)
                   else (Inr (UserCaller \<lparr>uc_tenant_id = cl_tid c, uc_user_id = cl_sub c, uc_network = cl_net c\<rparr>), cache)))))"

section \<open>Signed requests\<close>

definition signed_over :: "crypto \<Rightarrow> bytes \<Rightarrow> string \<Rightarrow> header_map \<Rightarrow> bool" where
  "signed_over cr key payload hs =
     (\<exists>sig. b64_decode cr (case header ''x-wardnet-signature'' hs of None \<Rightarrow> [] | Some s \<Rightarrow> s) = Some sig \<and>
       length sig = 64 \<and> key_from_bytes cr key \<and> ed25519_verify cr key payload sig)"

definition request_time :: "header_map \<Rightarrow> int option" where
  "request_time hs = Option.bind (header ''x-wardnet-timestamp'' hs) parse_i64"

lemma verify_signature_bytes_Inr:
  "verify_signature_bytes cr key msg sigtext = Inr u \<longleftrightarrow>
    (\<exists>sig. b64_decode cr sigtext = Some sig \<and> length sig = 64 \<and> key_from_bytes cr key \<and> ed25519_verify cr key msg sig)"
  by (auto simp: verify_signature_bytes_def split: option.splits)

lemma verify_pop_Inr:
  "verify_pop cr now m pq ts sigtext body key = Inr h \<longleftrightarrow>
    \<bar>now - ts\<bar> \<le> 60 \<and> h = sha256_hex cr body \<and>
    verify_signature_bytes cr key (canonical_request_payload m pq ts (sha256_hex cr body)) sigtext = Inr ()"
  by (auto simp: verify_pop_def TIMESTAMP_WINDOW_SECS_def Let_def split: sum.splits)

lemma verify_pop_request_iff:
  "verify_pop_request cr now now' m pq hs body key subject cache = (Inr u, cache') \<longleftrightarrow>
    (\<exists>ts. request_time hs = Some ts \<and> \<bar>now - ts\<bar> \<le> 60 \<and>
       signed_over cr key (canonical_request_payload m pq ts (sha256_hex cr body)) hs \<and>
       contains_or_insert (replay_key subject ts (sha256_hex cr body)) now' cache = (False, cache'))"
proof (cases "request_time hs")
  case None
  then show ?thesis by (simp add: verify_pop_request_def request_time_def)
next
  case (Some ts)
  let ?sig = "case header ''x-wardnet-signature'' hs of None \<Rightarrow> [] | Some s \<Rightarrow> s"
  have v: "verify_pop cr now m pq ts ?sig body key = Inr h \<longleftrightarrow>
      h = sha256_hex cr body \<and> \<bar>now - ts\<bar> \<le> 60 \<and>
      signed_over cr key (canonical_request_payload m pq ts (sha256_hex cr body)) hs" for h
    by (auto simp: verify_pop_Inr verify_signature_bytes_Inr signed_over_def)
  show ?thesis
  proof (cases "verify_pop cr now m pq ts ?sig body key")
    case (Inl e)
    then have "\<not> (\<bar>now - ts\<bar> \<le> 60 \<and> signed_over cr key (canonical_request_payload m pq ts (sha256_hex cr body)) hs)"
      using v by auto
    then show ?thesis using Some Inl by (auto simp: verify_pop_request_def request_time_def)
  next
    case (Inr h)
    then have "h = sha256_hex cr body \<and> \<bar>now - ts\<bar> \<le> 60 \<and>
      signed_over cr key (canonical_request_payload m pq ts (sha256_hex cr body)) hs" using v by simp
    then show ?thesis using Some Inr
      by (auto simp: verify_pop_request_def request_time_def split: prod.splits bool.splits)
  qed
qed

lemma replay_key_inj:
  assumes "replay_key s ts h = replay_key s' ts' h'" and "CHR '':'' \<notin> set s" and "CHR '':'' \<notin> set s'"
  shows "s = s' \<and> ts = ts' \<and> h = h'"
proof -
  have 1: "s = s' \<and> show_int ts @ [CHR '':''] @ h = show_int ts' @ [CHR '':''] @ h'"
    using assms unfolding replay_key_def by (intro newline_free_prefix) auto
  have "show_int ts = show_int ts' \<and> h = h'"
    by (rule newline_free_prefix [OF conjunct2 [OF 1] show_int_no_colon show_int_no_colon])
  with 1 show ?thesis by (auto dest: show_int_inj)
qed

lemma verify_signed_request_Inr:
  "verify_signed_request cr now now' rq subject key cache = (Inr u, cache') \<longleftrightarrow>
    verify_pop_request cr now now' (rq_method rq)
      (case rq_path_and_query rq of None \<Rightarrow> rq_path rq | Some p \<Rightarrow> p)
      (rq_headers rq) (rq_body rq) key subject cache = (Inr (), cache')"
  by (auto simp: verify_signed_request_def Let_def split: prod.splits sum.splits)

section \<open>What an admitted caller has shown\<close>

definition token_for :: "auth_context \<Rightarrow> int \<Rightarrow> request \<Rightarrow> claims \<Rightarrow> bool" where
  "token_for ax now rq c =
     (\<exists>token. bearer (rq_headers rq) = Some token \<and> verify (ax_jwt_decode ax) (ax_service ax) now token = Inr c)"

definition possession :: "auth_context \<Rightarrow> int \<Rightarrow> request \<Rightarrow> claims \<Rightarrow> bool" where
  "possession ax now rq c =
     (\<exists>key ts. pop_public_key (b64_decode (ax_crypto ax)) c = Inr key \<and> length key = 32 \<and>
        request_time (rq_headers rq) = Some ts \<and> \<bar>now - ts\<bar> \<le> 60 \<and>
        signed_over (ax_crypto ax) key
          (canonical_request_payload (rq_method rq)
            (case rq_path_and_query rq of None \<Rightarrow> rq_path rq | Some p \<Rightarrow> p) ts
            (sha256_hex (ax_crypto ax) (rq_body rq))) (rq_headers rq))"

fun evidence :: "auth_context \<Rightarrow> int \<Rightarrow> request \<Rightarrow> caller \<Rightarrow> bool" where
  "evidence ax now rq (ServiceCaller s) = (rq_service rq = Some s)"
| "evidence ax now rq (DaemonCaller d) =
     (rq_service rq = None \<and> (\<exists>c. token_for ax now rq c \<and> cl_pt c = Daemon \<and> possession ax now rq c \<and>
        d = \<lparr>dc_tenant_id = cl_tid c, dc_public_key = cl_sub c, dc_network = cl_net c\<rparr>))"
| "evidence ax now rq (UserCaller u) =
     (rq_service rq = None \<and> (\<exists>c. token_for ax now rq c \<and> cl_pt c = User \<and>
        u = \<lparr>uc_tenant_id = cl_tid c, uc_user_id = cl_sub c, uc_network = cl_net c\<rparr>))"

lemma authenticate_daemon_evidence:
  assumes "bearer (rq_headers rq) = Some token" and "verify (ax_jwt_decode ax) (ax_service ax) now token = Inr c"
    and "pop_public_key (b64_decode (ax_crypto ax)) c = Inr key"
    and "verify_signed_request (ax_crypto ax) now now' rq (cl_sub c) key cache = (Inr u, cache')"
  shows "token_for ax now rq c \<and> possession ax now rq c"
  using assms pop_public_key_length [OF assms(3)]
  by (auto simp: token_for_def possession_def verify_signed_request_Inr verify_pop_request_iff)

lemma authenticate_evidence:
  assumes "authenticate ax allowed now now' rq cache = (Inr caller, cache')"
  shows "caller_type_of caller \<in> allowed \<and> evidence ax now rq caller \<and> length (rq_body rq) \<le> MAX_BODY_BYTES"
proof (cases "rq_service rq")
  case (Some s)
  with assms show ?thesis by (auto simp: authenticate_def split: if_splits)
next
  case None
  from assms None obtain token c where
    len: "length (rq_body rq) \<le> MAX_BODY_BYTES" and
    b: "bearer (rq_headers rq) = Some token" and
    v: "verify (ax_jwt_decode ax) (ax_service ax) now token = Inr c"
    by (auto simp: authenticate_def split: if_splits option.splits sum.splits)
  show ?thesis
  proof (cases "cl_pt c")
    case User
    with assms None len b v show ?thesis
      by (auto simp: authenticate_def token_for_def split: if_splits)
  next
    case Daemon
    with assms None len b v obtain key u where
      k: "pop_public_key (b64_decode (ax_crypto ax)) c = Inr key" and
      sr: "verify_signed_request (ax_crypto ax) now now' rq (cl_sub c) key cache = (Inr u, cache')" and
      cl: "caller = DaemonCaller \<lparr>dc_tenant_id = cl_tid c, dc_public_key = cl_sub c, dc_network = cl_net c\<rparr>" and
      al: "DAEMON \<in> allowed"
      by (auto simp: authenticate_def split: if_splits sum.splits prod.splits)
    from authenticate_daemon_evidence [OF b v k sr] show ?thesis
      using None Daemon len al by (auto simp: cl)
  qed
qed

section \<open>Properties\<close>

definition ex_crypto :: crypto where
  "ex_crypto = \<lparr>b64_decode = (\<lambda>s. if s = ''K'' then Some (replicate 32 1) else if s = ''S'' then Some (replicate 64 2) else None),
     sha256_hex = (\<lambda>s. ''h''), key_from_bytes = (\<lambda>k. k = replicate 32 1),
     ed25519_verify = (\<lambda>k m s. k = replicate 32 1 \<and> s = replicate 64 2)\<rparr>"

definition ex_claims :: claims where
  "ex_claims = \<lparr>cl_iss = ISSUER, cl_tid = ''t1'', cl_pt = Daemon, cl_sub = ''K'', cl_net = Some ''n1'', cl_cnf = Some ''K'',
     cl_aud = [''tenants'', ''ddns''], cl_iat = 0, cl_exp = 3600\<rparr>"

definition ex_decode :: jwt_decoder where
  "ex_decode v now token =
     (if token = ''tok'' \<and> ISSUER \<in> set (issuers v) \<and> list_ex (\<lambda>a. a \<in> set (audiences v)) (cl_aud ex_claims) \<and>
         now - leeway v \<le> cl_exp ex_claims
      then Inr ex_claims else Inl ''no'')"

definition ex_context :: auth_context where
  "ex_context = \<lparr>ax_crypto = ex_crypto, ax_jwt_decode = ex_decode, ax_service = ''ddns''\<rparr>"

definition ex_headers :: header_map where
  "ex_headers = [(''authorization'', ''Bearer tok''), (''x-wardnet-timestamp'', ''160''), (''x-wardnet-signature'', ''S'')]"

definition ex_request :: request where
  "ex_request = \<lparr>rq_method = ''PUT'', rq_path = ''/v1/ip'', rq_path_and_query = Some ''/v1/ip'',
     rq_headers = ex_headers, rq_body = ''{}'', rq_service = None\<rparr>"

lemma ex_decode_sound: "jwt_sound ex_decode"
  by (auto simp: jwt_sound_def ex_decode_def passes_def ex_claims_def split: if_splits)

lemma ex_authenticate:
  "authenticate ex_context {DAEMON} 100 100 ex_request [] =
     (Inr (DaemonCaller \<lparr>dc_tenant_id = ''t1'', dc_public_key = ''K'', dc_network = Some ''n1''\<rparr>), [(''K:160:h'', 100)])"
proof -
  have t: "parse_i64 ''160'' = Some 160"
    by (simp add: parse_i64_def parse_signed_def parse_nat_def digit_val_def)
  have sh: "show_int 160 = ''160''" by code_simp
  show ?thesis
    by (simp add: authenticate_def MAX_BODY_BYTES_def ex_request_def ex_headers_def bearer_def header_def to_str_def
        strip_prefix_def starts_with_def verify_def ex_context_def ex_decode_def ex_claims_def verifier_validation_def
        pop_public_key_def ex_crypto_def trim_def trim_start_def is_whitespace_def verify_signed_request_def
        verify_pop_request_def verify_pop_def verify_signature_bytes_def TIMESTAMP_WINDOW_SECS_def t
        replay_key_def sh contains_or_insert_def)
qed

text \<open>C2. The middleware fails closed. A caller it forwards is of an allowed kind and has shown what its kind
  requires: a service has a mesh peer identity; a user or a daemon has a bearer token that verifies for this
  service, is unexpired and names this service in its audience; and a daemon has in addition signed this very
  method, path, timestamp and body, within a minute of now, with the key its token is bound to.\<close>

theorem authenticate_sound:
  assumes "authenticate ax allowed now now' rq cache = (Inr caller, cache')" and "jwt_sound (ax_jwt_decode ax)"
  shows "caller_type_of caller \<in> allowed \<and> evidence ax now rq caller \<and>
    (caller_type_of caller \<noteq> SERVICE \<longrightarrow>
      (\<exists>c. token_for ax now rq c \<and> cl_iss c = ISSUER \<and> ax_service ax \<in> set (cl_aud c) \<and> now \<le> cl_exp c \<and>
           caller_tenant_id caller = Some (cl_tid c)))"
proof -
  have t: "token_for ax now rq c \<Longrightarrow> cl_iss c = ISSUER \<and> ax_service ax \<in> set (cl_aud c) \<and> now \<le> cl_exp c" for c
    using verify_passes [OF assms(2)] by (auto simp: token_for_def)
  from authenticate_evidence [OF assms(1)] show ?thesis
    by (cases caller) (auto dest: t)
qed

theorem authenticate_sound_witness:
  "evidence ex_context 100 ex_request
     (DaemonCaller \<lparr>dc_tenant_id = ''t1'', dc_public_key = ''K'', dc_network = Some ''n1''\<rparr>)"
  using authenticate_sound [OF ex_authenticate] ex_decode_sound by (simp add: ex_context_def)



text \<open>The edge is real: a request stamped one minute ahead of the service clock is admitted, and the identical
  request is admitted a second time 120 seconds later.\<close>

theorem replay_admitted_at_edge:
  assumes "request_time hs = Some (t + 60)" and "cache_wf cache"
    and "signed_over cr key (canonical_request_payload m pq (t + 60) (sha256_hex cr body)) hs"
    and "replay_key subject (t + 60) (sha256_hex cr body) \<notin> set (map fst cache)"
  shows "\<exists>c1 c2. verify_pop_request cr t t m pq hs body key subject cache = (Inr (), c1) \<and>
    verify_pop_request cr (t + 120) (t + 120) m pq hs body key subject c1 = (Inr (), c2)"
proof -
  let ?k = "replay_key subject (t + 60) (sha256_hex cr body)"
  obtain c1 where i1: "contains_or_insert ?k t cache = (False, c1)" and mem: "(?k, t) \<in> set c1"
    using insert_fresh [OF assms(4), of t] by simp
  have "cache_wf c1" using contains_or_insert_wf [OF assms(2), of ?k t] i1 by simp
  from dropped_at_window [OF this mem] obtain c2 where "contains_or_insert ?k (t + 120) c1 = (False, c2)"
    by (metis REPLAY_WINDOW_SECS_def prod.collapse)
  with i1 assms show ?thesis by (auto simp: verify_pop_request_iff)
qed

theorem replay_admitted_at_edge_witness:
  "\<exists>c1 c2. verify_pop_request ex_crypto 100 100 ''PUT'' ''/v1/ip'' ex_headers ''{}'' (replicate 32 1) ''K'' [] = (Inr (), c1) \<and>
    verify_pop_request ex_crypto (100 + 120) (100 + 120) ''PUT'' ''/v1/ip'' ex_headers ''{}'' (replicate 32 1) ''K'' c1 = (Inr (), c2)"
proof (rule replay_admitted_at_edge)
  show "request_time ex_headers = Some (100 + 60)"
    by (simp add: request_time_def ex_headers_def header_def to_str_def parse_i64_def parse_signed_def
        parse_nat_def digit_val_def)
  show "signed_over ex_crypto (replicate 32 1)
      (canonical_request_payload ''PUT'' ''/v1/ip'' (100 + 60) (sha256_hex ex_crypto ''{}'')) ex_headers"
    by (simp add: signed_over_def ex_headers_def ex_crypto_def header_def to_str_def)
qed (simp_all add: cache_wf_def)

end
