(* ===== verification/Validation.thy ===== *)
theory Validation
  imports Contract Text
begin

unbundle bit_operations_syntax

text \<open>
  The input gates: vanity names, public keys and ACME values (\<open>common/src/validation.rs\<close>),
  e-mail normalisation (\<open>tenants/src/util.rs\<close>) and the routable-address gate of the
  IP report (\<open>ddns/src/api/ip.rs\<close>). Base64 decoding is the parameter \<open>b64_decode\<close>.
\<close>

section \<open>Names\<close>

definition RESERVED_NAMES :: "string list" where
  "RESERVED_NAMES =
     [''www'', ''mail'', ''api'', ''ddns'', ''my'', ''admin'', ''bridge'', ''static'', ''wildcard'',
      ''wardnet'', ''support'', ''help'', ''ns'', ''ns1'', ''ns2'', ''ftp'', ''smtp'', ''imap'',
      ''pop3'', ''us'', ''eu'']"

definition name_char :: "char \<Rightarrow> bool" where
  "name_char c = ((CHR ''a'' \<le> c \<and> c \<le> CHR ''z'') \<or> (CHR ''0'' \<le> c \<and> c \<le> CHR ''9'') \<or> c = CHR ''-'')"

definition is_valid_name :: "string \<Rightarrow> bool" where
  "is_valid_name name =
     (let len = length name in
      if \<not> (3 \<le> len \<and> len \<le> 32) then False
      else if starts_with ''-'' name \<or> ends_with ''-'' name then False
      else if \<not> list_all name_char name then False
      else name \<notin> set RESERVED_NAMES)"

definition validate_name :: "string \<Rightarrow> api_error + unit" where
  "validate_name name =
     (let len = length name in
      if \<not> (3 \<le> len \<and> len \<le> 32)
      then Inl (BadRequest ''name must be between 3 and 32 characters'')
      else if starts_with ''-'' name \<or> ends_with ''-'' name
      then Inl (BadRequest ''name must not start or end with a hyphen'')
      else if \<not> list_all name_char name
      then Inl (BadRequest ''name may only contain lowercase letters, digits, and hyphens'')
      else if name \<in> set RESERVED_NAMES
      then Inl (BadRequest (CHR 0x27 # name @ [CHR 0x27] @ '' is a reserved name''))
      else Inr ())"

section \<open>Keys, ACME values, e-mail\<close>

definition validate_public_key :: "(string \<Rightarrow> bytes option) \<Rightarrow> string \<Rightarrow> api_error + bytes" where
  "validate_public_key b64_decode public_key =
     (case b64_decode public_key of
        None \<Rightarrow> Inl (BadRequest ''public_key is not valid base64'')
      | Some bytes \<Rightarrow>
          if length bytes = 32 then Inr bytes
          else Inl (BadRequest ''public_key must be a base64-encoded Ed25519 key (32 bytes)''))"

definition MAX_ACME_VALUES :: nat where "MAX_ACME_VALUES = 4"

definition MAX_ACME_VALUE_LEN :: nat where "MAX_ACME_VALUE_LEN = 255"

definition validate_acme_values :: "string list \<Rightarrow> api_error + unit" where
  "validate_acme_values values =
     (if values = []
      then Inl (BadRequest ''values must contain at least one challenge value (clear via DELETE)'')
      else if length values > MAX_ACME_VALUES
      then Inl (BadRequest (''at most '' @ show_nat MAX_ACME_VALUES @
                  '' challenge values may be set at once''))
      else (case find (\<lambda>v. length v > MAX_ACME_VALUE_LEN) values of
              Some v \<Rightarrow> Inl (BadRequest (''challenge value exceeds '' @ show_nat MAX_ACME_VALUE_LEN @
                          '' characters ('' @ show_nat (length v) @ '' given)''))
            | None \<Rightarrow> Inr ()))"

definition normalize_email :: "string \<Rightarrow> string + string" where
  "normalize_email email =
     (let e = to_lowercase (trim email) in
      if length e < 3 \<or> CHR ''@'' \<notin> set e then Inl ''invalid email'' else Inr e)"

section \<open>IPv4 addresses\<close>

type_synonym ipv4 = "u8 \<times> u8 \<times> u8 \<times> u8"

definition parse_octet :: "string \<Rightarrow> u8 option" where
  "parse_octet s =
     (if s = [] \<or> length s > 3 \<or> (length s > 1 \<and> hd s = CHR ''0'') then None
      else (case parse_nat s of None \<Rightarrow> None
            | Some n \<Rightarrow> if n \<le> 255 then Some (of_nat n) else None))"

definition parse_ipv4 :: "string \<Rightarrow> ipv4 option" where
  "parse_ipv4 s =
     (case map parse_octet (split_on (CHR ''.'') s) of
        [Some a, Some b, Some c, Some d] \<Rightarrow> Some (a, b, c, d)
      | _ \<Rightarrow> None)"

definition show_ipv4 :: "ipv4 \<Rightarrow> string" where
  "show_ipv4 ip = (case ip of (a, b, c, d) \<Rightarrow>
     join_with ''.'' [show_nat (unat a), show_nat (unat b), show_nat (unat c), show_nat (unat d)])"

definition is_reserved_ipv4 :: "ipv4 \<Rightarrow> bool" where
  "is_reserved_ipv4 addr = (case addr of (a, b, c, d) \<Rightarrow>
     (a = 10 \<or> (a = 172 \<and> 16 \<le> b \<and> b \<le> 31) \<or> (a = 192 \<and> b = 168))
     \<or> a = 127
     \<or> (a = 169 \<and> b = 254)
     \<or> (a = 255 \<and> b = 255 \<and> c = 255 \<and> d = 255)
     \<or> ((a = 192 \<and> b = 0 \<and> c = 2) \<or> (a = 198 \<and> b = 51 \<and> c = 100) \<or> (a = 203 \<and> b = 0 \<and> c = 113))
     \<or> (a = 0 \<and> b = 0 \<and> c = 0 \<and> d = 0)
     \<or> (224 \<le> a \<and> a \<le> 239)
     \<or> 240 \<le> a
     \<or> (a = 100 \<and> (b AND 0xC0) = 64))"

text \<open>The reference: membership in a list of CIDR blocks, on the 32-bit value of the address.\<close>

definition ipv4_value :: "ipv4 \<Rightarrow> nat" where
  "ipv4_value addr = (case addr of (a, b, c, d) \<Rightarrow>
     unat a * 2 ^ 24 + unat b * 2 ^ 16 + unat c * 2 ^ 8 + unat d)"

definition in_cidr :: "ipv4 \<Rightarrow> ipv4 \<times> nat \<Rightarrow> bool" where
  "in_cidr addr cidr =
     (ipv4_value addr div 2 ^ (32 - snd cidr) = ipv4_value (fst cidr) div 2 ^ (32 - snd cidr))"

definition RESERVED_CIDRS :: "(ipv4 \<times> nat) list" where
  "RESERVED_CIDRS =
     [((10, 0, 0, 0), 8), ((172, 16, 0, 0), 12), ((192, 168, 0, 0), 16), ((127, 0, 0, 0), 8),
      ((169, 254, 0, 0), 16), ((255, 255, 255, 255), 32), ((192, 0, 2, 0), 24),
      ((198, 51, 100, 0), 24), ((203, 0, 113, 0), 24), ((0, 0, 0, 0), 32), ((224, 0, 0, 0), 4),
      ((240, 0, 0, 0), 4), ((100, 64, 0, 0), 10)]"

section \<open>Lemmas\<close>

lemma is_valid_name_iff_validate: "is_valid_name name \<longleftrightarrow> validate_name name = Inr ()"
  by (simp add: is_valid_name_def validate_name_def Let_def)

lemma validate_name_rejects: "\<not> is_valid_name name \<Longrightarrow> \<exists>m. validate_name name = Inl (BadRequest m)"
  by (auto simp: is_valid_name_def validate_name_def Let_def)

lemma is_valid_name_length: "is_valid_name name \<Longrightarrow> 3 \<le> length name \<and> length name \<le> 32"
  by (auto simp: is_valid_name_def Let_def split: if_splits)

lemma is_valid_name_chars: "is_valid_name name \<Longrightarrow> c \<in> set name \<Longrightarrow> name_char c"
  by (auto simp: is_valid_name_def Let_def list_all_iff split: if_splits)

lemma is_valid_name_edges:
  "is_valid_name name \<Longrightarrow> hd name \<noteq> CHR ''-'' \<and> last name \<noteq> CHR ''-''"
proof -
  assume v: "is_valid_name name"
  have ne: "name \<noteq> []" using is_valid_name_length [OF v] by auto
  have "\<not> starts_with ''-'' name" "\<not> ends_with ''-'' name"
    using v by (auto simp: is_valid_name_def Let_def split: if_splits)
  moreover have "starts_with ''-'' name" if "hd name = CHR ''-''"
    using ne that by (cases name) (auto simp: starts_with_def)
  moreover have "ends_with ''-'' name" if "last name = CHR ''-''"
    using ne that by (metis append_butlast_last_id ends_with_iff)
  ultimately show ?thesis by blast
qed

lemma name_char_no_dot: "\<not> name_char CHR ''.''"
  by (simp add: name_char_def less_eq_char_def)

lemma is_valid_name_no_dot: "is_valid_name name \<Longrightarrow> CHR ''.'' \<notin> set name"
  using is_valid_name_chars name_char_no_dot by blast

lemma normalize_email_shape:
  "normalize_email e = Inr e' \<Longrightarrow> CHR ''@'' \<in> set e' \<and> 3 \<le> length e' \<and> trim e' = e' \<and> to_lowercase e' = e'"
  by (auto simp: normalize_email_def Let_def trim_to_lowercase split: if_splits)

lemma normalize_email_idem: "normalize_email e = Inr e' \<Longrightarrow> normalize_email e' = Inr e'"
  using normalize_email_shape [of e e'] by (simp add: normalize_email_def Let_def)

lemma validate_acme_values_ok:
  "validate_acme_values vs = Inr () \<longleftrightarrow>
     1 \<le> length vs \<and> length vs \<le> 4 \<and> (\<forall>v \<in> set vs. length v \<le> 255)"
  by (auto simp: validate_acme_values_def MAX_ACME_VALUES_def MAX_ACME_VALUE_LEN_def
      find_None_exists sql_exists_iff Suc_le_eq not_le split: option.splits dest!: find_Some_D)

lemma octet_bound: "unat (a :: u8) < 256"
  using unsigned_less [of a] by simp

lemma ipv4_high:
  "ipv4_value (a, b, c, d) div 2 ^ (24 + j) = unat a div 2 ^ j"
proof -
  have "ipv4_value (a, b, c, d) div 2 ^ 24 = unat a"
    using octet_bound [of b] octet_bound [of c] octet_bound [of d] by (simp add: ipv4_value_def)
  then show ?thesis by (simp only: power_add div_mult2_eq)
qed

lemma ipv4_mid:
  "ipv4_value (a, b, c, d) div 2 ^ (16 + j) = (unat a * 256 + unat b) div 2 ^ j"
proof -
  have "ipv4_value (a, b, c, d) div 2 ^ 16 = unat a * 256 + unat b"
    using octet_bound [of c] octet_bound [of d] by (simp add: ipv4_value_def)
  then show ?thesis by (simp only: power_add div_mult2_eq)
qed

lemma ipv4_low:
  "ipv4_value (a, b, c, d) div 2 ^ (8 + j) = (unat a * 65536 + unat b * 256 + unat c) div 2 ^ j"
proof -
  have "ipv4_value (a, b, c, d) div 2 ^ 8 = unat a * 65536 + unat b * 256 + unat c"
    using octet_bound [of d] by (simp add: ipv4_value_def)
  then show ?thesis by (simp only: power_add div_mult2_eq)
qed

lemmas ipv4_prefix =
  ipv4_high [where j = 0, simplified] ipv4_high [where j = 4, simplified]
  ipv4_mid [where j = 0, simplified] ipv4_mid [where j = 4, simplified]
  ipv4_mid [where j = 6, simplified] ipv4_low [where j = 0, simplified]

lemma C0_bits: "bit (0xC0 :: u8) n \<longleftrightarrow> n = 6 \<or> n = 7"
proof -
  have e: "(0xC0 :: u8) = push_bit 6 (mask 2)" by (simp add: mask_eq_exp_minus_1)
  have "bit (push_bit 6 (mask 2) :: u8) n \<longleftrightarrow> n = 6 \<or> n = 7"
    by (simp only: bit_push_bit_iff bit_mask_iff possible_bit_word) auto
  then show ?thesis by (simp only: e)
qed
lemma b64_bits: "bit (64 :: u8) n \<longleftrightarrow> n = 6"
proof -
  have e: "(64 :: u8) = push_bit 6 1" by simp
  have "bit (push_bit 6 1 :: u8) n \<longleftrightarrow> n = 6"
    by (simp only: bit_push_bit_iff bit_1_iff possible_bit_word) auto
  then show ?thesis by (simp only: e)
qed
lemma and_C0_bits: "(b :: u8) AND 0xC0 = 64 \<longleftrightarrow> bit b 6 \<and> \<not> bit b 7"
proof
  assume "b AND 0xC0 = 64"
  then have "bit (b AND 0xC0) n = bit (64 :: u8) n" for n by simp
  from this [of 6] this [of 7] show "bit b 6 \<and> \<not> bit b 7" by (simp only: bit_and_iff C0_bits b64_bits) simp
next
  assume "bit b 6 \<and> \<not> bit b 7"
  then show "b AND 0xC0 = 64"
    by (intro bit_word_eqI) (simp only: bit_and_iff C0_bits b64_bits, auto)
qed
lemma and_C0_iff: "(b :: u8) AND 0xC0 = 64 \<longleftrightarrow> unat b div 64 = 1"
proof -
  have b: "bit (unat b) n = bit b n" for n by (simp add: bit_unsigned_iff) 
  have 6: "bit b 6 \<longleftrightarrow> odd (unat b div 64)" using b [of 6] by (simp add: bit_iff_odd)
  have 7: "bit b 7 \<longleftrightarrow> odd (unat b div 64 div 2)"
    using b [of 7] by (simp add: bit_iff_odd div_mult2_eq [symmetric])
  have "unat b div 64 < 4" using octet_bound [of b] by simp
  then have "unat b div 64 \<in> {0, 1, 2, 3}" by auto
  then show ?thesis unfolding and_C0_bits 6 7 by fastforce
qed
lemma octets_eq:
  "b < m \<Longrightarrow> b' < m \<Longrightarrow> a * m + b = a' * m + b' \<longleftrightarrow> a = a' \<and> b = (b' :: nat)"
proof
  assume l: "b < m" "b' < m" and e: "a * m + b = a' * m + b'"
  have "(a * m + b) div m = a" "(a' * m + b') div m = a'" using l by simp_all
  with e show "a = a' \<and> b = b'" by auto
qed auto

lemma in_cidr_8: "in_cidr (a, b, c, d) ((x, 0, 0, 0), 8) \<longleftrightarrow> a = x"
  by (simp add: in_cidr_def ipv4_prefix word_unat_eq_iff)

lemma in_cidr_4: "in_cidr (a, b, c, d) ((x, 0, 0, 0), 4) \<longleftrightarrow> unat a div 16 = unat x div 16"
  by (simp add: in_cidr_def ipv4_prefix)

lemma in_cidr_16: "in_cidr (a, b, c, d) ((x, y, 0, 0), 16) \<longleftrightarrow> a = x \<and> b = y"
  by (simp add: in_cidr_def ipv4_prefix octets_eq octet_bound word_unat_eq_iff)

lemma in_cidr_24: "in_cidr (a, b, c, d) ((x, y, z, 0), 24) \<longleftrightarrow> a = x \<and> b = y \<and> c = z"
proof -
  have "unat a * 65536 + unat b * 256 + unat c = (unat a * 256 + unat b) * 256 + unat c"
    for a b c :: u8 by simp
  then show ?thesis
    by (simp add: in_cidr_def ipv4_prefix octets_eq octet_bound word_unat_eq_iff del: distrib_right_numeral)
qed

lemma in_cidr_32: "in_cidr x (y, 32) \<longleftrightarrow> x = y"
proof
  obtain a b c d where x: "x = (a, b, c, d)" by (cases x) auto
  obtain a' b' c' d' where y: "y = (a', b', c', d')" by (cases y) auto
  assume "in_cidr x (y, 32)"
  then have "((unat a * 256 + unat b) * 256 + unat c) * 256 + unat d =
      ((unat a' * 256 + unat b') * 256 + unat c') * 256 + unat d'"
    by (simp add: in_cidr_def x y ipv4_value_def)
  then show "x = y" by (simp add: x y octets_eq octet_bound word_unat_eq_iff del: distrib_right_numeral)
qed (simp add: in_cidr_def)

lemma in_cidr_12: "in_cidr (a, b, c, d) ((x, y, 0, 0), 12) \<longleftrightarrow> a = x \<and> unat b div 16 = unat y div 16"
proof -
  have "(unat a * 256 + unat b) div 16 = unat a * 16 + unat b div 16" for a b :: u8 by simp
  moreover have "unat b div 16 < 16" for b :: u8 using octet_bound [of b] by simp
  ultimately show ?thesis
    by (simp add: in_cidr_def ipv4_prefix octets_eq word_unat_eq_iff)
qed
lemma in_cidr_10: "in_cidr (a, b, c, d) ((x, y, 0, 0), 10) \<longleftrightarrow> a = x \<and> unat b div 64 = unat y div 64"
proof -
  have "(unat a * 256 + unat b) div 64 = unat a * 4 + unat b div 64" for a b :: u8 by simp
  moreover have "unat b div 64 < 4" for b :: u8 using octet_bound [of b] by simp
  ultimately show ?thesis
    by (simp add: in_cidr_def ipv4_prefix octets_eq word_unat_eq_iff)
qed

lemmas in_cidr_simps = in_cidr_4 in_cidr_8 in_cidr_10 in_cidr_12 in_cidr_16 in_cidr_24 in_cidr_32

lemma nibble_14: "unat (a :: u8) div 16 = 14 \<longleftrightarrow> 224 \<le> a \<and> a \<le> 239"
  using octet_bound [of a] by (auto simp: word_le_nat_alt)

lemma nibble_15: "unat (a :: u8) div 16 = 15 \<longleftrightarrow> 240 \<le> a"
  using octet_bound [of a] by (auto simp: word_le_nat_alt)

lemma nibble_1: "unat (a :: u8) div 16 = Suc 0 \<longleftrightarrow> 16 \<le> a \<and> a \<le> 31"
  by (auto simp: word_le_nat_alt)

section \<open>Properties\<close>

text \<open>The address gate of the IP report rejects exactly the addresses of the listed CIDR blocks: the
  octet tests of the code coincide with prefix membership on the 32-bit address, for every address.\<close>

theorem is_reserved_ipv4_cidr: "is_reserved_ipv4 addr \<longleftrightarrow> list_ex (in_cidr addr) RESERVED_CIDRS"
proof -
  obtain a b c d where "addr = (a, b, c, d)" by (cases addr) auto
  then show ?thesis
    by (simp add: is_reserved_ipv4_def RESERVED_CIDRS_def in_cidr_simps nibble_14 nibble_15 nibble_1
        and_C0_iff disj_ac conj_ac)
qed
end
