(* ===== verification/Ddns_Props.thy ===== *)
theory Ddns_Props
  imports Ddns
begin

text \<open>
  What the regional DNS service guarantees over a provider that keeps \<open>zone_ok\<close>: the effect of each
  operation on the table and on the records of the zone, errors included, and the safety of the
  adopt-or-create claim when several replicas run it at once.
\<close>

section \<open>What a provider promises\<close>

type_synonym 'z contents = "'z \<Rightarrow> string \<Rightarrow> dns_record_body option"

definition upsert_ok ::
  "'z contents \<Rightarrow> dns_record_body \<Rightarrow> string option \<Rightarrow> (string + string) \<Rightarrow> 'z \<Rightarrow> 'z \<Rightarrow> bool" where
  "upsert_ok recs body existing r z z' =
     (case existing of
        Some i \<Rightarrow> (\<forall>k. k \<noteq> i \<longrightarrow> recs z' k = recs z k) \<and>
          (recs z i = None \<longrightarrow> recs z' i = None) \<and> recs z' i \<in> {recs z i, Some body} \<and>
          (\<forall>j. r = Inr j \<longrightarrow> j = i \<and> recs z' i = Some body)
      | None \<Rightarrow> (\<forall>k. recs z k \<noteq> None \<longrightarrow> recs z' k = recs z k) \<and>
          (\<forall>k. recs z k = None \<longrightarrow> recs z' k \<in> {None, Some body}) \<and>
          (\<forall>j. r = Inr j \<longrightarrow> recs z j = None \<and> recs z' j = Some body))"

definition delete_ok :: "'z contents \<Rightarrow> string \<Rightarrow> (string + unit) \<Rightarrow> 'z \<Rightarrow> 'z \<Rightarrow> bool" where
  "delete_ok recs i r z z' =
     ((\<forall>k. k \<noteq> i \<longrightarrow> recs z' k = recs z k) \<and> recs z' i \<in> {recs z i, None} \<and>
      (r = Inr () \<longrightarrow> recs z' i = None))"

definition find_ok :: "'z contents \<Rightarrow> string \<Rightarrow> (string + string option) \<Rightarrow> 'z \<Rightarrow> 'z \<Rightarrow> bool" where
  "find_ok recs fqdn r z z' =
     (recs z' = recs z \<and>
      (\<forall>i. r = Inr (Some i) \<longrightarrow> (\<exists>b. recs z i = Some b \<and> rb_type b = ''A'' \<and> rb_name b = fqdn)))"

definition zone_ok :: "'z dns_provider \<Rightarrow> 'z contents \<Rightarrow> bool" where
  "zone_ok dns recs =
     ((\<forall>fqdn ip e z. upsert_ok recs (a_body fqdn ip) e (fst (upsert_a_record dns fqdn ip e z)) z
         (snd (upsert_a_record dns fqdn ip e z))) \<and>
      (\<forall>fqdn v e z. upsert_ok recs (txt_body fqdn v) e (fst (upsert_txt_record dns fqdn v e z)) z
         (snd (upsert_txt_record dns fqdn v e z))) \<and>
      (\<forall>i z. delete_ok recs i (fst (delete_record dns i z)) z (snd (delete_record dns i z))) \<and>
      (\<forall>fqdn z. find_ok recs fqdn (fst (find_a_record dns fqdn z)) z (snd (find_a_record dns fqdn z))))"

lemma zone_ok_a: "zone_ok dns recs \<Longrightarrow> upsert_a_record dns fqdn ip e z = (r, z') \<Longrightarrow> upsert_ok recs (a_body fqdn ip) e r z z'"
  unfolding zone_ok_def by (metis fst_conv snd_conv)

lemma zone_ok_txt: "zone_ok dns recs \<Longrightarrow> upsert_txt_record dns fqdn v e z = (r, z') \<Longrightarrow> upsert_ok recs (txt_body fqdn v) e r z z'"
  unfolding zone_ok_def by (metis fst_conv snd_conv)

lemma zone_ok_delete: "zone_ok dns recs \<Longrightarrow> delete_record dns i z = (r, z') \<Longrightarrow> delete_ok recs i r z z'"
  unfolding zone_ok_def by (metis fst_conv snd_conv)

lemma zone_ok_find: "zone_ok dns recs \<Longrightarrow> find_a_record dns fqdn z = (r, z') \<Longrightarrow> find_ok recs fqdn r z z'"
  unfolding zone_ok_def by (metis fst_conv snd_conv)

section \<open>The table\<close>

definition ops_wf :: "operational list \<Rightarrow> bool" where
  "ops_wf t = distinct (map o_network_id t)"

lemma record_ip_wf: "ops_wf t \<Longrightarrow> ops_wf (record_ip nid ip now t)"
  by (auto simp: ops_wf_def record_ip_def map_key_update sql_exists_iff)

lemma claim_wf: "ops_wf t \<Longrightarrow> ops_wf (snd (claim_a_record nid fqdn i now t))"
  by (simp add: ops_wf_def claim_a_record_def map_key_update)

lemma cas_wf: "ops_wf t \<Longrightarrow> ops_wf (snd (cas_acme_records nid e n now t))"
  by (auto simp: ops_wf_def cas_acme_records_def map_key_update sql_exists_iff)

lemma op_delete_wf: "ops_wf t \<Longrightarrow> ops_wf (op_delete nid t)"
  by (simp add: ops_wf_def op_delete_def distinct_key_delete)

lemma op_find_None: "op_find_by_id nid t = None \<longleftrightarrow> \<not> sql_exists (\<lambda>r. o_network_id r = nid) t"
  by (simp add: op_find_by_id_def find_None_exists)

lemma op_find_Some: "op_find_by_id nid t = Some r \<Longrightarrow> o_network_id r = nid \<and> r \<in> set t"
  by (auto simp: op_find_by_id_def dest: find_Some_D)

lemma op_find_unique: "ops_wf t \<Longrightarrow> r \<in> set t \<Longrightarrow> o_network_id r = nid \<Longrightarrow> op_find_by_id nid t = Some r"
  by (auto simp: ops_wf_def op_find_by_id_def intro: distinct_key_find)

lemma op_find_update:
  "(\<And>r. o_network_id (f r) = o_network_id r) \<Longrightarrow>
   op_find_by_id nid (sql_update p f t) = map_option (\<lambda>r. if p r then f r else r) (op_find_by_id nid t)"
  unfolding op_find_by_id_def by (rule find_sql_update_keep) simp

lemma op_find_append:
  "op_find_by_id nid (t @ [r]) =
    (case op_find_by_id nid t of None \<Rightarrow> if o_network_id r = nid then Some r else None | Some x \<Rightarrow> Some x)"
  by (simp add: op_find_by_id_def find_append split: option.split)

lemma op_find_record_ip:
  "op_find_by_id nid (record_ip nid' ip now t) =
    (if nid = nid' then Some (case op_find_by_id nid t of
        Some r \<Rightarrow> r\<lparr>o_ip := Some ip, o_updated_at := now\<rparr>
      | None \<Rightarrow> \<lparr>o_network_id = nid, o_ip = Some ip, o_fqdn = None, o_cf_a_record_id = None,
                  o_cf_acme_record_ids = [], o_updated_at = now\<rparr>)
     else op_find_by_id nid t)"
proof (cases "sql_exists (\<lambda>r. o_network_id r = nid') t")
  case True
  then have "op_find_by_id nid' t \<noteq> None" by (simp add: op_find_None)
  with True show ?thesis
    by (auto simp: record_ip_def op_find_update split: option.splits dest: op_find_Some
        intro!: option.map_ident_strong)
next
  case False
  then have n: "op_find_by_id nid' t = None" by (simp add: op_find_None)
  from False have "record_ip nid' ip now t = t @ [\<lparr>o_network_id = nid', o_ip = Some ip, o_fqdn = None,
      o_cf_a_record_id = None, o_cf_acme_record_ids = [], o_updated_at = now\<rparr>]"
    by (simp add: record_ip_def)
  with n show ?thesis by (auto simp: op_find_append split: option.split)
qed

lemma op_find_claim:
  "op_find_by_id nid (snd (claim_a_record nid' fqdn i now t)) =
    map_option (\<lambda>r. if nid = nid' \<and> o_cf_a_record_id r = None
      then r\<lparr>o_fqdn := Some fqdn, o_cf_a_record_id := Some i, o_updated_at := now\<rparr> else r) (op_find_by_id nid t)"
  by (auto simp: claim_a_record_def op_find_update dest: op_find_Some intro!: map_option_cong)

lemma claim_wins:
  assumes "ops_wf t"
  shows "fst (claim_a_record nid fqdn i now t) \<longleftrightarrow> (\<exists>r. op_find_by_id nid t = Some r \<and> o_cf_a_record_id r = None)"
  using assms by (auto simp: claim_a_record_def sql_exists_iff dest: op_find_Some op_find_unique)

lemma cas_matches:
  assumes "ops_wf t"
  shows "fst (cas_acme_records nid e n now t) \<longleftrightarrow> current_acme_ids nid t = e"
proof (cases "op_find_by_id nid t")
  case None
  then have "\<not> sql_exists (\<lambda>r. o_network_id r = nid) t" by (simp add: op_find_None)
  then show ?thesis using None by (auto simp: cas_acme_records_def current_acme_ids_def sql_exists_iff)
next
  case (Some r)
  have "r' \<in> set t \<Longrightarrow> o_network_id r' = nid \<Longrightarrow> r' = r" for r'
    using op_find_unique [OF assms] Some by auto
  with Some op_find_Some [OF Some] show ?thesis
    by (auto simp: cas_acme_records_def current_acme_ids_def sql_exists_iff)
qed

lemma op_find_cas:
  "op_find_by_id nid' (snd (cas_acme_records nid e n now t)) =
    (if nid' \<noteq> nid then op_find_by_id nid' t
     else case op_find_by_id nid t of
        None \<Rightarrow> if e = [] then Some \<lparr>o_network_id = nid, o_ip = None, o_fqdn = None, o_cf_a_record_id = None,
                         o_cf_acme_record_ids = n, o_updated_at = now\<rparr> else None
      | Some r \<Rightarrow> Some (if o_cf_acme_record_ids r = e then r\<lparr>o_cf_acme_record_ids := n, o_updated_at := now\<rparr> else r))"
proof (cases "e = [] \<and> op_find_by_id nid t = None")
  case True
  then have "\<not> sql_exists (\<lambda>r. o_network_id r = nid) t" by (simp add: op_find_None)
  then have "snd (cas_acme_records nid e n now t) = t @ [\<lparr>o_network_id = nid, o_ip = None, o_fqdn = None,
      o_cf_a_record_id = None, o_cf_acme_record_ids = n, o_updated_at = now\<rparr>]"
    using True by (simp add: cas_acme_records_def)
  with True show ?thesis by (auto simp: op_find_append split: option.split)
next
  case False
  then have "snd (cas_acme_records nid e n now t) =
      sql_update (\<lambda>r. o_network_id r = nid \<and> o_cf_acme_record_ids r = e)
        (\<lambda>r. r\<lparr>o_cf_acme_record_ids := n, o_updated_at := now\<rparr>) t"
    by (auto simp: cas_acme_records_def op_find_None)
  with False show ?thesis
    by (auto simp: op_find_update split: option.splits dest: op_find_Some intro!: option.map_ident_strong)
qed

lemma cas_current:
  "fst (cas_acme_records nid e n now t) \<Longrightarrow> ops_wf t \<Longrightarrow>
    current_acme_ids nid (snd (cas_acme_records nid e n now t)) = n"
  using cas_matches [of t nid e n now]
  by (auto simp: current_acme_ids_def op_find_cas split: option.splits if_splits)

text \<open>Of two writers that read the same stored set, at most one replaces it with a different one.\<close>

lemma cas_exclusive:
  assumes "ops_wf t" and "fst (cas_acme_records nid e n now t)" and "n \<noteq> e"
  shows "\<not> fst (cas_acme_records nid e m now' (snd (cas_acme_records nid e n now t)))"
  using cas_current [OF assms(2,1)] cas_matches [OF cas_wf [OF assms(1)]] assms(3) by simp

section \<open>The zone\<close>

lemma delete_ok_at:
  assumes "delete_ok recs i r z z'"
  shows "recs z' k \<in> {recs z k, None} \<and> (k \<noteq> i \<longrightarrow> recs z' k = recs z k) \<and> (r = Inr () \<longrightarrow> recs z' i = None)"
  using assms by (cases "k = i") (auto simp: delete_ok_def)

lemma delete_records_or_err_zone:
  assumes "zone_ok dns recs" and "delete_records_or_err dns is z = (r, z')"
  shows "recs z' k \<in> {recs z k, None} \<and> (k \<notin> set is \<longrightarrow> recs z' k = recs z k) \<and>
    (r = Inr () \<and> k \<in> set is \<longrightarrow> recs z' k = None)"
  using assms(2)
proof (induction "is" arbitrary: z)
  case (Cons i "is")
  obtain r1 z1 where d: "delete_record dns i z = (r1, z1)" by fastforce
  note d' = delete_ok_at [OF zone_ok_delete [OF assms(1) d], of k]
  show ?case
  proof (cases r1)
    case (Inl e)
    with Cons.prems d d' show ?thesis by auto
  next
    case (Inr u)
    with Cons.prems d have "delete_records_or_err dns is z1 = (r, z')" by simp
    from Cons.IH [OF this] d' Inr show ?thesis by auto
  qed
qed simp

lemma cleanup_created_zone:
  assumes "zone_ok dns recs"
  shows "recs (cleanup_created dns is z) k \<in> {recs z k, None} \<and>
    (k \<notin> set is \<longrightarrow> recs (cleanup_created dns is z) k = recs z k)"
proof (induction "is" arbitrary: z)
  case (Cons i "is")
  obtain r1 z1 where d: "delete_record dns i z = (r1, z1)" by fastforce
  from delete_ok_at [OF zone_ok_delete [OF assms d], of k] Cons.IH [of z1] d show ?case by auto
qed simp

lemma create_txts_zone:
  assumes "zone_ok dns recs" and "create_txts dns fqdn vs ids z = ((r, ids'), z')"
  shows "(\<forall>k. recs z k \<noteq> None \<longrightarrow> recs z' k = recs z k) \<and>
    (\<forall>k. recs z k = None \<longrightarrow> recs z' k \<in> insert None (Some ` txt_body fqdn ` set vs)) \<and>
    (r = None \<longrightarrow> (\<exists>new. ids' = ids @ new \<and> distinct new \<and> (\<forall>k \<in> set new. recs z k = None) \<and>
       map (recs z') new = map (Some \<circ> txt_body fqdn) vs))"
  using assms(2)
proof (induction vs arbitrary: ids z)
  case (Cons v vs)
  obtain r1 z1 where u: "upsert_txt_record dns fqdn v None z = (r1, z1)" by fastforce
  from zone_ok_txt [OF assms(1) u] have u': "upsert_ok recs (txt_body fqdn v) None r1 z z1" .
  show ?case
  proof (cases r1)
    case (Inl e)
    with Cons.prems u have e: "z' = z1" "r = Some e" by auto
    have n: "recs z k = None \<Longrightarrow> recs z' k \<in> {None, Some (txt_body fqdn v)}" for k
      using u' by (simp add: upsert_ok_def e)
    have "recs z k = None \<Longrightarrow> recs z' k \<in> insert None (Some ` txt_body fqdn ` set (v # vs))" for k
      using n [of k] by auto
    with u' show ?thesis by (simp add: upsert_ok_def e)
  next
    case (Inr i)
    with Cons.prems u have c: "create_txts dns fqdn vs (ids @ [i]) z1 = ((r, ids'), z')" by simp
    note ih = Cons.IH [OF c]
    have i: "recs z i = None" "recs z1 i = Some (txt_body fqdn v)" using u' Inr by (auto simp: upsert_ok_def)
    have old: "recs z k \<noteq> None \<Longrightarrow> recs z1 k = recs z k" and new: "recs z k = None \<Longrightarrow> recs z1 k \<in> {None, Some (txt_body fqdn v)}" for k
      using u' by (auto simp: upsert_ok_def)
    have "\<exists>new. ids' = ids @ new \<and> distinct new \<and> (\<forall>k \<in> set new. recs z k = None) \<and>
       map (recs z') new = map (Some \<circ> txt_body fqdn) (v # vs)" if "r = None"
    proof -
      from ih that obtain rest where rest: "ids' = (ids @ [i]) @ rest" "distinct rest" "\<forall>k \<in> set rest. recs z1 k = None"
        "map (recs z') rest = map (Some \<circ> txt_body fqdn) vs" by blast
      have "i \<notin> set rest" using rest(3) i(2) by auto
      moreover have "recs z' i = Some (txt_body fqdn v)" using ih i(2) by simp
      moreover have "k \<in> set rest \<Longrightarrow> recs z k = None" for k using rest(3) old [of k] by (cases "recs z k") auto
      ultimately show ?thesis using rest i(1) by (intro exI [of _ "i # rest"]) simp
    qed
    moreover have "recs z k \<noteq> None \<Longrightarrow> recs z' k = recs z k" for k using ih old [of k] by simp
    moreover have "recs z k = None \<Longrightarrow> recs z' k \<in> insert None (Some ` txt_body fqdn ` set (v # vs))" for k
    proof (cases "recs z1 k")
      case None
      then have "recs z' k \<in> insert None (Some ` txt_body fqdn ` set vs)" using ih by simp
      then show ?thesis by auto
    next
      case (Some b)
      then have "recs z' k = Some b" using ih by simp
      then show "recs z k = None \<Longrightarrow> ?thesis" using new [of k] Some by auto
    qed
    ultimately show ?thesis by blast
  qed
qed simp

section \<open>Properties of the operations\<close>

definition dns_fields :: "operational \<Rightarrow> string option \<times> string option \<times> string list" where
  "dns_fields r = (o_fqdn r, o_cf_a_record_id r, o_cf_acme_record_ids r)"

text \<open>Reporting an address never creates a DNS record and never touches a claim: the only record it may rewrite
  is the one stored for the network, the stored name and ids of every network stay as they are (a first
  report opens a row without any), and on success the address is stored and, where a record was
  published, that record carries it.\<close>

theorem report_ip_never_creates:
  assumes "zone_ok dns recs" and "report_ip dns now nid ip g = (r, g')"
  shows "(recs (zone g) k = None \<longrightarrow> recs (zone g') k = None) \<and>
    (op_find_by_id m (ops g) = None \<longrightarrow> op_find_by_id m (ops g') \<noteq> None \<longrightarrow> m = nid) \<and>
    map_option dns_fields (op_find_by_id m (ops g')) =
      (if op_find_by_id m (ops g) = None \<and> op_find_by_id m (ops g') \<noteq> None then Some (None, None, [])
       else map_option dns_fields (op_find_by_id m (ops g))) \<and>
    (r = Inr () \<longrightarrow> (\<exists>row. op_find_by_id nid (ops g') = Some row \<and> o_ip row = Some ip \<and>
       (\<forall>i f. o_cf_a_record_id row = Some i \<and> o_fqdn row = Some f \<longrightarrow> recs (zone g') i = Some (a_body f ip))))"
proof (cases "\<exists>op i f. op_find_by_id nid (ops g) = Some op \<and> o_cf_a_record_id op = Some i \<and> o_fqdn op = Some f")
  case False
  then have "r = Inr () \<and> g' = g\<lparr>ops := record_ip nid ip now (ops g)\<rparr>"
    using assms(2) by (auto simp: report_ip_def split: option.splits)
  with False show ?thesis by (auto simp: op_find_record_ip dns_fields_def split: option.splits)
next
  case True
  then obtain op i f where op: "op_find_by_id nid (ops g) = Some op" "o_cf_a_record_id op = Some i" "o_fqdn op = Some f"
    by blast
  obtain u z where u: "upsert_a_record dns f ip (Some i) (zone g) = (u, z)" by fastforce
  note z = zone_ok_a [OF assms(1) u]
  have k: "recs (zone g) k = None \<Longrightarrow> recs z k = None"
    using z by (cases "k = i") (auto simp: upsert_ok_def)
  show ?thesis
  proof (cases u)
    case (Inl e)
    then have "r = Inl (DInternal e) \<and> g' = g\<lparr>zone := z\<rparr>" using assms(2) op u by (simp add: report_ip_def)
    with k show ?thesis by auto
  next
    case (Inr j)
    then have "r = Inr () \<and> g' = g\<lparr>zone := z, ops := record_ip nid ip now (ops g)\<rparr>"
      using assms(2) op u by (simp add: report_ip_def)
    with k op z Inr show ?thesis by (auto simp: op_find_record_ip dns_fields_def upsert_ok_def)
  qed
qed

lemma provision_shape:
  assumes "zone_ok dns recs" and "provision dns now nid fqdn ip g = (r, g')"
  obtains (Failed) e z where "r = Inl (DInternal e)" and "g' = g\<lparr>zone := z\<rparr>"
      and "\<And>k. recs (zone g) k \<noteq> None \<Longrightarrow> recs z k \<in> {recs (zone g) k, Some (a_body fqdn ip)}"
  | (Upserted) i z where "r = Inr ()" and "recs z i = Some (a_body fqdn ip)"
      and "\<And>k. recs (zone g) k \<noteq> None \<Longrightarrow> recs z k \<in> {recs (zone g) k, Some (a_body fqdn ip)}"
      and "g' = (case claim_a_record nid fqdn i now (ops g) of
          (True, t) \<Rightarrow> g\<lparr>zone := z, ops := t\<rparr>
        | (False, t) \<Rightarrow> if Option.bind (op_find_by_id nid t) o_cf_a_record_id \<noteq> Some i
            then g\<lparr>zone := snd (delete_record dns i z), ops := t\<rparr> else g\<lparr>zone := z, ops := t\<rparr>)"
proof -
  obtain f z1 where f: "find_a_record dns fqdn (zone g) = (f, z1)" by fastforce
  have z1: "recs z1 = recs (zone g)" using zone_ok_find [OF assms(1) f] by (simp add: find_ok_def)
  show thesis
  proof (cases f)
    case (Inl e)
    with assms(2) f z1 show ?thesis by (intro Failed [of e z1]) (auto simp: provision_def)
  next
    case (Inr existing)
    obtain u z2 where u: "upsert_a_record dns fqdn ip existing z1 = (u, z2)" by fastforce
    note z2 = zone_ok_a [OF assms(1) u]
    have keep: "recs (zone g) k \<noteq> None \<Longrightarrow> recs z2 k \<in> {recs (zone g) k, Some (a_body fqdn ip)}" for k
      using z2 z1 by (cases "existing = Some k") (auto simp: upsert_ok_def split: option.splits)
    show ?thesis
    proof (cases u)
      case (Inl e)
      with assms(2) f Inr u keep show ?thesis by (intro Failed [of e z2]) (auto simp: provision_def)
    next
      case (Inr i)
      have "recs z2 i = Some (a_body fqdn ip)" using z2 Inr by (auto simp: upsert_ok_def split: option.splits)
      with assms(2) f \<open>f = Inr existing\<close> u Inr keep show ?thesis
        by (intro Upserted [of z2 i]) (auto simp: provision_def Let_def split: prod.splits bool.splits if_splits)
    qed
  qed
qed

text \<open>Publishing is a claim that is made once and kept. Where the network has a row without a record, success
  stores the name and the id of a live A record with the reported address. Where a record is already
  stored, the row stays as it is and the stored record stays in the zone: a replica that lost the claim
  never removes the winner's record. Rows of other networks never change.\<close>

theorem provision_claims:
  assumes "zone_ok dns recs" and "ops_wf (ops g)" and "provision dns now nid fqdn ip g = (r, g')"
    and "op_find_by_id nid (ops g) = Some row"
  shows "(m \<noteq> nid \<longrightarrow> op_find_by_id m (ops g') = op_find_by_id m (ops g)) \<and>
    (case o_cf_a_record_id row of
       Some i \<Rightarrow> op_find_by_id nid (ops g') = Some row \<and>
         (recs (zone g) i \<noteq> None \<longrightarrow> recs (zone g') i \<in> {recs (zone g) i, Some (a_body fqdn ip)})
     | None \<Rightarrow> r = Inr () \<longrightarrow> (\<exists>i. op_find_by_id nid (ops g') =
           Some (row\<lparr>o_fqdn := Some fqdn, o_cf_a_record_id := Some i, o_updated_at := now\<rparr>) \<and>
         recs (zone g') i = Some (a_body fqdn ip)))"
  using assms(1,3)
proof (cases rule: provision_shape)
  case (Failed e z)
  with assms(4) show ?thesis by (auto split: option.split)
next
  case (Upserted i z)
  show ?thesis
  proof (cases "o_cf_a_record_id row")
    case None
    then have "fst (claim_a_record nid fqdn i now (ops g))" using claim_wins [OF assms(2)] assms(4) by simp
    then have "g' = g\<lparr>zone := z, ops := snd (claim_a_record nid fqdn i now (ops g))\<rparr>"
      using Upserted(4) by (auto split: prod.splits)
    with None Upserted(2) assms(4) show ?thesis by (auto simp: op_find_claim option.map_ident intro!: exI [of _ i])
  next
    case (Some j)
    then have "\<not> fst (claim_a_record nid fqdn i now (ops g))" using claim_wins [OF assms(2)] assms(4) by simp
    then obtain t where t: "claim_a_record nid fqdn i now (ops g) = (False, t)" by (metis prod.collapse)
    have rows: "op_find_by_id m t = op_find_by_id m (ops g)" for m
      using op_find_claim [of m nid fqdn i now "ops g"] t assms(4) Some
      by (cases "m = nid") (auto simp: option.map_ident)
    have "g' = g\<lparr>zone := if j \<noteq> i then snd (delete_record dns i z) else z, ops := t\<rparr>"
      using Upserted(4) t rows [of nid] Some assms(4) by auto
    moreover obtain d z' where d: "delete_record dns i z = (d, z')" by fastforce
    moreover have "recs (zone g) j \<noteq> None \<Longrightarrow> j \<noteq> i \<Longrightarrow> recs z' j \<in> {recs (zone g) j, Some (a_body fqdn ip)}"
      using Upserted(3) [of j] delete_ok_at [OF zone_ok_delete [OF assms(1) d], of j] by auto
    ultimately show ?thesis using Some rows assms(4) Upserted(3) [of j] by auto
  qed
qed

text \<open>Teardown. When it succeeds the network's row is gone and so is every record the row named; when the provider
  fails the table is exactly as before, so that the next tick repeats the teardown. It never creates a
  record and never touches a record the row did not name.\<close>

theorem delete_records_complete:
  assumes "zone_ok dns recs" and "delete_records dns nid g = (r, g')"
    and "op_find_by_id nid (ops g) = Some row"
  shows "(case r of
      Inr _ \<Rightarrow> op_find_by_id nid (ops g') = None \<and>
        (\<forall>i \<in> set_option (o_cf_a_record_id row) \<union> set (o_cf_acme_record_ids row). recs (zone g') i = None)
    | Inl _ \<Rightarrow> ops g' = ops g) \<and>
    (m \<noteq> nid \<longrightarrow> op_find_by_id m (ops g') = op_find_by_id m (ops g)) \<and>
    recs (zone g') k \<in> {recs (zone g) k, None} \<and>
    (k \<notin> set_option (o_cf_a_record_id row) \<union> set (o_cf_acme_record_ids row) \<longrightarrow> recs (zone g') k = recs (zone g) k)"
proof -
  let ?is = "(case o_cf_a_record_id row of None \<Rightarrow> [] | Some i \<Rightarrow> [i]) @ o_cf_acme_record_ids row"
  have s: "set ?is = set_option (o_cf_a_record_id row) \<union> set (o_cf_acme_record_ids row)"
    by (auto split: option.splits)
  obtain u z where u: "delete_records_or_err dns ?is (zone g) = (u, z)" by fastforce
  note del = delete_records_or_err_zone [OF assms(1) u]
  have gone: "op_find_by_id nid (op_delete nid t) = None" for t
    by (auto simp: op_find_None op_delete_def sql_exists_iff)
  have other: "m \<noteq> nid \<Longrightarrow> op_find_by_id m (op_delete nid t) = op_find_by_id m t" for t
    by (auto simp: op_find_by_id_def op_delete_def intro!: find_sql_delete_other)
  show ?thesis
  proof (cases u)
    case (Inl e)
    then have "r = Inl (DInternal e) \<and> g' = g\<lparr>zone := z\<rparr>" using assms(2,3) u by (simp add: delete_records_def)
    then show ?thesis using del [of k] unfolding s by simp
  next
    case (Inr v)
    then have "r = Inr () \<and> g' = g\<lparr>zone := z, ops := op_delete nid (ops g)\<rparr>"
      using assms(2,3) u by (simp add: delete_records_def)
    moreover have "i \<in> set ?is \<Longrightarrow> recs z i = None" for i using del [of i] Inr by simp
    ultimately show ?thesis using del [of k] gone other unfolding s by simp
  qed
qed

text \<open>A challenge update that succeeds leaves exactly one live TXT record per value, in order, under ids that are
  stored for the network, and none of the records stored before. When it fails, what is stored are the
  old ids (a record could not be removed) or none (a record could not be created), never an id of a
  record of the failed attempt. Run alone it never reports a conflict.\<close>

theorem set_acme_challenge_spec:
  assumes "zone_ok dns recs" and "ops_wf (ops g)" and "set_acme_challenge dns now nid fqdn values g = (r, g')"
  shows "(case r of
      Inr _ \<Rightarrow> map (recs (zone g')) (current_acme_ids nid (ops g')) = map (Some \<circ> txt_body fqdn) values \<and>
        distinct (current_acme_ids nid (ops g')) \<and>
        (\<forall>i \<in> set (current_acme_ids nid (ops g)). i \<notin> set (current_acme_ids nid (ops g')) \<longrightarrow>
           recs (zone g') i \<in> insert None (Some ` txt_body fqdn ` set values))
    | Inl e \<Rightarrow> (\<exists>m. e = DInternal m) \<and> current_acme_ids nid (ops g') \<in> {current_acme_ids nid (ops g), []})"
proof -
  let ?prior = "current_acme_ids nid (ops g)"
  obtain d z1 where d: "delete_records_or_err dns ?prior (zone g) = (d, z1)" by fastforce
  note del = delete_records_or_err_zone [OF assms(1) d]
  obtain e ids z2 where c: "create_txts dns fqdn values [] z1 = ((e, ids), z2)" by (metis prod.collapse)
  note cr = create_txts_zone [OF assms(1) c]
  have cas: "fst (cas_acme_records nid ?prior n now (ops g))" for n by (simp add: cas_matches [OF assms(2)])
  then have cur: "current_acme_ids nid (snd (cas_acme_records nid ?prior n now (ops g))) = n" for n
    by (rule cas_current [OF _ assms(2)])
  consider (del) m where "d = Inl m" | (create) m where "d = Inr ()" "e = Some m" | (ok) "d = Inr ()" "e = None"
    by (cases d; cases e) auto
  then show ?thesis
  proof cases
    case del
    then show ?thesis using assms(3) d by (auto simp: set_acme_challenge_def Let_def)
  next
    case create
    then have "r = Inl (DInternal m) \<and> ops g' = snd (cas_acme_records nid ?prior [] now (ops g))"
      using assms(3) d c by (auto simp: set_acme_challenge_def Let_def)
    then show ?thesis using cur by simp
  next
    case ok
    then have g: "r = Inr () \<and> zone g' = z2 \<and> ops g' = snd (cas_acme_records nid ?prior ids now (ops g))"
      using assms(3) d c cas [of ids]
      by (auto simp: set_acme_challenge_def Let_def cas_or_conflict_def split: prod.splits)
    have "i \<in> set ?prior \<Longrightarrow> recs z1 i = None" for i using del [of i] ok by simp
    then show ?thesis using g cr ok cur by simp
  qed
qed

section \<open>The handlers\<close>

datatype ddns_cmd = ReportIp string | SetAcme "string list" | DeleteAcme

fun ddns_exec :: "'z dns_provider \<Rightarrow> instant \<Rightarrow> caller \<Rightarrow> ddns_cmd \<Rightarrow> 'z region \<Rightarrow> (api_error + nat) \<times> 'z region" where
  "ddns_exec dns now caller (ReportIp ip) g = api_report_ip dns now caller ip g"
| "ddns_exec dns now caller (SetAcme values) g = api_set_acme_challenge dns now caller values g"
| "ddns_exec dns now caller DeleteAcme g = api_delete_acme_challenge dns now caller g"

lemma from_ddns_snd [simp]: "snd (from_ddns p) = snd p"
  by (auto simp: from_ddns_def split: prod.splits sum.splits)

lemma report_ip_rows: "m \<noteq> nid \<Longrightarrow> op_find_by_id m (ops (snd (report_ip dns now nid ip g))) = op_find_by_id m (ops g)"
  by (auto simp: report_ip_def op_find_record_ip split: option.splits prod.splits sum.splits)

lemma cas_or_conflict_rows:
  "m \<noteq> nid \<Longrightarrow> op_find_by_id m (ops (snd (cas_or_conflict now nid prior n g))) = op_find_by_id m (ops g)"
  using op_find_cas [of m nid prior n now "ops g"] by (auto simp: cas_or_conflict_def split: prod.splits bool.splits)

lemma set_acme_rows:
  "m \<noteq> nid \<Longrightarrow> op_find_by_id m (ops (snd (set_acme_challenge dns now nid f vs g))) = op_find_by_id m (ops g)"
  by (auto simp: set_acme_challenge_def Let_def op_find_cas cas_or_conflict_rows split: prod.splits sum.splits option.splits)

lemma clear_acme_rows:
  "m \<noteq> nid \<Longrightarrow> op_find_by_id m (ops (snd (clear_acme_challenge dns now nid g))) = op_find_by_id m (ops g)"
  by (auto simp: clear_acme_challenge_def Let_def cas_or_conflict_rows split: prod.splits sum.splits)

text \<open>Daemons are confined to the network of their token: whatever a daemon sends to the DNS plane, the rows of other
  networks stay as they are; a caller without a network-scoped daemon token changes nothing at all; and
  an address that does not parse or is not public changes nothing.\<close>

theorem ddns_confined:
  "(\<forall>m. network_of caller \<noteq> Inr m \<longrightarrow>
      op_find_by_id m (ops (snd (ddns_exec dns now caller cmd g))) = op_find_by_id m (ops g)) \<and>
   (\<forall>e. network_of caller = Inl e \<longrightarrow> ddns_exec dns now caller cmd g = (Inl e, g)) \<and>
   (\<forall>ip. cmd = ReportIp ip \<and> \<not> (\<exists>addr. parse_ipv4 ip = Some addr \<and> \<not> is_reserved_ipv4 addr) \<longrightarrow>
      snd (ddns_exec dns now caller cmd g) = g)"
proof (cases "network_of caller")
  case (Inl e)
  then show ?thesis
    by (cases cmd) (simp_all add: api_report_ip_def api_set_acme_challenge_def api_delete_acme_challenge_def)
next
  case (Inr nid)
  have "op_find_by_id m (ops (snd (ddns_exec dns now caller cmd g))) = op_find_by_id m (ops g)" if "m \<noteq> nid" for m
    using that Inr
    by (cases cmd) (auto simp: api_report_ip_def api_set_acme_challenge_def api_delete_acme_challenge_def report_ip_rows
        set_acme_rows clear_acme_rows split: option.split sum.split)
  then show ?thesis using Inr by (auto simp: api_report_ip_def split: option.split)
qed

section \<open>Several replicas at once\<close>

text \<open>
  The steps of one \<open>provision\<close> call between its awaits, with the step that is next: the lookup, the write,
  the claim, and for a loser the removal of its own record. Any number of replicas run them interleaved
  over one table and one zone; reports of addresses may come in between.
\<close>

datatype provision_pc = Idle | Found "string option" | Upserted string | Lost string

definition find_step :: "'z dns_provider \<Rightarrow> string \<Rightarrow> 'z region \<Rightarrow> provision_pc \<times> 'z region" where
  "find_step dns fqdn g =
     (case find_a_record dns fqdn (zone g) of
        (Inl e, z) \<Rightarrow> (Idle, g\<lparr>zone := z\<rparr>) | (Inr existing, z) \<Rightarrow> (Found existing, g\<lparr>zone := z\<rparr>))"

definition upsert_step :: "'z dns_provider \<Rightarrow> string \<Rightarrow> string \<Rightarrow> string option \<Rightarrow> 'z region \<Rightarrow> provision_pc \<times> 'z region" where
  "upsert_step dns fqdn ip existing g =
     (case upsert_a_record dns fqdn ip existing (zone g) of
        (Inl e, z) \<Rightarrow> (Idle, g\<lparr>zone := z\<rparr>) | (Inr record_id, z) \<Rightarrow> (Upserted record_id, g\<lparr>zone := z\<rparr>))"

definition claim_step :: "instant \<Rightarrow> string \<Rightarrow> string \<Rightarrow> string \<Rightarrow> 'z region \<Rightarrow> provision_pc \<times> 'z region" where
  "claim_step now nid fqdn record_id g =
     (case claim_a_record nid fqdn record_id now (ops g) of
        (True, t) \<Rightarrow> (Idle, g\<lparr>ops := t\<rparr>) | (False, t) \<Rightarrow> (Lost record_id, g\<lparr>ops := t\<rparr>))"

definition drop_step :: "'z dns_provider \<Rightarrow> string \<Rightarrow> string \<Rightarrow> 'z region \<Rightarrow> provision_pc \<times> 'z region" where
  "drop_step dns nid record_id g =
     (if Option.bind (op_find_by_id nid (ops g)) o_cf_a_record_id \<noteq> Some record_id
      then (Idle, g\<lparr>zone := snd (delete_record dns record_id (zone g))\<rparr>) else (Idle, g))"

text \<open>Run without interruption, the four steps are \<open>provision\<close>.\<close>

lemma provision_steps:
  "snd (provision dns now nid fqdn ip g) =
    (case find_step dns fqdn g of
       (Found existing, g) \<Rightarrow>
         (case upsert_step dns fqdn ip existing g of
            (Upserted i, g) \<Rightarrow>
              (case claim_step now nid fqdn i g of (Lost i, g) \<Rightarrow> snd (drop_step dns nid i g) | (_, g) \<Rightarrow> g)
          | (_, g) \<Rightarrow> g)
     | (_, g) \<Rightarrow> g)"
  by (auto simp: provision_def find_step_def upsert_step_def claim_step_def drop_step_def Let_def
      split: prod.splits sum.splits bool.splits)

record 'z replicas =
  rp_region :: "'z region"
  rp_pc :: "nat \<Rightarrow> provision_pc"

inductive replica_step :: "'z dns_provider \<Rightarrow> string \<Rightarrow> string \<Rightarrow> 'z replicas \<Rightarrow> 'z replicas \<Rightarrow> bool"
  for dns nid fqdn where
  find: "rp_pc s i = Idle \<Longrightarrow> find_step dns fqdn (rp_region s) = (p, g) \<Longrightarrow>
    replica_step dns nid fqdn s \<lparr>rp_region = g, rp_pc = (rp_pc s)(i := p)\<rparr>"
| upsert: "rp_pc s i = Found existing \<Longrightarrow> upsert_step dns fqdn ip existing (rp_region s) = (p, g) \<Longrightarrow>
    replica_step dns nid fqdn s \<lparr>rp_region = g, rp_pc = (rp_pc s)(i := p)\<rparr>"
| claim: "rp_pc s i = Upserted record_id \<Longrightarrow> claim_step now nid fqdn record_id (rp_region s) = (p, g) \<Longrightarrow>
    replica_step dns nid fqdn s \<lparr>rp_region = g, rp_pc = (rp_pc s)(i := p)\<rparr>"
| drop: "rp_pc s i = Lost record_id \<Longrightarrow> drop_step dns nid record_id (rp_region s) = (p, g) \<Longrightarrow>
    replica_step dns nid fqdn s \<lparr>rp_region = g, rp_pc = (rp_pc s)(i := p)\<rparr>"
| report: "report_ip dns now m ip (rp_region s) = (r, g) \<Longrightarrow>
    replica_step dns nid fqdn s (s\<lparr>rp_region := g\<rparr>)"

definition claimed :: "string \<Rightarrow> 'z region \<Rightarrow> string option" where
  "claimed nid g = Option.bind (op_find_by_id nid (ops g)) o_cf_a_record_id"

definition replica_inv :: "'z contents \<Rightarrow> string \<Rightarrow> 'z replicas \<Rightarrow> bool" where
  "replica_inv recs nid s =
     (let g = rp_region s in
      ops_wf (ops g) \<and> op_find_by_id nid (ops g) \<noteq> None \<and>
      (case claimed nid g of
         Some j \<Rightarrow> recs (zone g) j \<noteq> None
       | None \<Rightarrow> \<forall>i. case rp_pc s i of Upserted r \<Rightarrow> recs (zone g) r \<noteq> None | Lost r \<Rightarrow> False | _ \<Rightarrow> True))"

lemma find_step_inv:
  assumes "zone_ok dns recs" and "find_step dns fqdn g = (p, g')"
  shows "ops g' = ops g \<and> recs (zone g') = recs (zone g) \<and> (p = Idle \<or> (\<exists>e. p = Found e))"
proof -
  obtain f z where f: "find_a_record dns fqdn (zone g) = (f, z)" by fastforce
  with assms(2) zone_ok_find [OF assms(1) f] show ?thesis
    by (auto simp: find_step_def find_ok_def split: sum.splits)
qed

lemma upsert_step_inv:
  assumes "zone_ok dns recs" and "upsert_step dns fqdn ip e g = (p, g')"
  shows "ops g' = ops g \<and> (recs (zone g) k \<noteq> None \<longrightarrow> recs (zone g') k \<noteq> None) \<and>
    (p = Idle \<or> (\<exists>r. p = Upserted r \<and> recs (zone g') r \<noteq> None))"
proof -
  obtain u z where u: "upsert_a_record dns fqdn ip e (zone g) = (u, z)" by fastforce
  have k: "recs (zone g) k \<noteq> None \<Longrightarrow> recs z k \<noteq> None"
    using zone_ok_a [OF assms(1) u] by (cases "e = Some k") (auto simp: upsert_ok_def split: option.splits)
  have "u = Inr r \<Longrightarrow> recs z r \<noteq> None" for r
    using zone_ok_a [OF assms(1) u] by (auto simp: upsert_ok_def split: option.splits)
  with k assms(2) u show ?thesis by (auto simp: upsert_step_def split: sum.splits)
qed

lemma report_inv:
  assumes "zone_ok dns recs" and "report_ip dns now m ip g = (r, g')" and "op_find_by_id nid (ops g) \<noteq> None"
  shows "claimed nid g' = claimed nid g \<and> op_find_by_id nid (ops g') \<noteq> None \<and> (ops_wf (ops g) \<longrightarrow> ops_wf (ops g')) \<and>
    (recs (zone g) k \<noteq> None \<longrightarrow> recs (zone g') k \<noteq> None)"
proof -
  have o: "ops g' = ops g \<or> ops g' = record_ip m ip now (ops g)"
    using assms(2) by (auto simp: report_ip_def split: option.splits prod.splits sum.splits)
  have "recs (zone g) k \<noteq> None \<Longrightarrow> recs (zone g') k \<noteq> None"
  proof (cases "zone g' = zone g")
    case False
    then obtain f i u where "upsert_a_record dns f ip (Some i) (zone g) = (u, zone g')"
      using assms(2) by (auto simp: report_ip_def split: option.splits prod.splits sum.splits)
    from zone_ok_a [OF assms(1) this] show "recs (zone g) k \<noteq> None \<Longrightarrow> ?thesis"
      by (cases "k = i") (auto simp: upsert_ok_def)
  qed simp
  with o assms(3) show ?thesis
    by (auto simp: claimed_def op_find_record_ip record_ip_wf split: option.splits)
qed

lemma claim_step_inv:
  assumes "ops_wf (ops g)" and "claim_step now nid fqdn r g = (p, g')" and "op_find_by_id nid (ops g) \<noteq> None"
  shows "zone g' = zone g \<and> ops_wf (ops g') \<and> op_find_by_id nid (ops g') \<noteq> None \<and>
    (case claimed nid g of Some j \<Rightarrow> claimed nid g' = Some j \<and> p = Lost r | None \<Rightarrow> claimed nid g' = Some r \<and> p = Idle)"
proof -
  have g': "zone g' = zone g" "ops g' = snd (claim_a_record nid fqdn r now (ops g))"
    "p = (if fst (claim_a_record nid fqdn r now (ops g)) then Idle else Lost r)"
    using assms(2) by (auto simp: claim_step_def split: prod.splits bool.splits)
  show ?thesis
    using assms(1,3) claim_wins [OF assms(1), of nid fqdn r now] claim_wf [OF assms(1), of nid fqdn r now]
    by (auto simp: g' claimed_def op_find_claim split: option.splits)
qed

lemma drop_step_inv:
  assumes "zone_ok dns recs" and "drop_step dns nid r g = (p, g')" and "claimed nid g = Some j"
  shows "ops g' = ops g \<and> p = Idle \<and> (recs (zone g) j \<noteq> None \<longrightarrow> recs (zone g') j \<noteq> None)"
proof -
  obtain d z where d: "delete_record dns r (zone g) = (d, z)" by fastforce
  from delete_ok_at [OF zone_ok_delete [OF assms(1) d], of j] d assms(2,3) show ?thesis
    by (auto simp: drop_step_def claimed_def split: if_splits)
qed

lemma replica_step_inv:
  assumes "zone_ok dns recs" and "replica_step dns nid fqdn s s'" and "replica_inv recs nid s"
  shows "replica_inv recs nid s' \<and> (claimed nid (rp_region s) = Some j \<longrightarrow> claimed nid (rp_region s') = Some j)"
  using assms(2)
proof cases
  case (find i p g)
  with assms(3) find_step_inv [OF assms(1) find(3)] show ?thesis
    by (auto simp: replica_inv_def Let_def claimed_def split: option.splits provision_pc.splits)
next
  case (upsert i existing ip p g)
  have u: "ops g = ops (rp_region s)" "p = Idle \<or> (\<exists>r. p = Upserted r \<and> recs (zone g) r \<noteq> None)"
    "recs (zone (rp_region s)) k \<noteq> None \<Longrightarrow> recs (zone g) k \<noteq> None" for k
    using upsert_step_inv [OF assms(1) upsert(3)] by auto
  then show ?thesis using assms(3) upsert
    by (fastforce simp: replica_inv_def Let_def claimed_def split: option.splits provision_pc.splits)
next
  case (claim i r now p g)
  with assms(3) have "ops_wf (ops (rp_region s))" "op_find_by_id nid (ops (rp_region s)) \<noteq> None"
    "claimed nid (rp_region s) = None \<Longrightarrow> recs (zone (rp_region s)) r \<noteq> None"
    by (auto simp: replica_inv_def Let_def split: option.splits dest!: spec [of _ i])
  with claim_step_inv [OF this(1) claim(3) this(2)] assms(3) claim show ?thesis
    by (cases "claimed nid (rp_region s)") (auto simp: replica_inv_def Let_def)
next
  case (drop i r p g)
  with assms(3) obtain j where j: "claimed nid (rp_region s) = Some j"
    by (auto simp: replica_inv_def Let_def split: option.splits dest!: spec [of _ i])
  from drop_step_inv [OF assms(1) drop(3) j] assms(3) j drop show ?thesis
    by (auto simp: replica_inv_def Let_def claimed_def)
next
  case (report now m ip r g)
  from assms(3) have "op_find_by_id nid (ops (rp_region s)) \<noteq> None" by (simp add: replica_inv_def Let_def)
  note r = report_inv [OF assms(1) report(2) this]
  from assms(3) report(1) r show ?thesis
    by (fastforce simp: replica_inv_def Let_def split: option.splits provision_pc.splits)
qed

text \<open>C11. Any number of replicas, interleaved in any order and with reports in between, agree on one record. Started on a
  reported network, in every state they reach the record the network's row claims is in the zone, and
  once claimed the claim never changes hands.\<close>

theorem replicas_agree:
  assumes "zone_ok dns recs" and "(replica_step dns nid fqdn)\<^sup>*\<^sup>* s s'" and "replica_inv recs nid s"
  shows "(claimed nid (rp_region s) = Some i \<longrightarrow> claimed nid (rp_region s') = Some i) \<and>
    (claimed nid (rp_region s') = Some j \<longrightarrow> recs (zone (rp_region s')) j \<noteq> None)"
proof -
  have "replica_inv recs nid s' \<and> (claimed nid (rp_region s) = Some i \<longrightarrow> claimed nid (rp_region s') = Some i)"
    using assms(2)
  proof (induction rule: rtranclp_induct)
    case base
    then show ?case using assms(3) by simp
  next
    case (step s1 s2)
    with replica_step_inv [OF assms(1) step(2)] show ?case by simp
  qed
  then show ?thesis by (auto simp: replica_inv_def Let_def)
qed

section \<open>A concrete zone\<close>

text \<open>
  A provider that keeps every promise and always answers: the zone is the table of its records and the
  number of writes, a new id is longer than every id in use, an update of an absent record is the
  provider's 404.
\<close>

type_synonym ex_zone = "(string \<times> dns_record_body) list \<times> nat"

definition ex_recs :: "ex_zone contents" where
  "ex_recs z = map_of (fst z)"

definition ex_id :: "ex_zone \<Rightarrow> string" where
  "ex_id z = replicate (Suc (sum_list (map (length \<circ> fst) (fst z)))) (CHR ''r'')"

lemma ex_id_fresh: "map_of (fst z) (ex_id z) = None" "map_of xs (ex_id (xs, n)) = None"
proof -
  have "map_of (fst z) (ex_id z) = None" for z :: ex_zone
  proof -
    have "length k \<le> sum_list (map (length \<circ> fst) (fst z))" if "(k, b) \<in> set (fst z)" for k b
      using that by (intro member_le_sum_list) (force simp: image_iff)+
    then have "ex_id z \<notin> fst ` set (fst z)" by (force simp: ex_id_def)
    then show ?thesis by (simp add: map_of_eq_None_iff)
  qed
  from this [of z] this [of "(xs, n)"] show "map_of (fst z) (ex_id z) = None" "map_of xs (ex_id (xs, n)) = None" by simp_all
qed

definition ex_upsert :: "dns_record_body \<Rightarrow> string option \<Rightarrow> ex_zone \<Rightarrow> (string + string) \<times> ex_zone" where
  "ex_upsert b existing z =
     (case existing of
        None \<Rightarrow> (Inr (ex_id z), ((ex_id z, b) # fst z, Suc (snd z)))
      | Some i \<Rightarrow> if map_of (fst z) i = None then (Inl ''404'', z) else (Inr i, ((i, b) # fst z, snd z)))"

definition ex_provider :: "ex_zone dns_provider" where
  "ex_provider = \<lparr>upsert_a_record = (\<lambda>f ip e z. ex_upsert (a_body f ip) e z),
     upsert_txt_record = (\<lambda>f v e z. ex_upsert (txt_body f v) e z),
     delete_record = (\<lambda>i z. (Inr (), (filter (\<lambda>p. fst p \<noteq> i) (fst z), snd z))),
     find_a_record = (\<lambda>f z. (Inr (map_option fst (find (\<lambda>p. rb_type (snd p) = ''A'' \<and> rb_name (snd p) = f \<and>
        map_of (fst z) (fst p) = Some (snd p)) (fst z))), z))\<rparr>"

lemma map_of_filter_neq: "map_of (filter (\<lambda>p. fst p \<noteq> i) xs) k = (if k = i then None else map_of xs k)"
  by (induction xs) auto

lemma ex_provider_ok: "zone_ok ex_provider ex_recs"
  by (auto simp: zone_ok_def ex_provider_def upsert_ok_def delete_ok_def find_ok_def ex_recs_def ex_upsert_def
      ex_id_fresh map_of_filter_neq fun_eq_iff split: option.splits dest!: find_Some_D)

definition ex_region :: "ex_zone region" where
  "ex_region = \<lparr>ops = [\<lparr>o_network_id = ''n1'', o_ip = Some ''8.8.8.8'', o_fqdn = None, o_cf_a_record_id = None,
     o_cf_acme_record_ids = [], o_updated_at = 0\<rparr>], zone = ([], 1)\<rparr>"

lemmas ex_ddns_defs = ex_region_def ex_provider_def ex_upsert_def ex_id_def op_find_by_id_def

theorem report_ip_never_creates_witness:
  "o_ip (the (op_find_by_id ''n1'' (ops (snd (report_ip ex_provider 5 ''n1'' ''9.9.9.9'' ex_region))))) = Some ''9.9.9.9''"
proof -
  obtain r g where e: "report_ip ex_provider 5 ''n1'' ''9.9.9.9'' ex_region = (r, g)" by fastforce
  moreover have "r = Inr ()" using e by (auto simp: report_ip_def ex_ddns_defs)
  ultimately show ?thesis using report_ip_never_creates [OF ex_provider_ok e, where k = "[]" and m = "[]"] by auto
qed

theorem provision_claims_witness:
  "\<exists>i. ex_recs (zone (snd (provision ex_provider 5 ''n1'' ''a.b'' ''8.8.8.8'' ex_region))) i = Some (a_body ''a.b'' ''8.8.8.8'')"
proof -
  obtain r g where e: "provision ex_provider 5 ''n1'' ''a.b'' ''8.8.8.8'' ex_region = (r, g)" by fastforce
  then have "r = Inr ()" by (auto simp: provision_def claim_a_record_def ex_ddns_defs)
  moreover have "op_find_by_id ''n1'' (ops ex_region) = Some (hd (ops ex_region))" "ops_wf (ops ex_region)"
    "o_cf_a_record_id (hd (ops ex_region)) = None"
    by (simp_all add: ex_ddns_defs ops_wf_def)
  ultimately show ?thesis using provision_claims [OF ex_provider_ok _ e] e by fastforce
qed

definition ex_published :: "ex_zone region" where
  "ex_published = \<lparr>ops = [\<lparr>o_network_id = ''n1'', o_ip = Some ''8.8.8.8'', o_fqdn = Some ''a.b'',
     o_cf_a_record_id = Some ''r'', o_cf_acme_record_ids = [''rr''], o_updated_at = 0\<rparr>],
     zone = ([(''r'', a_body ''a.b'' ''8.8.8.8''), (''rr'', txt_body ''x.a.b'' ''v'')], 3)\<rparr>"

theorem delete_records_complete_witness:
  "ex_recs (zone (snd (delete_records ex_provider ''n1'' ex_published))) ''rr'' = None"
proof -
  obtain r g where e: "delete_records ex_provider ''n1'' ex_published = (r, g)" by fastforce
  then have "r = Inr ()" by (auto simp: delete_records_def ex_published_def ex_provider_def op_find_by_id_def)
  moreover have "op_find_by_id ''n1'' (ops ex_published) = Some (hd (ops ex_published))"
    "o_cf_acme_record_ids (hd (ops ex_published)) = [''rr'']"
    by (simp_all add: ex_published_def op_find_by_id_def)
  ultimately show ?thesis using delete_records_complete [OF ex_provider_ok e] e by auto
qed

theorem set_acme_challenge_spec_witness:
  "map (ex_recs (zone (snd (set_acme_challenge ex_provider 5 ''n1'' ''x.a.b'' [''v'', ''w''] ex_published))))
     (current_acme_ids ''n1'' (ops (snd (set_acme_challenge ex_provider 5 ''n1'' ''x.a.b'' [''v'', ''w''] ex_published)))) =
   [Some (txt_body ''x.a.b'' ''v''), Some (txt_body ''x.a.b'' ''w'')]"
proof -
  obtain r g where e: "set_acme_challenge ex_provider 5 ''n1'' ''x.a.b'' [''v'', ''w''] ex_published = (r, g)" by fastforce
  then have "r = Inr ()"
    by (auto simp: set_acme_challenge_def current_acme_ids_def cas_or_conflict_def cas_acme_records_def ex_published_def
        ex_ddns_defs numeral_3_eq_3)
  moreover have "ops_wf (ops ex_published)" by (simp add: ex_published_def ops_wf_def)
  ultimately show ?thesis using set_acme_challenge_spec [OF ex_provider_ok _ e] e by simp
qed

theorem replicas_agree_witness:
  "claimed ''n1'' (rp_region (\<lparr>rp_region = snd (find_step ex_provider ''a.b'' ex_published),
     rp_pc = (\<lambda>_. Idle)(0 := Found (Some ''r''))\<rparr> :: ex_zone replicas)) = Some ''r''"
proof -
  let ?s = "\<lparr>rp_region = ex_published, rp_pc = (\<lambda>_. Idle)\<rparr> :: ex_zone replicas"
  have "find_step ex_provider ''a.b'' ex_published = (Found (Some ''r''), snd (find_step ex_provider ''a.b'' ex_published))"
    by (simp add: find_step_def ex_published_def ex_provider_def a_body_def)
  then have "replica_step ex_provider ''n1'' ''a.b'' ?s
      \<lparr>rp_region = snd (find_step ex_provider ''a.b'' ex_published), rp_pc = (\<lambda>_. Idle)(0 := Found (Some ''r''))\<rparr>"
    using replica_step.find [of ?s 0 ex_provider "''a.b''"] by simp
  moreover have "replica_inv ex_recs ''n1'' ?s"
    by (simp add: replica_inv_def Let_def claimed_def ex_published_def op_find_by_id_def ops_wf_def ex_recs_def)
  moreover have "claimed ''n1'' (rp_region ?s) = Some ''r''"
    by (simp add: claimed_def ex_published_def op_find_by_id_def)
  ultimately show ?thesis using replicas_agree [OF ex_provider_ok r_into_rtranclp] by blast
qed

theorem ddns_confined_witness:
  "op_find_by_id ''n2'' (ops (snd (ddns_exec ex_provider 5
     (DaemonCaller \<lparr>dc_tenant_id = ''t1'', dc_public_key = ''K'', dc_network = Some ''n1''\<rparr>) (ReportIp ''8.8.8.8'') ex_region))) =
   op_find_by_id ''n2'' (ops ex_region)"
  by (rule ddns_confined [THEN conjunct1, rule_format]) simp

end
