(* ===== verification/Cloudflare.thy ===== *)
theory Cloudflare
  imports Ddns_Props
begin

text \<open>
  The Cloudflare implementation of the provider trait (\<open>ddns/src/cloudflare/provider.rs\<close>). The REST service is
  the parameter \<open>send\<close>: one request over an opaque zone gives a transport error or a reply, whose JSON
  body is already decoded (or not decodable). \<open>cf_api_ok\<close> states what the service documents of each
  request. The client retries transport errors, 429 and 5xx up to three times; the theorem shows that,
  although a failed attempt may have had its effect, the client keeps what the trait promises.
\<close>

section \<open>Requests and replies\<close>

datatype cf_request =
    PostRecord dns_record_body
  | PutRecord string dns_record_body
  | DeleteRecord string
  | ListA string

record cf_response =
  cf_success :: bool
  cf_errors :: "string list"
  cf_result :: "string option"

record cf_list_response =
  cfl_success :: bool
  cfl_errors :: "string list"
  cfl_result :: "string list option"

record cf_reply =
  reply_status :: nat
  reply_record :: "cf_response option"
  reply_list :: "cf_list_response option"

type_synonym 'z cf_api = "cf_request \<Rightarrow> 'z \<Rightarrow> (string + cf_reply) \<times> 'z"

section \<open>The client\<close>

definition MAX_RETRIES :: nat where "MAX_RETRIES = 3"

fun cf_attempts :: "'z cf_api \<Rightarrow> cf_request \<Rightarrow> nat \<Rightarrow> 'z \<Rightarrow> (string + cf_reply) \<times> 'z" where
  "cf_attempts send rq retries z =
     (case send rq z of
        (Inl e, z) \<Rightarrow> (case retries of 0 \<Rightarrow> (Inl e, z) | Suc n \<Rightarrow> cf_attempts send rq n z)
      | (Inr resp, z) \<Rightarrow>
          if reply_status resp = 429
          then (case retries of 0 \<Rightarrow> (Inl ''Cloudflare API: rate limited (429)'', z) | Suc n \<Rightarrow> cf_attempts send rq n z)
          else if 500 \<le> reply_status resp \<and> reply_status resp < 600
          then (case retries of
                  0 \<Rightarrow> (Inl (''Cloudflare API: server error '' @ show_nat (reply_status resp)), z)
                | Suc n \<Rightarrow> cf_attempts send rq n z)
          else (Inr resp, z))"

definition cf_call :: "'z cf_api \<Rightarrow> cf_request \<Rightarrow> 'z \<Rightarrow> (string + cf_reply) \<times> 'z" where
  "cf_call send rq z = cf_attempts send rq MAX_RETRIES z"

definition parse_cf_response :: "cf_reply \<Rightarrow> string + string" where
  "parse_cf_response resp =
     (case reply_record resp of
        None \<Rightarrow> Inl (''Cloudflare API returned non-JSON body (HTTP '' @ show_nat (reply_status resp) @ '')'')
      | Some body \<Rightarrow>
          if \<not> cf_success body then Inl (''Cloudflare API error: '' @ join_with ''; '' (cf_errors body))
          else (case cf_result body of
                  None \<Rightarrow> Inl ''Cloudflare API returned success but no result.id'' | Some i \<Rightarrow> Inr i))"

definition parse_cf_list_response :: "cf_reply \<Rightarrow> string + string option" where
  "parse_cf_list_response resp =
     (case reply_list resp of
        None \<Rightarrow> Inl (''Cloudflare API returned non-JSON body (HTTP '' @ show_nat (reply_status resp) @ '')'')
      | Some body \<Rightarrow>
          if \<not> cfl_success body then Inl (''Cloudflare API error: '' @ join_with ''; '' (cfl_errors body))
          else Inr (case cfl_result body of Some (i # is) \<Rightarrow> Some i | _ \<Rightarrow> None))"

definition create_record :: "'z cf_api \<Rightarrow> dns_record_body \<Rightarrow> 'z \<Rightarrow> (string + string) \<times> 'z" where
  "create_record send body z =
     (case cf_call send (PostRecord body) z of (Inl e, z) \<Rightarrow> (Inl e, z) | (Inr resp, z) \<Rightarrow> (parse_cf_response resp, z))"

definition update_record :: "'z cf_api \<Rightarrow> string \<Rightarrow> dns_record_body \<Rightarrow> 'z \<Rightarrow> (string + string) \<times> 'z" where
  "update_record send i body z =
     (case cf_call send (PutRecord i body) z of (Inl e, z) \<Rightarrow> (Inl e, z) | (Inr resp, z) \<Rightarrow> (parse_cf_response resp, z))"

definition cf_upsert_a_record :: "'z cf_api \<Rightarrow> string \<Rightarrow> string \<Rightarrow> string option \<Rightarrow> 'z \<Rightarrow> (string + string) \<times> 'z" where
  "cf_upsert_a_record send fqdn ip existing z =
     (case existing of Some i \<Rightarrow> update_record send i (a_body fqdn ip) z | None \<Rightarrow> create_record send (a_body fqdn ip) z)"

definition cf_upsert_txt_record :: "'z cf_api \<Rightarrow> string \<Rightarrow> string \<Rightarrow> string option \<Rightarrow> 'z \<Rightarrow> (string + string) \<times> 'z" where
  "cf_upsert_txt_record send fqdn content existing z =
     (case existing of
        Some i \<Rightarrow> update_record send i (txt_body fqdn content) z
      | None \<Rightarrow> create_record send (txt_body fqdn content) z)"

definition cf_delete_record :: "'z cf_api \<Rightarrow> string \<Rightarrow> 'z \<Rightarrow> (string + unit) \<times> 'z" where
  "cf_delete_record send i z =
     (case cf_call send (DeleteRecord i) z of
        (Inl e, z) \<Rightarrow> (Inl e, z)
      | (Inr resp, z) \<Rightarrow>
          if reply_status resp = 404 then (Inr (), z)
          else if reply_status resp \<ge> 400 then (Inl (''HTTP status '' @ show_nat (reply_status resp)), z)
          else (Inr (), z))"

definition cf_find_a_record :: "'z cf_api \<Rightarrow> string \<Rightarrow> 'z \<Rightarrow> (string + string option) \<times> 'z" where
  "cf_find_a_record send fqdn z =
     (case cf_call send (ListA fqdn) z of
        (Inl e, z) \<Rightarrow> (Inl e, z) | (Inr resp, z) \<Rightarrow> (parse_cf_list_response resp, z))"

definition cloudflare_provider :: "'z cf_api \<Rightarrow> 'z dns_provider" where
  "cloudflare_provider send =
     \<lparr>upsert_a_record = cf_upsert_a_record send, upsert_txt_record = cf_upsert_txt_record send,
      delete_record = cf_delete_record send, find_a_record = cf_find_a_record send\<rparr>"

section \<open>What the service documents\<close>

fun cf_effect :: "'z contents \<Rightarrow> cf_request \<Rightarrow> 'z \<Rightarrow> 'z \<Rightarrow> bool" where
  "cf_effect recs (PostRecord b) z z' =
     ((\<forall>k. recs z k \<noteq> None \<longrightarrow> recs z' k = recs z k) \<and> (\<forall>k. recs z k = None \<longrightarrow> recs z' k \<in> {None, Some b}))"
| "cf_effect recs (PutRecord i b) z z' =
     ((\<forall>k. k \<noteq> i \<longrightarrow> recs z' k = recs z k) \<and> (recs z i = None \<longrightarrow> recs z' i = None) \<and>
      recs z' i \<in> {recs z i, Some b})"
| "cf_effect recs (DeleteRecord i) z z' =
     ((\<forall>k. k \<noteq> i \<longrightarrow> recs z' k = recs z k) \<and> recs z' i \<in> {recs z i, None})"
| "cf_effect recs (ListA f) z z' = (recs z' = recs z)"

fun cf_answer :: "'z contents \<Rightarrow> cf_request \<Rightarrow> cf_reply \<Rightarrow> 'z \<Rightarrow> 'z \<Rightarrow> bool" where
  "cf_answer recs (PostRecord b) resp z z' =
     (\<forall>i. parse_cf_response resp = Inr i \<longrightarrow> recs z i = None \<and> recs z' i = Some b)"
| "cf_answer recs (PutRecord i b) resp z z' =
     (\<forall>j. parse_cf_response resp = Inr j \<longrightarrow> j = i \<and> recs z' i = Some b)"
| "cf_answer recs (DeleteRecord i) resp z z' =
     (reply_status resp < 400 \<or> reply_status resp = 404 \<longrightarrow> recs z' i = None)"
| "cf_answer recs (ListA f) resp z z' =
     (\<forall>i. parse_cf_list_response resp = Inr (Some i) \<longrightarrow>
        (\<exists>b. recs z i = Some b \<and> rb_type b = ''A'' \<and> rb_name b = f))"

definition cf_api_ok :: "'z cf_api \<Rightarrow> 'z contents \<Rightarrow> bool" where
  "cf_api_ok send recs =
     (\<forall>rq z. cf_effect recs rq z (snd (send rq z)) \<and>
        (\<forall>resp. fst (send rq z) = Inr resp \<longrightarrow> cf_answer recs rq resp z (snd (send rq z))))"

section \<open>The client keeps the promises of the trait\<close>

declare cf_attempts.simps [simp del]

lemma cf_attempts_0:
  "cf_attempts send rq 0 z =
    (case send rq z of
       (Inl e, z) \<Rightarrow> (Inl e, z)
     | (Inr resp, z) \<Rightarrow>
         (if reply_status resp = 429 then Inl ''Cloudflare API: rate limited (429)''
          else if 500 \<le> reply_status resp \<and> reply_status resp < 600
          then Inl (''Cloudflare API: server error '' @ show_nat (reply_status resp)) else Inr resp, z))"
  by (subst cf_attempts.simps) (simp split: prod.split sum.split)

lemma cf_attempts_Suc:
  "cf_attempts send rq (Suc n) z =
    (case send rq z of
       (Inl e, z) \<Rightarrow> cf_attempts send rq n z
     | (Inr resp, z) \<Rightarrow>
         if reply_status resp = 429 \<or> 500 \<le> reply_status resp \<and> reply_status resp < 600
         then cf_attempts send rq n z else (Inr resp, z))"
  by (subst cf_attempts.simps) (simp split: prod.split sum.split)

lemma cf_effect_trans: "cf_effect recs rq z z1 \<Longrightarrow> cf_effect recs rq z1 z2 \<Longrightarrow> cf_effect recs rq z z2"
proof (cases rq)
  case (PostRecord b)
  assume 1: "cf_effect recs rq z z1" and 2: "cf_effect recs rq z1 z2"
  have "recs z k \<noteq> None \<Longrightarrow> recs z2 k = recs z k" for k
    using 1 2 PostRecord by simp
  moreover have "recs z k = None \<Longrightarrow> recs z2 k \<in> {None, Some b}" for k
  proof -
    assume "recs z k = None"
    then have "recs z1 k \<in> {None, Some b}" using 1 PostRecord by simp
    then show "recs z2 k \<in> {None, Some b}" using 2 PostRecord by (elim insertE) simp_all
  qed
  ultimately show ?thesis using PostRecord by simp
qed auto

lemma cf_answer_after:
  "cf_effect recs rq z z1 \<Longrightarrow> cf_answer recs rq resp z1 z2 \<Longrightarrow> cf_answer recs rq resp z z2"
proof (cases rq)
  case (PostRecord b)
  assume "cf_effect recs rq z z1" and a: "cf_answer recs rq resp z1 z2"
  then have "recs z1 k = None \<Longrightarrow> recs z k = None" for k using PostRecord by (cases "recs z k") auto
  with a PostRecord show ?thesis by simp
qed auto

lemma cf_api_okD:
  assumes "cf_api_ok send recs" and "send rq z = (r, z1)"
  shows "cf_effect recs rq z z1" and "r = Inr resp \<Longrightarrow> cf_answer recs rq resp z z1"
  using assms(1) [unfolded cf_api_ok_def, THEN spec, of rq, THEN spec, of z] assms(2) by auto

lemma cf_attempts_ok:
  assumes "cf_api_ok send recs"
  shows "cf_effect recs rq z (snd (cf_attempts send rq n z)) \<and>
    (\<forall>resp. fst (cf_attempts send rq n z) = Inr resp \<longrightarrow> cf_answer recs rq resp z (snd (cf_attempts send rq n z)))"
proof (induction n arbitrary: z)
  case 0
  obtain r z1 where s: "send rq z = (r, z1)" by fastforce
  show ?case using cf_api_okD [OF assms s] by (cases r) (auto simp: cf_attempts_0 s)
next
  case (Suc n)
  obtain r z1 where s: "send rq z = (r, z1)" by fastforce
  note e = cf_api_okD [OF assms s] and ih = Suc.IH [of z1]
  have "cf_effect recs rq z (snd (cf_attempts send rq n z1))"
    by (rule cf_effect_trans [OF e(1) conjunct1 [OF ih]])
  moreover have "cf_answer recs rq resp z (snd (cf_attempts send rq n z1))"
    if "fst (cf_attempts send rq n z1) = Inr resp" for resp
    using ih that by (intro cf_answer_after [OF e(1)]) simp
  ultimately show ?case using e by (cases r) (auto simp: cf_attempts_Suc s)
qed

lemma cf_call_ok:
  assumes "cf_api_ok send recs" and "cf_call send rq z = (r, z')"
  shows "cf_effect recs rq z z' \<and> (\<forall>resp. r = Inr resp \<longrightarrow> cf_answer recs rq resp z z')"
  using cf_attempts_ok [OF assms(1), of rq z MAX_RETRIES] assms(2) by (simp add: cf_call_def)

lemma create_record_ok:
  assumes "cf_api_ok send recs"
  shows "upsert_ok recs b None (fst (create_record send b z)) z (snd (create_record send b z))"
proof -
  obtain r z' where c: "cf_call send (PostRecord b) z = (r, z')" by fastforce
  from cf_call_ok [OF assms c] show ?thesis
    by (cases r) (auto simp: create_record_def c upsert_ok_def)
qed

lemma update_record_ok:
  assumes "cf_api_ok send recs"
  shows "upsert_ok recs b (Some i) (fst (update_record send i b z)) z (snd (update_record send i b z))"
proof -
  obtain r z' where c: "cf_call send (PutRecord i b) z = (r, z')" by fastforce
  from cf_call_ok [OF assms c] show ?thesis
    by (cases r) (auto simp: update_record_def c upsert_ok_def)
qed

lemma cf_delete_record_ok:
  assumes "cf_api_ok send recs"
  shows "delete_ok recs i (fst (cf_delete_record send i z)) z (snd (cf_delete_record send i z))"
proof -
  obtain r z' where c: "cf_call send (DeleteRecord i) z = (r, z')" by fastforce
  from cf_call_ok [OF assms c] show ?thesis
    by (cases r) (auto simp: cf_delete_record_def c delete_ok_def)
qed

lemma cf_find_a_record_ok:
  assumes "cf_api_ok send recs"
  shows "find_ok recs f (fst (cf_find_a_record send f z)) z (snd (cf_find_a_record send f z))"
proof -
  obtain r z' where c: "cf_call send (ListA f) z = (r, z')" by fastforce
  from cf_call_ok [OF assms c] show ?thesis
    by (cases r) (auto simp: cf_find_a_record_def c find_ok_def)
qed


lemma cf_attempts_count:
  assumes "\<And>rq z. cnt (snd (send rq z)) \<le> Suc (cnt z)"
  shows "cnt (snd (cf_attempts send rq n z)) \<le> cnt z + n + 1"
proof (induction n arbitrary: z)
  case 0
  show ?case using assms [of rq z] by (auto simp: cf_attempts_0 split: prod.splits sum.splits)
next
  case (Suc n)
  obtain r z1 where s: "send rq z = (r, z1)" by fastforce
  with assms [of rq z] Suc.IH [of z1] show ?case
    by (auto simp: cf_attempts_Suc split: sum.splits)
qed

text \<open>One provider call makes at most four requests, whatever the service answers: for every measure of the zone that
  one request raises by at most one, a call raises it by at most four.\<close>

theorem cf_call_bounded:
  assumes "\<And>rq z. cnt (snd (send rq z)) \<le> Suc (cnt z)"
  shows "cnt (snd (cf_call send rq z)) \<le> cnt z + 4"
  using cf_attempts_count [of cnt send rq MAX_RETRIES z] assms by (simp add: cf_call_def MAX_RETRIES_def)

section \<open>A concrete service\<close>

definition ex_reply :: "string option \<Rightarrow> cf_reply" where
  "ex_reply i = \<lparr>reply_status = (if i = None then 404 else 200),
     reply_record = Some \<lparr>cf_success = (i \<noteq> None), cf_errors = [''no record''], cf_result = i\<rparr>,
     reply_list = Some \<lparr>cfl_success = True, cfl_errors = [], cfl_result = Some (case i of None \<Rightarrow> [] | Some j \<Rightarrow> [j])\<rparr>\<rparr>"

definition ex_send :: "ex_zone cf_api" where
  "ex_send rq z =
     (case rq of
        PostRecord b \<Rightarrow> (case ex_upsert b None z of (Inl e, z) \<Rightarrow> (Inl e, z) | (Inr i, z) \<Rightarrow> (Inr (ex_reply (Some i)), z))
      | PutRecord i b \<Rightarrow> (case ex_upsert b (Some i) z of (Inl e, z) \<Rightarrow> (Inr (ex_reply None), z) | (Inr i, z) \<Rightarrow> (Inr (ex_reply (Some i)), z))
      | DeleteRecord i \<Rightarrow> (Inr (ex_reply (Some i)), snd (delete_record ex_provider i z))
      | ListA f \<Rightarrow> (case fst (find_a_record ex_provider f z) of Inl e \<Rightarrow> (Inl e, z) | Inr i \<Rightarrow> (Inr (ex_reply i), z)))"

lemma ex_send_ok: "cf_api_ok ex_send ex_recs"
proof -
  have "cf_effect ex_recs rq z (snd (ex_send rq z)) \<and>
     (\<forall>resp. fst (ex_send rq z) = Inr resp \<longrightarrow> cf_answer ex_recs rq resp z (snd (ex_send rq z)))" for rq z
    by (cases rq) (auto simp: ex_send_def ex_reply_def ex_recs_def ex_provider_def ex_upsert_def ex_id_fresh map_of_filter_neq
        parse_cf_response_def parse_cf_list_response_def split: option.splits dest!: find_Some_D)
  then show ?thesis by (simp add: cf_api_ok_def)
qed


theorem cf_call_bounded_witness: "snd (snd (cf_call ex_send (PostRecord (a_body ''a.b'' ''8.8.8.8'')) ([], 1))) \<le> 1 + 4"
proof -
  have "snd (snd (ex_send rq z)) \<le> Suc (snd z)" for rq z
    by (cases rq) (auto simp: ex_send_def ex_upsert_def ex_provider_def split: option.splits sum.splits prod.splits)
  from cf_call_bounded [of snd ex_send, OF this, of "PostRecord (a_body ''a.b'' ''8.8.8.8'')" "([], 1)"] show ?thesis by simp
qed

end
