(* ===== verification/Schema.thy ===== *)
theory Schema
  imports Contract
begin

text \<open>
  The relational state of the global authority: one row record per table of the merged schema
  (\<open>tenants/migrations\<close>, \<open>billing/migrations\<close>; the row structs are those of the
  repositories), the database as the record of its tables, and the constraints the schema declares:
  primary keys, unique and partial unique indexes, foreign keys. \<open>db_wf\<close> is their conjunction;
  the component theories show that every repository operation keeps it. Deleting a tenant or a
  network cascades along \<open>ON DELETE CASCADE\<close>.
\<close>

section \<open>Rows\<close>

record tenant =
  t_id :: string
  t_email :: string
  t_created_at :: instant
  t_deregistered_at :: "instant option"

record subscription =
  s_id :: string
  s_tenant_id :: string
  s_status :: subscription_status
  s_entitlement :: entitlement
  s_trial_expires_at :: "instant option"
  s_current_period_end :: "instant option"
  s_created_at :: instant
  s_updated_at :: instant

record network =
  n_id :: string
  n_tenant_id :: string
  n_slug :: string
  n_display_name :: string
  n_region :: string
  n_provisioning_state :: provisioning_state
  n_created_at :: instant
  n_updated_at :: instant

record daemon =
  d_id :: string
  d_tenant_id :: string
  d_network_id :: string
  d_public_key :: string
  d_created_at :: instant

record enrollment_code =
  c_code_hash :: string
  c_email :: string
  c_tenant_id :: "string option"
  c_purpose :: string
  c_expires_at :: instant
  c_used_at :: "instant option"

record pending_enrollment =
  p_public_key :: string
  p_tenant_id :: string
  p_expires_at :: instant

record tenant_identity =
  i_tenant_id :: string
  i_provider :: string
  i_subject :: string
  i_secret_hash :: "string option"
  i_email :: string
  i_created_at :: instant

record session =
  ss_token_hash :: string
  ss_tenant_id :: string
  ss_expires_at :: instant
  ss_created_at :: instant

record billing_customer =
  bc_tenant_id :: string
  bc_provider :: string
  bc_customer_id :: "string option"
  bc_subscription_id :: "string option"
  bc_price_id :: "string option"
  bc_created_at :: instant
  bc_updated_at :: instant

section \<open>The database\<close>

record db =
  tenants :: "tenant list"
  subscriptions :: "subscription list"
  networks :: "network list"
  daemons :: "daemon list"
  enrollment_codes :: "enrollment_code list"
  pending_enrollments :: "pending_enrollment list"
  enrollment_code_log :: "(string \<times> instant) list"
  tenant_identities :: "tenant_identity list"
  sessions :: "session list"
  billing_customers :: "billing_customer list"
  processed_stripe_events :: "(string \<times> instant) list"

definition empty_db :: db where
  "empty_db = \<lparr>tenants = [], subscriptions = [], networks = [], daemons = [], enrollment_codes = [],
     pending_enrollments = [], enrollment_code_log = [], tenant_identities = [], sessions = [],
     billing_customers = [], processed_stripe_events = []\<rparr>"

definition tenant_live :: "tenant \<Rightarrow> bool" where
  "tenant_live t = (t_deregistered_at t = None)"

definition sub_live :: "subscription \<Rightarrow> bool" where
  "sub_live s = (s_status s \<noteq> Canceled)"

definition tenant_exists :: "string \<Rightarrow> db \<Rightarrow> bool" where
  "tenant_exists tid d = sql_exists (\<lambda>t. t_id t = tid) (tenants d)"

text \<open>
  The running authority: its database and, per reactor, the events published and not yet taken.
  The in-process bus is a broadcast channel: every subscriber sees every event.
\<close>

record authority =
  adb :: db
  subscription_queue :: "domain_event list"
  network_queue :: "domain_event list"
  identities_queue :: "domain_event list"

definition publish :: "domain_event \<Rightarrow> authority \<Rightarrow> authority" where
  "publish e w = w\<lparr>subscription_queue := subscription_queue w @ [e],
     network_queue := network_queue w @ [e], identities_queue := identities_queue w @ [e]\<rparr>"

definition start :: "db \<Rightarrow> authority" where
  "start d = \<lparr>adb = d, subscription_queue = [], network_queue = [], identities_queue = []\<rparr>"

section \<open>Cascading deletes\<close>

definition delete_networks :: "(network \<Rightarrow> bool) \<Rightarrow> db \<Rightarrow> db" where
  "delete_networks p d =
     (let gone = map n_id (filter p (networks d)) in
      d\<lparr>networks := sql_delete p (networks d),
        daemons := sql_delete (\<lambda>r. d_network_id r \<in> set gone) (daemons d)\<rparr>)"

definition delete_tenants :: "(tenant \<Rightarrow> bool) \<Rightarrow> db \<Rightarrow> db" where
  "delete_tenants p d =
     (let gone = map t_id (filter p (tenants d));
          gone_nets = map n_id (filter (\<lambda>n. n_tenant_id n \<in> set gone) (networks d)) in
      d\<lparr>tenants := sql_delete p (tenants d),
        subscriptions := sql_delete (\<lambda>r. s_tenant_id r \<in> set gone) (subscriptions d),
        networks := sql_delete (\<lambda>r. n_tenant_id r \<in> set gone) (networks d),
        daemons := sql_delete (\<lambda>r. d_tenant_id r \<in> set gone \<or> d_network_id r \<in> set gone_nets) (daemons d),
        enrollment_codes := sql_delete (\<lambda>r. c_tenant_id r \<in> Some ` set gone) (enrollment_codes d),
        pending_enrollments := sql_delete (\<lambda>r. p_tenant_id r \<in> set gone) (pending_enrollments d),
        tenant_identities := sql_delete (\<lambda>r. i_tenant_id r \<in> set gone) (tenant_identities d),
        sessions := sql_delete (\<lambda>r. ss_tenant_id r \<in> set gone) (sessions d),
        billing_customers := sql_delete (\<lambda>r. bc_tenant_id r \<in> set gone) (billing_customers d)\<rparr>)"

section \<open>Constraints\<close>

definition unique_where :: "('r \<Rightarrow> bool) \<Rightarrow> ('r \<Rightarrow> 'k) \<Rightarrow> 'r list \<Rightarrow> bool" where
  "unique_where p k t = distinct (map k (filter p t))"

definition references :: "('r \<Rightarrow> string) \<Rightarrow> 'r list \<Rightarrow> string list \<Rightarrow> bool" where
  "references k t ids = list_all (\<lambda>r. k r \<in> set ids) t"

definition keys_wf :: "db \<Rightarrow> bool" where
  "keys_wf d =
     (distinct (map t_id (tenants d)) \<and> unique_where tenant_live t_email (tenants d) \<and>
      distinct (map s_id (subscriptions d)) \<and> unique_where sub_live s_tenant_id (subscriptions d) \<and>
      distinct (map n_id (networks d)) \<and> distinct (map n_slug (networks d)) \<and>
      distinct (map d_id (daemons d)) \<and> distinct (map d_public_key (daemons d)) \<and>
      distinct (map c_code_hash (enrollment_codes d)) \<and>
      distinct (map p_public_key (pending_enrollments d)) \<and>
      distinct (map (\<lambda>r. (i_provider r, i_subject r)) (tenant_identities d)) \<and>
      distinct (map ss_token_hash (sessions d)) \<and>
      distinct (map (\<lambda>r. (bc_tenant_id r, bc_provider r)) (billing_customers d)) \<and>
      distinct (map fst (processed_stripe_events d)))"

definition fks_wf :: "db \<Rightarrow> bool" where
  "fks_wf d =
     (let tids = map t_id (tenants d) in
      references s_tenant_id (subscriptions d) tids \<and>
      references n_tenant_id (networks d) tids \<and>
      references d_tenant_id (daemons d) tids \<and>
      references d_network_id (daemons d) (map n_id (networks d)) \<and>
      list_all (\<lambda>r. set_option (c_tenant_id r) \<subseteq> set tids) (enrollment_codes d) \<and>
      references p_tenant_id (pending_enrollments d) tids \<and>
      references i_tenant_id (tenant_identities d) tids \<and>
      references ss_tenant_id (sessions d) tids \<and>
      references bc_tenant_id (billing_customers d) tids)"

definition db_wf :: "db \<Rightarrow> bool" where
  "db_wf d = (keys_wf d \<and> fks_wf d)"

section \<open>Lemmas on indexes and references\<close>

lemma publish_adb [simp]: "adb (publish e w) = adb w"
  by (simp add: publish_def)

lemma publish_queues [simp]:
  "subscription_queue (publish e w) = subscription_queue w @ [e]"
  "network_queue (publish e w) = network_queue w @ [e]"
  "identities_queue (publish e w) = identities_queue w @ [e]"
  by (simp_all add: publish_def)

lemma unique_where_Nil [simp]: "unique_where p k []"
  by (simp add: unique_where_def)

lemma unique_where_delete [unique_intros]: "unique_where p k t \<Longrightarrow> unique_where p k (sql_delete q t)"
  by (induction t) (auto simp: unique_where_def)

lemma unique_where_insert [unique_intros]:
  "unique_where p k t \<Longrightarrow> (p r \<Longrightarrow> \<not> sql_exists (\<lambda>s. p s \<and> k s = k r) t) \<Longrightarrow> unique_where p k (t @ [r])"
  by (auto simp: unique_where_def sql_exists_iff)

lemma unique_where_update [unique_intros]:
  "unique_where p k t \<Longrightarrow> (\<And>r. r \<in> set t \<Longrightarrow> q r \<Longrightarrow> k (f r) = k r \<and> (p (f r) \<longrightarrow> p r)) \<Longrightarrow>
    unique_where p k (sql_update q f t)"
proof (induction t)
  case (Cons r t)
  have k: "k ` set (filter p (sql_update q f t)) \<subseteq> k ` set (filter p t)"
    using Cons.prems(2) by (fastforce simp: set_sql_update split: if_splits)
  have "unique_where p k t" using Cons.prems(1) by (auto simp: unique_where_def split: if_splits)
  then have ih: "unique_where p k (sql_update q f t)" using Cons by auto
  show ?case
  proof (cases "p (if q r then f r else r)")
    case True
    then have "p r" and kr: "k (if q r then f r else r) = k r"
      using Cons.prems(2) [of r] by (auto split: if_splits)
    then have "k r \<notin> k ` set (filter p t)" using Cons.prems(1) by (auto simp: unique_where_def)
    then have "k r \<notin> k ` set (filter p (sql_update q f t))" using k by blast
    then show ?thesis using ih True kr unfolding unique_where_def by (auto split: if_splits)
  next
    case False
    then show ?thesis using ih by (auto simp: unique_where_def)
  qed
qed simp

lemma unique_where_at_most_one:
  "unique_where p k t \<Longrightarrow> at_most_one (\<lambda>r. k r = x \<and> p r) t"
proof (induction t)
  case (Cons r t)
  have "sql_count (\<lambda>r. k r = x \<and> p r) t = 0" if "p r" "k r = x"
    using Cons.prems that
    by (auto simp: unique_where_def sql_count_zero_iff sql_exists_iff image_iff)
  with Cons show ?case by (auto simp: unique_where_def at_most_one_def split: if_splits)
qed simp

lemma unique_where_find:
  "unique_where p k t \<Longrightarrow> r \<in> set t \<Longrightarrow> p r \<Longrightarrow> find (\<lambda>s. k s = k r \<and> p s) t = Some r"
  by (rule find_unique [OF unique_where_at_most_one]) auto

lemma references_Nil [simp]: "references k [] ids"
  by (simp add: references_def)

lemma references_append [simp]: "references k (s @ t) ids \<longleftrightarrow> references k s ids \<and> references k t ids"
  by (simp add: references_def)

lemma references_single [simp]: "references k [r] ids \<longleftrightarrow> k r \<in> set ids"
  by (simp add: references_def)

lemma references_delete [unique_intros]: "references k t ids \<Longrightarrow> references k (sql_delete p t) ids"
  by (simp add: references_def list_all_iff)

lemma references_update [unique_intros]:
  "references k t ids \<Longrightarrow> (\<And>r. r \<in> set t \<Longrightarrow> p r \<Longrightarrow> k (f r) = k r) \<Longrightarrow> references k (sql_update p f t) ids"
  by (auto simp: references_def list_all_iff set_sql_update)

lemma references_mono [unique_intros]:
  "references k t ids \<Longrightarrow> set ids \<subseteq> set ids' \<Longrightarrow> references k t ids'"
  by (auto simp: references_def list_all_iff)

lemma references_D: "references k t ids \<Longrightarrow> r \<in> set t \<Longrightarrow> k r \<in> set ids"
  by (simp add: references_def list_all_iff)

lemma tenant_exists_iff: "tenant_exists tid d \<longleftrightarrow> tid \<in> set (map t_id (tenants d))"
  by (auto simp: tenant_exists_def sql_exists_iff)

lemma empty_db_wf: "db_wf empty_db"
  by (simp add: db_wf_def keys_wf_def fks_wf_def empty_db_def)

lemmas db_wf_defs = db_wf_def keys_wf_def fks_wf_def Let_def

lemma db_wf_keys:
  assumes "db_wf d"
  shows db_wf_tenant_id: "distinct (map t_id (tenants d))"
    and db_wf_email: "unique_where tenant_live t_email (tenants d)"
    and db_wf_sub_id: "distinct (map s_id (subscriptions d))"
    and db_wf_sub_live: "unique_where sub_live s_tenant_id (subscriptions d)"
    and db_wf_net_id: "distinct (map n_id (networks d))"
    and db_wf_slug: "distinct (map n_slug (networks d))"
    and db_wf_daemon_id: "distinct (map d_id (daemons d))"
    and db_wf_public_key: "distinct (map d_public_key (daemons d))"
    and db_wf_code: "distinct (map c_code_hash (enrollment_codes d))"
    and db_wf_pending: "distinct (map p_public_key (pending_enrollments d))"
    and db_wf_identity: "distinct (map (\<lambda>r. (i_provider r, i_subject r)) (tenant_identities d))"
    and db_wf_session: "distinct (map ss_token_hash (sessions d))"
    and db_wf_customer: "distinct (map (\<lambda>r. (bc_tenant_id r, bc_provider r)) (billing_customers d))"
    and db_wf_event: "distinct (map fst (processed_stripe_events d))"
  using assms by (simp_all add: db_wf_defs)

lemma db_wf_refs:
  assumes "db_wf d"
  shows db_wf_sub_tenant: "references s_tenant_id (subscriptions d) (map t_id (tenants d))"
    and db_wf_net_tenant: "references n_tenant_id (networks d) (map t_id (tenants d))"
    and db_wf_daemon_tenant: "references d_tenant_id (daemons d) (map t_id (tenants d))"
    and db_wf_daemon_net: "references d_network_id (daemons d) (map n_id (networks d))"
    and db_wf_pending_tenant: "references p_tenant_id (pending_enrollments d) (map t_id (tenants d))"
    and db_wf_identity_tenant: "references i_tenant_id (tenant_identities d) (map t_id (tenants d))"
    and db_wf_session_tenant: "references ss_tenant_id (sessions d) (map t_id (tenants d))"
    and db_wf_customer_tenant: "references bc_tenant_id (billing_customers d) (map t_id (tenants d))"
  using assms by (simp_all add: db_wf_defs)

section \<open>Cascades keep the constraints\<close>

lemma references_cascade:
  assumes "references k t (map t_id ts)" and "gone = map t_id (filter p ts)"
  shows "references k (sql_delete (\<lambda>r. k r \<in> set gone \<or> q r) t) (map t_id (sql_delete p ts))"
  using assms by (fastforce simp: references_def list_all_iff)

lemma references_cascade':
  assumes "references k t (map t_id ts)" and "gone = map t_id (filter p ts)"
  shows "references k (sql_delete (\<lambda>r. k r \<in> set gone) t) (map t_id (sql_delete p ts))"
  using references_cascade [OF assms, of "\<lambda>_. False"] by simp

lemma delete_networks_wf: "db_wf d \<Longrightarrow> db_wf (delete_networks p d)"
proof -
  assume wf: "db_wf d"
  have "references d_network_id
      (sql_delete (\<lambda>r. d_network_id r \<in> set (map n_id (filter p (networks d)))) (daemons d))
      (map n_id (sql_delete p (networks d)))"
    using wf by (fastforce simp: db_wf_defs references_def list_all_iff)
  with wf show ?thesis
    by (simp add: db_wf_defs delete_networks_def unique_intros)
qed

lemma delete_tenants_keys: "keys_wf d \<Longrightarrow> keys_wf (delete_tenants p d)"
  by (simp add: keys_wf_def delete_tenants_def Let_def unique_intros)

lemma delete_tenants_fks: "fks_wf d \<Longrightarrow> fks_wf (delete_tenants p d)"
proof -
  assume wf: "fks_wf d"
  define gone where "gone = map t_id (filter p (tenants d))"
  define nets where "nets = map n_id (filter (\<lambda>n. n_tenant_id n \<in> set gone) (networks d))"
  have d: "delete_tenants p d =
    d\<lparr>tenants := sql_delete p (tenants d),
      subscriptions := sql_delete (\<lambda>r. s_tenant_id r \<in> set gone) (subscriptions d),
      networks := sql_delete (\<lambda>r. n_tenant_id r \<in> set gone) (networks d),
      daemons := sql_delete (\<lambda>r. d_tenant_id r \<in> set gone \<or> d_network_id r \<in> set nets) (daemons d),
      enrollment_codes := sql_delete (\<lambda>r. c_tenant_id r \<in> Some ` set gone) (enrollment_codes d),
      pending_enrollments := sql_delete (\<lambda>r. p_tenant_id r \<in> set gone) (pending_enrollments d),
      tenant_identities := sql_delete (\<lambda>r. i_tenant_id r \<in> set gone) (tenant_identities d),
      sessions := sql_delete (\<lambda>r. ss_tenant_id r \<in> set gone) (sessions d),
      billing_customers := sql_delete (\<lambda>r. bc_tenant_id r \<in> set gone) (billing_customers d)\<rparr>"
    by (simp only: delete_tenants_def Let_def gone_def nets_def)
  have net: "references d_network_id
      (sql_delete (\<lambda>r. d_tenant_id r \<in> set gone \<or> d_network_id r \<in> set nets) (daemons d))
      (map n_id (sql_delete (\<lambda>r. n_tenant_id r \<in> set gone) (networks d)))"
    using wf by (fastforce simp: fks_wf_def Let_def references_def list_all_iff nets_def)
  have code: "list_all (\<lambda>r. set_option (c_tenant_id r) \<subseteq> set (map t_id (sql_delete p (tenants d))))
      (sql_delete (\<lambda>r. c_tenant_id r \<in> Some ` set gone) (enrollment_codes d))"
    using wf by (fastforce simp: fks_wf_def Let_def list_all_iff gone_def)
  show ?thesis
    using wf net code unfolding d
    by (simp add: fks_wf_def Let_def references_cascade [OF _ gone_def] references_cascade' [OF _ gone_def])
qed

lemma delete_tenants_wf: "db_wf d \<Longrightarrow> db_wf (delete_tenants p d)"
  by (simp add: db_wf_def delete_tenants_keys delete_tenants_fks)

end
