(* ===== verification/Tenant_Repos.thy ===== *)
theory Tenant_Repos
  imports Schema
begin

text \<open>
  The repositories of the tenant aggregate (\<open>tenants/src/repository\<close>): tenants, networks, daemons
  and enrollment artifacts, each statement as an operation on the database record. Transactions are
  single definitions: a rollback returns the database unchanged. Text columns compare by bytes,
  which is how the ids (UUID texts) are ordered for the reconcile cursor.

  The lemmas show that every operation keeps the schema constraints, that one-time codes are spent
  at most once and only for their purpose, and which network transitions exist.
\<close>

section \<open>Tenants\<close>

datatype create_tenant_outcome = TenantInserted | EmailTaken

definition tenant_create :: "tenant \<Rightarrow> db \<Rightarrow> string + create_tenant_outcome \<times> db" where
  "tenant_create t d =
     (if sql_exists (\<lambda>r. tenant_live r \<and> t_email r = t_email t) (tenants d) then Inr (EmailTaken, d)
      else if sql_exists (\<lambda>r. t_id r = t_id t) (tenants d) then Inl ''duplicate key''
      else Inr (TenantInserted, d\<lparr>tenants := tenants d @ [t\<lparr>t_deregistered_at := None\<rparr>]\<rparr>))"

definition tenant_find_by_id :: "string \<Rightarrow> db \<Rightarrow> tenant option" where
  "tenant_find_by_id tid d = find (\<lambda>t. t_id t = tid) (tenants d)"

definition tenant_find_by_email :: "string \<Rightarrow> db \<Rightarrow> tenant option" where
  "tenant_find_by_email email d = find (\<lambda>t. t_email t = email \<and> tenant_live t) (tenants d)"

definition list_live_ids :: "db \<Rightarrow> string list" where
  "list_live_ids d = map t_id (filter tenant_live (tenants d))"

definition set_deregistered :: "instant \<Rightarrow> string \<Rightarrow> db \<Rightarrow> bool \<times> db" where
  "set_deregistered now tid d =
     (sql_exists (\<lambda>t. t_id t = tid \<and> tenant_live t) (tenants d),
      d\<lparr>tenants := sql_update (\<lambda>t. t_id t = tid \<and> tenant_live t)
          (\<lambda>t. t\<lparr>t_deregistered_at := Some now\<rparr>) (tenants d)\<rparr>)"

definition sweepable :: "db \<Rightarrow> tenant \<Rightarrow> bool" where
  "sweepable d t = (\<not> tenant_live t \<and> \<not> sql_exists (\<lambda>n. n_tenant_id n = t_id t) (networks d))"

definition delete_tombstoned_empty :: "db \<Rightarrow> nat \<times> db" where
  "delete_tombstoned_empty d = (sql_count (sweepable d) (tenants d), delete_tenants (sweepable d) d)"

section \<open>Networks\<close>

definition network_find_by_id :: "string \<Rightarrow> db \<Rightarrow> network option" where
  "network_find_by_id nid d = find (\<lambda>n. n_id n = nid) (networks d)"

definition network_find_by_slug :: "string \<Rightarrow> db \<Rightarrow> network option" where
  "network_find_by_slug slug d = find (\<lambda>n. n_slug n = slug) (networks d)"

definition network_list_by_tenant :: "string \<Rightarrow> db \<Rightarrow> network list" where
  "network_list_by_tenant tid d = sort_key n_created_at (filter (\<lambda>n. n_tenant_id n = tid) (networks d))"

definition network_count_by_tenant :: "string \<Rightarrow> db \<Rightarrow> nat" where
  "network_count_by_tenant tid d = sql_count (\<lambda>n. n_tenant_id n = tid) (networks d)"

datatype register_network_outcome = Created | SlugTaken | NetworkLimit | DaemonLimit | DaemonExists

text \<open>
  The registration transaction in its two parts: the limit checks, which only read, and the inserts.
  Under the database's default isolation another transaction may commit between the two.
\<close>

definition register_limits :: "network \<Rightarrow> u32 \<Rightarrow> u32 \<Rightarrow> db \<Rightarrow> register_network_outcome option" where
  "register_limits net max_nets max_dmns d =
     (if sql_count (\<lambda>n. n_tenant_id n = n_tenant_id net) (networks d) \<ge> unat max_nets
      then Some NetworkLimit
      else if sql_count (\<lambda>r. d_tenant_id r = n_tenant_id net) (daemons d) \<ge> unat max_dmns
      then Some DaemonLimit
      else None)"

definition register_inserts :: "network \<Rightarrow> daemon \<Rightarrow> db \<Rightarrow> string + register_network_outcome \<times> db" where
  "register_inserts net dmn d =
     (if sql_exists (\<lambda>n. n_slug n = n_slug net) (networks d) then Inr (SlugTaken, d)
      else if sql_exists (\<lambda>n. n_id n = n_id net) (networks d) then Inl ''duplicate key''
      else if \<not> tenant_exists (n_tenant_id net) d then Inl ''foreign key violation''
      else if sql_exists (\<lambda>r. d_public_key r = d_public_key dmn) (daemons d) then Inr (DaemonExists, d)
      else if sql_exists (\<lambda>r. d_id r = d_id dmn) (daemons d) then Inl ''duplicate key''
      else if \<not> tenant_exists (d_tenant_id dmn) d then Inl ''foreign key violation''
      else Inr (Created,
        d\<lparr>networks := networks d @ [net],
          daemons := daemons d @ [dmn\<lparr>d_network_id := n_id net\<rparr>],
          pending_enrollments := sql_delete (\<lambda>p. p_public_key p = d_public_key dmn) (pending_enrollments d)\<rparr>))"

definition repo_register_network ::
  "network \<Rightarrow> daemon \<Rightarrow> u32 \<Rightarrow> u32 \<Rightarrow> db \<Rightarrow> string + register_network_outcome \<times> db" where
  "repo_register_network net dmn max_nets max_dmns d =
     (case register_limits net max_nets max_dmns d of
        Some outcome \<Rightarrow> Inr (outcome, d)
      | None \<Rightarrow> register_inserts net dmn d)"

definition repo_list_for_reconcile ::
  "provisioning_state \<Rightarrow> string \<Rightarrow> string option \<Rightarrow> nat \<Rightarrow> db \<Rightarrow> network list" where
  "repo_list_for_reconcile st region after limit d =
     take limit (sort_key n_id (filter (\<lambda>n. n_provisioning_state n = st \<and> n_region n = region \<and>
       (case after of None \<Rightarrow> True | Some a \<Rightarrow> a < n_id n)) (networks d)))"

definition mark_active :: "instant \<Rightarrow> string \<Rightarrow> db \<Rightarrow> bool \<times> db" where
  "mark_active now nid d =
     (sql_exists (\<lambda>n. n_id n = nid \<and> n_provisioning_state n = Provisioning) (networks d),
      d\<lparr>networks := sql_update (\<lambda>n. n_id n = nid \<and> n_provisioning_state n = Provisioning)
          (\<lambda>n. n\<lparr>n_provisioning_state := Active, n_updated_at := now\<rparr>) (networks d)\<rparr>)"

definition delete_if_deprovisioning :: "string \<Rightarrow> db \<Rightarrow> bool \<times> db" where
  "delete_if_deprovisioning nid d =
     (sql_exists (\<lambda>n. n_id n = nid \<and> n_provisioning_state n = Deprovisioning) (networks d),
      delete_networks (\<lambda>n. n_id n = nid \<and> n_provisioning_state n = Deprovisioning) d)"

definition set_deprovisioning :: "instant \<Rightarrow> string \<Rightarrow> db \<Rightarrow> bool \<times> db" where
  "set_deprovisioning now nid d =
     (sql_exists (\<lambda>n. n_id n = nid \<and> n_provisioning_state n \<in> {Active, Provisioning}) (networks d),
      d\<lparr>networks := sql_update (\<lambda>n. n_id n = nid \<and> n_provisioning_state n \<in> {Active, Provisioning})
          (\<lambda>n. n\<lparr>n_provisioning_state := Deprovisioning, n_updated_at := now\<rparr>) (networks d)\<rparr>)"

definition set_deprovisioning_for_tenant :: "instant \<Rightarrow> string \<Rightarrow> db \<Rightarrow> nat \<times> db" where
  "set_deprovisioning_for_tenant now tid d =
     (sql_count (\<lambda>n. n_tenant_id n = tid \<and> n_provisioning_state n \<in> {Active, Provisioning}) (networks d),
      d\<lparr>networks := sql_update (\<lambda>n. n_tenant_id n = tid \<and> n_provisioning_state n \<in> {Active, Provisioning})
          (\<lambda>n. n\<lparr>n_provisioning_state := Deprovisioning, n_updated_at := now\<rparr>) (networks d)\<rparr>)"

section \<open>Daemons\<close>

definition daemon_find_by_public_key :: "string \<Rightarrow> db \<Rightarrow> daemon option" where
  "daemon_find_by_public_key pk d = find (\<lambda>r. d_public_key r = pk) (daemons d)"

definition daemon_list_by_tenant :: "string \<Rightarrow> db \<Rightarrow> daemon list" where
  "daemon_list_by_tenant tid d = sort_key d_created_at (filter (\<lambda>r. d_tenant_id r = tid) (daemons d))"

definition daemon_list_by_network :: "string \<Rightarrow> db \<Rightarrow> daemon list" where
  "daemon_list_by_network nid d = sort_key d_created_at (filter (\<lambda>r. d_network_id r = nid) (daemons d))"

definition daemon_remove :: "string \<Rightarrow> string \<Rightarrow> db \<Rightarrow> nat \<times> db" where
  "daemon_remove pk nid d =
     (sql_count (\<lambda>r. d_public_key r = pk \<and> d_network_id r = nid) (daemons d),
      d\<lparr>daemons := sql_delete (\<lambda>r. d_public_key r = pk \<and> d_network_id r = nid) (daemons d)\<rparr>)"

section \<open>Enrollment\<close>

datatype enroll_outcome = Enrolled string bool | BadCode

definition issue_code ::
  "string \<Rightarrow> string \<Rightarrow> string option \<Rightarrow> string \<Rightarrow> instant \<Rightarrow> db \<Rightarrow> string + db" where
  "issue_code code_hash email tid purpose expires_at d =
     (if purpose_parse purpose = None then Inl ''check violation''
      else if sql_exists (\<lambda>c. c_code_hash c = code_hash) (enrollment_codes d) then Inl ''duplicate key''
      else if \<not> list_all (\<lambda>t. tenant_exists t d) (case tid of None \<Rightarrow> [] | Some t \<Rightarrow> [t])
      then Inl ''foreign key violation''
      else Inr (d\<lparr>enrollment_codes := enrollment_codes d @
        [\<lparr>c_code_hash = code_hash, c_email = email, c_tenant_id = tid, c_purpose = purpose,
          c_expires_at = expires_at, c_used_at = None\<rparr>]\<rparr>))"

definition enroll_usable :: "string \<Rightarrow> instant \<Rightarrow> enrollment_code \<Rightarrow> bool" where
  "enroll_usable code_hash now c =
     (c_code_hash c = code_hash \<and> c_used_at c = None \<and> now < c_expires_at c \<and> c_purpose c = ''enrollment'')"

definition web_usable :: "string \<Rightarrow> string \<Rightarrow> instant \<Rightarrow> enrollment_code \<Rightarrow> bool" where
  "web_usable code_hash purpose now c =
     (c_code_hash c = code_hash \<and> c_used_at c = None \<and> now < c_expires_at c \<and>
      c_purpose c = purpose \<and> c_tenant_id c = None)"

definition burn :: "(enrollment_code \<Rightarrow> bool) \<Rightarrow> instant \<Rightarrow> db \<Rightarrow> db" where
  "burn p now d = d\<lparr>enrollment_codes := sql_update p (\<lambda>c. c\<lparr>c_used_at := Some now\<rparr>) (enrollment_codes d)\<rparr>"

definition upsert_pending :: "string \<Rightarrow> string \<Rightarrow> instant \<Rightarrow> db \<Rightarrow> db" where
  "upsert_pending pk tid expires_at d =
     (if sql_exists (\<lambda>p. p_public_key p = pk) (pending_enrollments d)
      then d\<lparr>pending_enrollments := sql_update (\<lambda>p. p_public_key p = pk)
             (\<lambda>p. p\<lparr>p_tenant_id := tid, p_expires_at := expires_at\<rparr>) (pending_enrollments d)\<rparr>
      else d\<lparr>pending_enrollments := pending_enrollments d @
             [\<lparr>p_public_key = pk, p_tenant_id = tid, p_expires_at = expires_at\<rparr>]\<rparr>)"

definition resolve_tenant ::
  "enrollment_code \<Rightarrow> string \<Rightarrow> instant \<Rightarrow> db \<Rightarrow> string + (string \<times> bool \<times> db) option" where
  "resolve_tenant c new_tenant_id now d =
     (case c_tenant_id c of
        Some tid \<Rightarrow>
          (case tenant_find_by_id tid d of
             Some t \<Rightarrow> if tenant_live t then Inr (Some (tid, False, d)) else Inr None
           | None \<Rightarrow> Inr None)
      | None \<Rightarrow>
          (case tenant_create \<lparr>t_id = new_tenant_id, t_email = c_email c, t_created_at = now,
                               t_deregistered_at = None\<rparr> d of
             Inl e \<Rightarrow> Inl e
           | Inr (TenantInserted, d') \<Rightarrow> Inr (Some (new_tenant_id, True, d'))
           | Inr (EmailTaken, d') \<Rightarrow>
               (case tenant_find_by_email (c_email c) d' of
                  Some t \<Rightarrow> Inr (Some (t_id t, False, d'))
                | None \<Rightarrow> Inl ''row not found'')))"

definition repo_enroll ::
  "string \<Rightarrow> string \<Rightarrow> string \<Rightarrow> instant \<Rightarrow> int \<Rightarrow> db \<Rightarrow> string + enroll_outcome \<times> db" where
  "repo_enroll code_hash public_key new_tenant_id now pending_ttl_secs d =
     (case find (enroll_usable code_hash now) (enrollment_codes d) of
        None \<Rightarrow> Inr (BadCode, d)
      | Some c \<Rightarrow>
          (case resolve_tenant c new_tenant_id now (burn (enroll_usable code_hash now) now d) of
             Inl e \<Rightarrow> Inl e
           | Inr None \<Rightarrow> Inr (BadCode, d)
           | Inr (Some (tid, created, d')) \<Rightarrow>
               Inr (Enrolled tid created, upsert_pending public_key tid (now + secs pending_ttl_secs) d')))"

definition repo_consume_code :: "string \<Rightarrow> string \<Rightarrow> instant \<Rightarrow> db \<Rightarrow> string option \<times> db" where
  "repo_consume_code code_hash purpose now d =
     (map_option c_email (find (web_usable code_hash purpose now) (enrollment_codes d)),
      burn (web_usable code_hash purpose now) now d)"

definition find_pending_tenant :: "string \<Rightarrow> instant \<Rightarrow> db \<Rightarrow> string option" where
  "find_pending_tenant pk now d =
     map_option p_tenant_id (find (\<lambda>p. p_public_key p = pk \<and> now < p_expires_at p) (pending_enrollments d))"

definition count_code_requests_from_ip :: "string \<Rightarrow> instant \<Rightarrow> db \<Rightarrow> nat" where
  "count_code_requests_from_ip ip since d =
     sql_count (\<lambda>l. fst l = ip \<and> since < snd l) (enrollment_code_log d)"

definition log_code_request :: "string \<Rightarrow> instant \<Rightarrow> db \<Rightarrow> db" where
  "log_code_request ip at d = d\<lparr>enrollment_code_log := enrollment_code_log d @ [(ip, at)]\<rparr>"

section \<open>Constraints: tables one at a time\<close>

lemma db_wf_tenants_update:
  assumes "db_wf d" and "\<And>t. t_id (f t) = t_id t" and "\<And>t. t_email (f t) = t_email t"
    and "\<And>t. tenant_live (f t) \<Longrightarrow> tenant_live t"
  shows "db_wf (d\<lparr>tenants := sql_update p f (tenants d)\<rparr>)"
proof -
  have "map t_id (sql_update p f (tenants d)) = map t_id (tenants d)"
    using assms(2) by (simp add: table_simps)
  moreover have "unique_where tenant_live t_email (sql_update p f (tenants d))"
    using assms by (intro unique_where_update [OF db_wf_email]) auto
  ultimately show ?thesis using assms(1) by (simp add: db_wf_defs)
qed

lemma db_wf_networks_update:
  assumes "db_wf d" and "\<And>n. n_id (f n) = n_id n" and "\<And>n. n_slug (f n) = n_slug n"
    and "\<And>n. n_tenant_id (f n) = n_tenant_id n"
  shows "db_wf (d\<lparr>networks := sql_update p f (networks d)\<rparr>)"
proof -
  have "map n_id (sql_update p f (networks d)) = map n_id (networks d)"
    "map n_slug (sql_update p f (networks d)) = map n_slug (networks d)"
    using assms by (simp_all add: table_simps)
  moreover have "references n_tenant_id (sql_update p f (networks d)) (map t_id (tenants d))"
    using assms by (intro references_update [OF db_wf_net_tenant]) auto
  ultimately show ?thesis using assms(1) by (simp add: db_wf_defs)
qed

lemma db_wf_codes_update:
  assumes "db_wf d" and "\<And>c. c_code_hash (f c) = c_code_hash c" and "\<And>c. c_tenant_id (f c) = c_tenant_id c"
  shows "db_wf (d\<lparr>enrollment_codes := sql_update p f (enrollment_codes d)\<rparr>)"
proof -
  have "map c_code_hash (sql_update p f (enrollment_codes d)) = map c_code_hash (enrollment_codes d)"
    using assms by (simp add: table_simps)
  moreover have "list_all (\<lambda>r. set_option (c_tenant_id r) \<subseteq> set (map t_id (tenants d)))
      (sql_update p f (enrollment_codes d))"
    using assms by (auto simp: db_wf_defs list_all_iff set_sql_update)
  ultimately show ?thesis using assms(1) by (simp add: db_wf_defs)
qed

lemma references_snoc: "references k t ids \<Longrightarrow> references k t (ids @ [x])"
  by (rule references_mono) auto

lemma db_wf_tenant_insert:
  assumes "db_wf d" and "\<not> sql_exists (\<lambda>r. t_id r = t_id t) (tenants d)"
    and "tenant_live t \<Longrightarrow> \<not> sql_exists (\<lambda>r. tenant_live r \<and> t_email r = t_email t) (tenants d)"
  shows "db_wf (d\<lparr>tenants := tenants d @ [t]\<rparr>)"
proof -
  have "distinct (map t_id (tenants d @ [t]))"
    by (rule distinct_key_insert [OF db_wf_tenant_id [OF assms(1)] assms(2)])
  moreover have "unique_where tenant_live t_email (tenants d @ [t])"
    using assms(3) by (rule unique_where_insert [OF db_wf_email [OF assms(1)]])
  moreover have "list_all (\<lambda>r. set_option (c_tenant_id r) \<subseteq> set (map t_id (tenants d @ [t]))) (enrollment_codes d)"
    using assms(1) by (auto simp: db_wf_defs list_all_iff)
  ultimately show ?thesis using assms(1) by (simp add: db_wf_defs references_snoc)
qed

section \<open>Constraints: every operation\<close>

lemma tenant_create_wf: "db_wf d \<Longrightarrow> tenant_create t d = Inr (r, d') \<Longrightarrow> db_wf d'"
  by (auto simp: tenant_create_def split: if_splits intro!: db_wf_tenant_insert)

lemma set_deregistered_wf: "db_wf d \<Longrightarrow> db_wf (snd (set_deregistered now tid d))"
  unfolding set_deregistered_def snd_conv
  by (rule db_wf_tenants_update) (simp_all add: tenant_live_def)

lemma delete_tombstoned_empty_wf: "db_wf d \<Longrightarrow> db_wf (snd (delete_tombstoned_empty d))"
  by (simp add: delete_tombstoned_empty_def delete_tenants_wf)

lemma mark_active_wf: "db_wf d \<Longrightarrow> db_wf (snd (mark_active now nid d))"
  by (simp add: mark_active_def db_wf_networks_update)

lemma delete_if_deprovisioning_wf: "db_wf d \<Longrightarrow> db_wf (snd (delete_if_deprovisioning nid d))"
  by (simp add: delete_if_deprovisioning_def delete_networks_wf)

lemma set_deprovisioning_wf: "db_wf d \<Longrightarrow> db_wf (snd (set_deprovisioning now nid d))"
  by (simp add: set_deprovisioning_def db_wf_networks_update)

lemma set_deprovisioning_for_tenant_wf: "db_wf d \<Longrightarrow> db_wf (snd (set_deprovisioning_for_tenant now tid d))"
  by (simp add: set_deprovisioning_for_tenant_def db_wf_networks_update)

lemma daemon_remove_wf: "db_wf d \<Longrightarrow> db_wf (snd (daemon_remove pk nid d))"
  by (simp add: daemon_remove_def db_wf_defs distinct_key_delete references_delete)

lemma burn_wf: "db_wf d \<Longrightarrow> db_wf (burn p now d)"
  by (simp add: burn_def db_wf_codes_update)

lemma repo_consume_code_wf: "db_wf d \<Longrightarrow> db_wf (snd (repo_consume_code h p now d))"
  by (simp add: repo_consume_code_def burn_wf)

lemma log_code_request_wf: "db_wf d \<Longrightarrow> db_wf (log_code_request ip at d)"
  by (simp add: log_code_request_def db_wf_defs)

lemma issue_code_wf: "db_wf d \<Longrightarrow> issue_code h e tid p x d = Inr d' \<Longrightarrow> db_wf d'"
  by (auto simp: issue_code_def db_wf_defs tenant_exists_iff sql_exists_iff split: if_splits option.splits)

lemma upsert_pending_wf:
  assumes "db_wf d" and "tenant_exists tid d"
  shows "db_wf (upsert_pending pk tid x d)"
proof (cases "sql_exists (\<lambda>p. p_public_key p = pk) (pending_enrollments d)")
  case True
  let ?t = "sql_update (\<lambda>p. p_public_key p = pk) (\<lambda>p. p\<lparr>p_tenant_id := tid, p_expires_at := x\<rparr>)
    (pending_enrollments d)"
  have "map p_public_key ?t = map p_public_key (pending_enrollments d)" by (simp add: table_simps)
  moreover have "references p_tenant_id ?t (map t_id (tenants d))"
    using db_wf_pending_tenant [OF assms(1)] assms(2)
    by (auto simp: references_def list_all_iff set_sql_update tenant_exists_iff)
  ultimately show ?thesis using True assms(1) by (simp add: upsert_pending_def db_wf_defs)
next
  case False
  then show ?thesis using assms
    by (auto simp: upsert_pending_def db_wf_defs tenant_exists_iff sql_exists_iff)
qed

lemma register_inserts_Created:
  assumes "register_inserts net dmn d = Inr (Created, d')"
  shows "d' = d\<lparr>networks := networks d @ [net],
          daemons := daemons d @ [dmn\<lparr>d_network_id := n_id net\<rparr>],
          pending_enrollments := sql_delete (\<lambda>p. p_public_key p = d_public_key dmn) (pending_enrollments d)\<rparr>"
    and "\<not> sql_exists (\<lambda>n. n_slug n = n_slug net) (networks d)" "\<not> sql_exists (\<lambda>n. n_id n = n_id net) (networks d)"
      "tenant_exists (n_tenant_id net) d" "\<not> sql_exists (\<lambda>r. d_public_key r = d_public_key dmn) (daemons d)"
      "\<not> sql_exists (\<lambda>r. d_id r = d_id dmn) (daemons d)" "tenant_exists (d_tenant_id dmn) d"
  using assms by (auto simp: register_inserts_def split: if_splits)

lemma register_inserts_other: "register_inserts net dmn d = Inr (r, d') \<Longrightarrow> r \<noteq> Created \<Longrightarrow> d' = d"
  by (auto simp: register_inserts_def split: if_splits)

lemma register_inserts_wf:
  assumes "db_wf d" and "register_inserts net dmn d = Inr (r, d')"
  shows "db_wf d'"
proof (cases "r = Created")
  case True
  note i = register_inserts_Created [OF assms(2) [unfolded True]]
  have "distinct (map n_id (networks d @ [net]))" "distinct (map n_slug (networks d @ [net]))"
    "distinct (map d_id (daemons d @ [dmn\<lparr>d_network_id := n_id net\<rparr>]))"
    "distinct (map d_public_key (daemons d @ [dmn\<lparr>d_network_id := n_id net\<rparr>]))"
    using i(2-) by (intro distinct_key_insert db_wf_keys [OF assms(1)]; simp)+
  then show ?thesis using assms(1) i(2-) unfolding i(1)
    by (simp add: db_wf_defs tenant_exists_iff references_snoc distinct_key_delete references_delete)
next
  case False
  with assms register_inserts_other show ?thesis by blast
qed

lemma repo_register_network_wf:
  "db_wf d \<Longrightarrow> repo_register_network net dmn mn md d = Inr (r, d') \<Longrightarrow> db_wf d'"
  by (auto simp: repo_register_network_def split: option.splits intro: register_inserts_wf)

lemma repo_register_network_Created:
  assumes "repo_register_network net dmn mn md d = Inr (Created, d')"
  shows "sql_count (\<lambda>n. n_tenant_id n = n_tenant_id net) (networks d) < unat mn"
    and "sql_count (\<lambda>r. d_tenant_id r = n_tenant_id net) (daemons d) < unat md"
    and "register_inserts net dmn d = Inr (Created, d')"
  using assms by (auto simp: repo_register_network_def register_limits_def split: option.splits if_splits)

lemma repo_register_network_other:
  "repo_register_network net dmn mn md d = Inr (r, d') \<Longrightarrow> r \<noteq> Created \<Longrightarrow> d' = d"
  by (auto simp: repo_register_network_def split: option.splits dest: register_inserts_other)

lemma resolve_tenant_wf:
  assumes "db_wf d" and "resolve_tenant c new now d = Inr (Some (tid, b, d'))"
  shows "db_wf d' \<and> tenant_exists tid d' \<and> (\<exists>t \<in> set (tenants d'). t_id t = tid \<and> tenant_live t)"
proof (cases "c_tenant_id c")
  case (Some x)
  with assms show ?thesis
    by (auto simp: resolve_tenant_def tenant_find_by_id_def tenant_exists_def sql_exists_iff
        split: option.splits if_splits dest!: find_Some_D)
next
  case None
  let ?t = "\<lparr>t_id = new, t_email = c_email c, t_created_at = now, t_deregistered_at = None\<rparr>"
  from None assms(2) obtain r d1 where c: "tenant_create ?t d = Inr (r, d1)"
    by (auto simp: resolve_tenant_def split: sum.splits)
  have wf: "db_wf d1" by (rule tenant_create_wf [OF assms(1) c])
  show ?thesis
  proof (cases r)
    case TenantInserted
    with c have "d1 = d\<lparr>tenants := tenants d @ [?t]\<rparr>" by (auto simp: tenant_create_def split: if_splits)
    with None assms(2) c TenantInserted wf show ?thesis
      by (auto simp: resolve_tenant_def tenant_exists_def tenant_live_def)
  next
    case EmailTaken
    with None assms(2) c obtain t where "tenant_find_by_email (c_email c) d1 = Some t" "tid = t_id t" "d' = d1"
      by (auto simp: resolve_tenant_def split: option.splits)
    with wf show ?thesis
      by (auto simp: tenant_find_by_email_def tenant_exists_def sql_exists_iff dest!: find_Some_D)
  qed
qed

lemma repo_enroll_BadCode: "repo_enroll h pk new now ttl d = Inr (BadCode, d') \<Longrightarrow> d' = d"
  by (simp add: repo_enroll_def split: option.splits sum.splits prod.splits)

lemma repo_enroll_Enrolled:
  assumes "repo_enroll h pk new now ttl d = Inr (Enrolled tid b, d')"
  obtains c d1 where "find (enroll_usable h now) (enrollment_codes d) = Some c"
    and "resolve_tenant c new now (burn (enroll_usable h now) now d) = Inr (Some (tid, b, d1))"
    and "d' = upsert_pending pk tid (now + secs ttl) d1"
  using assms by (simp add: repo_enroll_def split: option.splits sum.splits prod.splits)

lemma repo_enroll_wf: "db_wf d \<Longrightarrow> repo_enroll h pk new now ttl d = Inr (r, d') \<Longrightarrow> db_wf d'"
proof (cases r)
  case (Enrolled tid b)
  assume "db_wf d" and "repo_enroll h pk new now ttl d = Inr (r, d')"
  with Enrolled obtain c d1 where
    r: "resolve_tenant c new now (burn (enroll_usable h now) now d) = Inr (Some (tid, b, d1))"
    and d': "d' = upsert_pending pk tid (now + secs ttl) d1" by (auto elim: repo_enroll_Enrolled)
  from resolve_tenant_wf [OF burn_wf [OF \<open>db_wf d\<close>] r] show ?thesis
    unfolding d' by (blast intro: upsert_pending_wf)
qed (auto dest: repo_enroll_BadCode)

section \<open>One-time codes\<close>

text \<open>
  The contract of a one-time token store: a token is accepted only when it is unspent and fits, and
  accepting it spends it, for this and for every other purpose. The flows that accept codes rely on
  nothing else.
\<close>

locale one_time_tokens =
  fixes invar :: "'st \<Rightarrow> bool"
    and accept :: "'p \<Rightarrow> 'k \<Rightarrow> 'st \<Rightarrow> bool"
    and spend :: "'p \<Rightarrow> 'k \<Rightarrow> 'st \<Rightarrow> 'st"
    and spent :: "'k \<Rightarrow> 'st \<Rightarrow> bool"
  assumes accept_unspent: "accept p k st \<Longrightarrow> \<not> spent k st"
    and spend_spent: "invar st \<Longrightarrow> accept p k st \<Longrightarrow> spent k (spend p k st)"
    and spent_stays: "spent k st \<Longrightarrow> spent k (spend p' k' st)"
    and spend_invar: "invar st \<Longrightarrow> invar (spend p k st)"
begin

lemma spent_stays_run: "spent k st \<Longrightarrow> spent k (foldl (\<lambda>st (p, k). spend p k st) st xs)"
  by (induction xs arbitrary: st) (auto simp: spent_stays)

lemma accepted_once:
  "invar st \<Longrightarrow> accept p k st \<Longrightarrow> \<not> accept p' k (foldl (\<lambda>st (p, k). spend p k st) (spend p k st) xs)"
  using accept_unspent spend_spent spent_stays_run by metis

end

text \<open>The two ways a code is accepted: the daemon enroll saga, or a web flow of a given purpose.\<close>

datatype flow = DaemonEnroll | WebFlow string

fun usable :: "flow \<times> instant \<Rightarrow> string \<Rightarrow> enrollment_code \<Rightarrow> bool" where
  "usable (DaemonEnroll, now) h c = enroll_usable h now c"
| "usable (WebFlow purpose, now) h c = web_usable h purpose now c"

definition code_accept :: "flow \<times> instant \<Rightarrow> string \<Rightarrow> db \<Rightarrow> bool" where
  "code_accept f h d = sql_exists (usable f h) (enrollment_codes d)"

definition code_spend :: "flow \<times> instant \<Rightarrow> string \<Rightarrow> db \<Rightarrow> db" where
  "code_spend f h d = burn (usable f h) (snd f) d"

definition code_spent :: "string \<Rightarrow> db \<Rightarrow> bool" where
  "code_spent h d = (\<forall>c \<in> set (enrollment_codes d). c_code_hash c = h \<longrightarrow> c_used_at c \<noteq> None)"

lemma usable_hash: "usable f h c \<Longrightarrow> c_code_hash c = h \<and> c_used_at c = None"
  by (cases "(f, h, c)" rule: usable.cases) (auto simp: enroll_usable_def web_usable_def)

lemma code_spent_spend: "code_spent h d \<Longrightarrow> code_spent h (code_spend f h' d)"
  by (auto simp: code_spent_def code_spend_def burn_def set_sql_update)

lemma spend_spends:
  assumes "distinct (map c_code_hash (enrollment_codes d))" and "code_accept f h d"
  shows "code_spent h (code_spend f h d)"
proof -
  from assms(2) obtain c where c: "c \<in> set (enrollment_codes d)" "usable f h c"
    by (auto simp: code_accept_def sql_exists_iff)
  have "c' = c" if "c' \<in> set (enrollment_codes d)" "c_code_hash c' = h" for c'
    using assms(1) c that usable_hash [OF c(2)] by (auto simp: distinct_map inj_on_def)
  then show ?thesis using c(2)
    by (auto simp: code_spent_def code_spend_def burn_def set_sql_update)
qed

lemma code_spend_key:
  "distinct (map c_code_hash (enrollment_codes d)) \<Longrightarrow> distinct (map c_code_hash (enrollment_codes (code_spend f h d)))"
  by (simp add: code_spend_def burn_def table_simps)

interpretation codes: one_time_tokens "\<lambda>d. distinct (map c_code_hash (enrollment_codes d))"
  code_accept code_spend code_spent
proof
  fix p k st assume "code_accept p k st"
  then show "\<not> code_spent k st"
    by (auto simp: code_accept_def code_spent_def sql_exists_iff dest: usable_hash)
qed (auto simp: spend_spends code_spent_spend code_spend_key)

section \<open>The network life cycle\<close>

definition net_state :: "string \<Rightarrow> db \<Rightarrow> provisioning_state option" where
  "net_state nid d = map_option n_provisioning_state (network_find_by_id nid d)"

inductive lifecycle :: "provisioning_state option \<Rightarrow> provisioning_state option \<Rightarrow> bool" where
  create: "lifecycle None (Some Provisioning)"
| activate: "lifecycle (Some Provisioning) (Some Active)"
| abandon: "lifecycle (Some Provisioning) (Some Deprovisioning)"
| retire: "lifecycle (Some Active) (Some Deprovisioning)"
| finish: "lifecycle (Some Deprovisioning) None"

inductive_simps lifecycle_simps: "lifecycle a b"

definition net_updates :: "(network \<Rightarrow> bool) \<Rightarrow> provisioning_state \<Rightarrow> instant \<Rightarrow> db \<Rightarrow> db" where
  "net_updates p st now d = d\<lparr>networks := sql_update p
     (\<lambda>n. n\<lparr>n_provisioning_state := st, n_updated_at := now\<rparr>) (networks d)\<rparr>"

lemma net_state_updates:
  "net_state nid (net_updates p st now d) = (case network_find_by_id nid d of None \<Rightarrow> None
     | Some n \<Rightarrow> Some (if p n then st else n_provisioning_state n))"
  by (simp add: net_state_def network_find_by_id_def net_updates_def find_sql_update_keep split: option.splits)

lemma network_find_by_id_id: "network_find_by_id nid d = Some n \<Longrightarrow> n_id n = nid"
  by (auto simp: network_find_by_id_def dest: find_Some_D)

lemma net_state_find: "network_find_by_id nid d = Some n \<Longrightarrow> net_state nid d = Some (n_provisioning_state n)"
  "network_find_by_id nid d = None \<Longrightarrow> net_state nid d = None"
  by (simp_all add: net_state_def)

lemma state_cases: "s \<noteq> Active \<Longrightarrow> s \<noteq> Provisioning \<Longrightarrow> s = Deprovisioning"
  by (cases s) auto

lemma mark_active_state:
  "net_state nid (snd (mark_active now x d)) =
    (if nid = x \<and> net_state nid d = Some Provisioning then Some Active else net_state nid d)"
proof -
  have "snd (mark_active now x d) = net_updates (\<lambda>n. n_id n = x \<and> n_provisioning_state n = Provisioning) Active now d"
    by (simp add: mark_active_def net_updates_def)
  then show ?thesis
    by (cases "network_find_by_id nid d") (auto simp: net_state_updates net_state_find dest: network_find_by_id_id)
qed

lemma set_deprovisioning_state:
  "net_state nid (snd (set_deprovisioning now x d)) =
    (if nid = x \<and> net_state nid d \<noteq> None then Some Deprovisioning else net_state nid d)"
proof -
  have "snd (set_deprovisioning now x d) =
      net_updates (\<lambda>n. n_id n = x \<and> n_provisioning_state n \<in> {Active, Provisioning}) Deprovisioning now d"
    by (simp add: set_deprovisioning_def net_updates_def)
  then show ?thesis
    by (cases "network_find_by_id nid d")
      (auto simp: net_state_updates net_state_find dest: network_find_by_id_id state_cases)
qed

lemma set_deprovisioning_for_tenant_state:
  "net_state nid (snd (set_deprovisioning_for_tenant now tid d)) =
    (case network_find_by_id nid d of None \<Rightarrow> None
     | Some n \<Rightarrow> Some (if n_tenant_id n = tid then Deprovisioning else n_provisioning_state n))"
proof -
  have "snd (set_deprovisioning_for_tenant now tid d) =
      net_updates (\<lambda>n. n_tenant_id n = tid \<and> n_provisioning_state n \<in> {Active, Provisioning}) Deprovisioning now d"
    by (simp add: set_deprovisioning_for_tenant_def net_updates_def)
  then show ?thesis by (auto simp: net_state_updates split: option.splits dest: state_cases)
qed

lemma delete_if_deprovisioning_state:
  assumes "db_wf d"
  shows "net_state nid (snd (delete_if_deprovisioning x d)) =
    (if nid = x \<and> net_state nid d = Some Deprovisioning then None else net_state nid d)"
proof -
  let ?p = "\<lambda>n. n_id n = x \<and> n_provisioning_state n = Deprovisioning"
  have nets: "networks (snd (delete_if_deprovisioning x d)) = sql_delete ?p (networks d)"
    by (simp add: delete_if_deprovisioning_def delete_networks_def Let_def)
  show ?thesis
  proof (cases "nid = x \<and> net_state nid d = Some Deprovisioning")
    case True
    then obtain n where n: "find (\<lambda>n. n_id n = x) (networks d) = Some n" "n_provisioning_state n = Deprovisioning"
      by (auto simp: net_state_def network_find_by_id_def)
    have "m = n" if "m \<in> set (networks d)" "n_id m = x" for m
      using distinct_key_find [OF db_wf_net_id [OF assms] that] n by simp
    then have "find (\<lambda>n. n_id n = x) (sql_delete ?p (networks d)) = None"
      using n by (auto simp: find_None_exists sql_exists_iff)
    then have "net_state nid (snd (delete_if_deprovisioning x d)) = None"
      using True by (simp add: net_state_def network_find_by_id_def nets)
    then show ?thesis unfolding if_P [OF True] .
  next
    case False
    have "find (\<lambda>n. n_id n = nid) (sql_delete ?p (networks d)) = find (\<lambda>n. n_id n = nid) (networks d)"
    proof (rule find_sql_delete_other)
      fix m assume m: "m \<in> set (networks d)" "n_id m = nid"
      have "net_state nid d = Some (n_provisioning_state m)"
        using distinct_key_find [OF db_wf_net_id [OF assms] m] by (simp add: net_state_def network_find_by_id_def)
      then show "\<not> ?p m" using False m by auto
    qed
    then show ?thesis using False by (auto simp: net_state_def network_find_by_id_def nets)
  qed
qed

lemma register_inserts_state:
  assumes "register_inserts net dmn d = Inr (Created, d')"
  shows "net_state nid d' = (if nid = n_id net then Some (n_provisioning_state net) else net_state nid d)"
    and "net_state (n_id net) d = None"
  using register_inserts_Created [OF assms]
  by (auto simp: net_state_def network_find_by_id_def find_append find_None_exists [symmetric] split: option.splits)

end
