(* ===== verification/Subscriptions.thy ===== *)
theory Subscriptions
  imports Schema
begin

text \<open>
  The license aggregate (\<open>subscriptions/src\<close>): the repository over the \<open>subscriptions\<close> table, the
  service with its trial and grace policy, the reader and command ports other aggregates use, and
  the reactor. Fresh ids and the clock are arguments of the operations. A repository operation
  returns \<open>Inl\<close> the database error when a key or a reference is violated.

  The lemmas give: at most one live row per tenant and at most one trial ever, for every
  sequence of commands; what each operation does to a tenant's current subscription and that it
  leaves other tenants alone; and how the reaper's overdue query relates to the grace-aware gate.
\<close>

section \<open>Repository\<close>

definition live_of :: "string \<Rightarrow> subscription \<Rightarrow> bool" where
  "live_of tid s = (s_tenant_id s = tid \<and> sub_live s)"

definition repo_create_trial :: "subscription \<Rightarrow> db \<Rightarrow> string + bool \<times> db" where
  "repo_create_trial sub d =
     (if sql_exists (\<lambda>s. s_tenant_id s = s_tenant_id sub) (subscriptions d) then Inr (False, d)
      else if \<not> tenant_exists (s_tenant_id sub) d then Inl ''foreign key violation''
      else if sql_exists (\<lambda>s. s_id s = s_id sub) (subscriptions d) then Inl ''duplicate key''
      else Inr (True, d\<lparr>subscriptions := subscriptions d @ [sub]\<rparr>))"

definition find_current :: "string \<Rightarrow> db \<Rightarrow> subscription option" where
  "find_current tid d = find (live_of tid) (subscriptions d)"

definition cancel_live :: "string \<Rightarrow> instant \<Rightarrow> subscription list \<Rightarrow> subscription list" where
  "cancel_live tid now t =
     sql_update (live_of tid) (\<lambda>s. s\<lparr>s_status := Canceled, s_updated_at := now\<rparr>) t"

definition INSERT_SUBSCRIPTION :: "subscription \<Rightarrow> subscription list \<Rightarrow> string + subscription list" where
  "INSERT_SUBSCRIPTION sub t =
     (if sub_live sub \<and> sql_exists (live_of (s_tenant_id sub)) t
      then Inr (sql_update (live_of (s_tenant_id sub))
        (\<lambda>s. s\<lparr>s_status := s_status sub, s_entitlement := s_entitlement sub,
               s_trial_expires_at := s_trial_expires_at sub,
               s_current_period_end := s_current_period_end sub,
               s_updated_at := s_updated_at sub\<rparr>) t)
      else if sql_exists (\<lambda>s. s_id s = s_id sub) t then Inl ''duplicate key''
      else Inr (t @ [sub]))"

definition repo_convert_trial_to_paid ::
  "string \<Rightarrow> subscription \<Rightarrow> instant \<Rightarrow> db \<Rightarrow> string + db" where
  "repo_convert_trial_to_paid tid paid now d =
     (if \<not> tenant_exists (s_tenant_id paid) d then Inl ''foreign key violation''
      else case INSERT_SUBSCRIPTION paid (cancel_live tid now (subscriptions d)) of
             Inl e \<Rightarrow> Inl e
           | Inr t \<Rightarrow> Inr (d\<lparr>subscriptions := t\<rparr>))"

definition repo_update_current ::
  "string \<Rightarrow> subscription_status \<Rightarrow> entitlement \<Rightarrow> instant option \<Rightarrow> instant \<Rightarrow> db \<Rightarrow> bool \<times> db" where
  "repo_update_current tid status ent period_end now d =
     (sql_exists (live_of tid) (subscriptions d),
      d\<lparr>subscriptions := sql_update (live_of tid)
          (\<lambda>s. s\<lparr>s_status := status, s_entitlement := ent, s_current_period_end := period_end,
                 s_updated_at := now\<rparr>) (subscriptions d)\<rparr>)"

definition mark_past_due_current :: "string \<Rightarrow> instant \<Rightarrow> db \<Rightarrow> bool \<times> db" where
  "mark_past_due_current tid now d =
     (sql_exists (live_of tid) (subscriptions d),
      d\<lparr>subscriptions := sql_update (live_of tid)
          (\<lambda>s. s\<lparr>s_status := PastDue, s_updated_at := now\<rparr>) (subscriptions d)\<rparr>)"

definition cancel_current :: "string \<Rightarrow> instant \<Rightarrow> db \<Rightarrow> bool \<times> db" where
  "cancel_current tid now d =
     (sql_exists (live_of tid) (subscriptions d),
      d\<lparr>subscriptions := cancel_live tid now (subscriptions d)\<rparr>)"

definition before :: "instant option \<Rightarrow> instant \<Rightarrow> bool" where
  "before t cutoff = (case t of None \<Rightarrow> False | Some x \<Rightarrow> x < cutoff)"

definition overdue :: "instant \<Rightarrow> instant \<Rightarrow> subscription \<Rightarrow> bool" where
  "overdue trial_cutoff payment_cutoff s =
     ((s_status s = Trialing \<and> before (s_trial_expires_at s) trial_cutoff) \<or>
      (s_status s = PastDue \<and> before (s_current_period_end s) payment_cutoff))"

definition list_overdue :: "instant \<Rightarrow> instant \<Rightarrow> db \<Rightarrow> string list" where
  "list_overdue trial_cutoff payment_cutoff d =
     map s_tenant_id (filter (overdue trial_cutoff payment_cutoff) (subscriptions d))"

section \<open>Service\<close>

record trial_policy =
  trial_days :: int
  trial_grace_days :: int
  payment_grace_days :: int

datatype subscription_error = SubNotFound string | SubBadRequest string | SubInternal string

definition create_trial ::
  "trial_policy \<Rightarrow> string \<Rightarrow> instant \<Rightarrow> string \<Rightarrow> authority \<Rightarrow> (subscription_error + bool) \<times> authority" where
  "create_trial policy new_id now tid w =
     (let sub = \<lparr>s_id = new_id, s_tenant_id = tid, s_status = Trialing,
                 s_entitlement = entitlement_DEFAULT,
                 s_trial_expires_at = Some (now + days (trial_days policy)),
                 s_current_period_end = None, s_created_at = now, s_updated_at = now\<rparr> in
      case repo_create_trial sub (adb w) of
        Inl e \<Rightarrow> (Inl (SubInternal e), w)
      | Inr (created, d) \<Rightarrow> (Inr created, w\<lparr>adb := d\<rparr>))"

definition current :: "string \<Rightarrow> authority \<Rightarrow> subscription option" where
  "current tid w = find_current tid (adb w)"

definition cancel :: "instant \<Rightarrow> string \<Rightarrow> authority \<Rightarrow> authority" where
  "cancel now tid w =
     (case cancel_current tid now (adb w) of (canceled, d) \<Rightarrow>
        if canceled then publish (SubscriptionDeactivated tid) (w\<lparr>adb := d\<rparr>) else w\<lparr>adb := d\<rparr>)"

definition expire_overdue :: "trial_policy \<Rightarrow> instant \<Rightarrow> authority \<Rightarrow> nat \<times> authority" where
  "expire_overdue policy now w =
     (let trial_cutoff = now - days (trial_grace_days policy);
          payment_cutoff = now - days (payment_grace_days policy);
          tenant_ids = list_overdue trial_cutoff payment_cutoff (adb w) in
      (length tenant_ids, foldl (\<lambda>w tid. cancel now tid w) w tenant_ids))"

definition sub_is_active :: "trial_policy \<Rightarrow> instant \<Rightarrow> subscription \<Rightarrow> bool" where
  "sub_is_active policy now s =
     (case s_status s of
        SubActive \<Rightarrow> True
      | Trialing \<Rightarrow> (case s_trial_expires_at s of None \<Rightarrow> False
          | Some t \<Rightarrow> now < t + days (trial_grace_days policy))
      | PastDue \<Rightarrow> (case s_current_period_end s of None \<Rightarrow> False
          | Some c \<Rightarrow> now < c + days (payment_grace_days policy))
      | Canceled \<Rightarrow> False)"

section \<open>Ports\<close>

definition subscription_view_of :: "subscription \<Rightarrow> subscription_view" where
  "subscription_view_of s =
     \<lparr>sv_id = s_id s, sv_status = s_status s, sv_entitlement = s_entitlement s,
      sv_trial_expires_at = s_trial_expires_at s, sv_current_period_end = s_current_period_end s,
      sv_created_at = s_created_at s, sv_updated_at = s_updated_at s\<rparr>"

definition port_current :: "string \<Rightarrow> authority \<Rightarrow> subscription_view option" where
  "port_current tid w = map_option subscription_view_of (find_current tid (adb w))"

definition port_is_active :: "trial_policy \<Rightarrow> instant \<Rightarrow> string \<Rightarrow> authority \<Rightarrow> bool" where
  "port_is_active policy now tid w =
     (case find_current tid (adb w) of None \<Rightarrow> False | Some sub \<Rightarrow> sub_is_active policy now sub)"

definition convert_trial_to_paid ::
  "string \<Rightarrow> instant \<Rightarrow> string \<Rightarrow> subscription_status \<Rightarrow> entitlement \<Rightarrow> instant option \<Rightarrow> authority
    \<Rightarrow> (string + unit) \<times> authority" where
  "convert_trial_to_paid new_id now tid status ent period_end w =
     (let paid = \<lparr>s_id = new_id, s_tenant_id = tid, s_status = status, s_entitlement = ent,
                  s_trial_expires_at = None, s_current_period_end = period_end,
                  s_created_at = now, s_updated_at = now\<rparr> in
      case repo_convert_trial_to_paid tid paid now (adb w) of
        Inl e \<Rightarrow> (Inl e, w)
      | Inr d \<Rightarrow> (Inr (), w\<lparr>adb := d\<rparr>))"

definition update_paid ::
  "instant \<Rightarrow> string \<Rightarrow> subscription_status \<Rightarrow> entitlement \<Rightarrow> instant option \<Rightarrow> authority \<Rightarrow> bool \<times> authority" where
  "update_paid now tid status ent period_end w =
     (case repo_update_current tid status ent period_end now (adb w) of (b, d) \<Rightarrow> (b, w\<lparr>adb := d\<rparr>))"

definition mark_past_due :: "instant \<Rightarrow> string \<Rightarrow> authority \<Rightarrow> bool \<times> authority" where
  "mark_past_due now tid w =
     (case mark_past_due_current tid now (adb w) of (b, d) \<Rightarrow> (b, w\<lparr>adb := d\<rparr>))"

section \<open>Reactor\<close>

fun apply_to_subscription ::
  "trial_policy \<Rightarrow> string \<Rightarrow> instant \<Rightarrow> domain_event \<Rightarrow> authority \<Rightarrow> authority" where
  "apply_to_subscription policy new_id now (TenantCreated tid) w = snd (create_trial policy new_id now tid w)"
| "apply_to_subscription policy new_id now (TenantDeregistered tid) w = cancel now tid w"
| "apply_to_subscription policy new_id now (SubscriptionDeactivated tid) w = w"

section \<open>Commands\<close>

datatype sub_cmd =
    CreateTrial string instant string
  | Cancel instant string
  | ExpireOverdue instant
  | ConvertTrialToPaid string instant string subscription_status entitlement "instant option"
  | UpdatePaid instant string subscription_status entitlement "instant option"
  | MarkPastDue instant string

fun sub_exec :: "trial_policy \<Rightarrow> sub_cmd \<Rightarrow> authority \<Rightarrow> authority" where
  "sub_exec policy (CreateTrial new_id now tid) w = snd (create_trial policy new_id now tid w)"
| "sub_exec policy (Cancel now tid) w = cancel now tid w"
| "sub_exec policy (ExpireOverdue now) w = snd (expire_overdue policy now w)"
| "sub_exec policy (ConvertTrialToPaid new_id now tid st ent pe) w =
     snd (convert_trial_to_paid new_id now tid st ent pe w)"
| "sub_exec policy (UpdatePaid now tid st ent pe) w = snd (update_paid now tid st ent pe w)"
| "sub_exec policy (MarkPastDue now tid) w = snd (mark_past_due now tid w)"

definition sub_run :: "trial_policy \<Rightarrow> sub_cmd list \<Rightarrow> authority \<Rightarrow> authority" where
  "sub_run policy cmds w = foldl (\<lambda>w c. sub_exec policy c w) w cmds"

definition trial_row :: "string \<Rightarrow> subscription \<Rightarrow> bool" where
  "trial_row tid s = (s_tenant_id s = tid \<and> s_trial_expires_at s \<noteq> None)"

definition trial_rows :: "string \<Rightarrow> authority \<Rightarrow> nat" where
  "trial_rows tid w = sql_count (trial_row tid) (subscriptions (adb w))"

section \<open>The license port\<close>

text \<open>
  What the other aggregates rely on (\<open>SubscriptionReader\<close> and \<open>SubscriptionCommands::cancel\<close>): an
  active tenant has a current subscription, cancelling removes it, and tenants do not interfere.
\<close>

locale license_port =
  fixes current_of :: "string \<Rightarrow> 'st \<Rightarrow> 'v option"
    and active :: "string \<Rightarrow> 'st \<Rightarrow> bool"
    and cancel_op :: "string \<Rightarrow> 'st \<Rightarrow> 'st"
  assumes active_current: "active tid w \<Longrightarrow> current_of tid w \<noteq> None"
    and current_cancel: "current_of tid (cancel_op tid w) = None"
    and current_cancel_other: "tid' \<noteq> tid \<Longrightarrow> current_of tid' (cancel_op tid w) = current_of tid' w"
    and active_cancel_other: "tid' \<noteq> tid \<Longrightarrow> active tid' (cancel_op tid w) = active tid' w"
begin

lemma cancel_inactive: "\<not> active tid (cancel_op tid w)"
  using active_current current_cancel by blast

lemma cancel_list_current:
  "current_of tid (foldl (\<lambda>w x. cancel_op x w) w xs) = (if tid \<in> set xs then None else current_of tid w)"
proof (induction xs arbitrary: w)
  case (Cons x xs)
  then show ?case by (cases "tid = x") (auto simp: current_cancel current_cancel_other)
qed simp

lemma cancel_list_active:
  "active tid (foldl (\<lambda>w x. cancel_op x w) w xs) \<longleftrightarrow> tid \<notin> set xs \<and> active tid w"
proof (induction xs arbitrary: w)
  case (Cons x xs)
  then show ?case by (cases "tid = x") (auto simp: cancel_inactive active_cancel_other)
qed simp

end

section \<open>Lemmas on the repository\<close>

lemma db_wf_subscriptions:
  "db_wf d \<Longrightarrow> distinct (map s_id t) \<Longrightarrow> unique_where sub_live s_tenant_id t \<Longrightarrow>
    references s_tenant_id t (map t_id (tenants d)) \<Longrightarrow> db_wf (d\<lparr>subscriptions := t\<rparr>)"
  by (simp add: db_wf_defs)

lemma live_update_wf:
  assumes "db_wf d" and "\<And>s. s_id (f s) = s_id s" and "\<And>s. s_tenant_id (f s) = s_tenant_id s"
  shows "db_wf (d\<lparr>subscriptions := sql_update (live_of tid) f (subscriptions d)\<rparr>)"
proof (rule db_wf_subscriptions [OF assms(1)])
  show "distinct (map s_id (sql_update (live_of tid) f (subscriptions d)))"
    using assms by (simp add: db_wf_defs table_simps)
  show "unique_where sub_live s_tenant_id (sql_update (live_of tid) f (subscriptions d))"
    using assms by (auto simp: db_wf_defs live_of_def intro!: unique_where_update)
  show "references s_tenant_id (sql_update (live_of tid) f (subscriptions d)) (map t_id (tenants d))"
    using assms by (auto simp: db_wf_defs intro!: references_update)
qed

lemma cancel_live_none [simp]: "\<not> sql_exists (live_of tid) (cancel_live tid now t)"
  by (induction t) (auto simp: cancel_live_def live_of_def sub_live_def)

lemma find_live_update_other:
  "tid' \<noteq> tid \<Longrightarrow> (\<And>s. s_tenant_id (f s) = s_tenant_id s) \<Longrightarrow>
    find (live_of tid') (sql_update (live_of tid) f t) = find (live_of tid') t"
  by (induction t) (auto simp: live_of_def)

lemma find_cancel_live_other:
  "tid' \<noteq> tid \<Longrightarrow> find (live_of tid') (cancel_live tid now t) = find (live_of tid') t"
  by (simp add: cancel_live_def find_live_update_other)

lemma cancel_current_find:
  "find_current tid' (snd (cancel_current tid now d)) = (if tid' = tid then None else find_current tid' d)"
  by (simp add: cancel_current_def find_current_def find_None_exists find_cancel_live_other)

lemma cancel_adb: "adb (cancel now tid w) = snd (cancel_current tid now (adb w))"
  by (simp add: cancel_def split: prod.splits)

interpretation license: license_port "\<lambda>tid w. find_current tid (adb w)" "port_is_active policy now" "cancel now"
  for policy now
  by unfold_locales (auto simp: port_is_active_def cancel_adb cancel_current_find split: option.splits)

lemma cancel_live_wf: "db_wf d \<Longrightarrow> db_wf (d\<lparr>subscriptions := cancel_live tid now (subscriptions d)\<rparr>)"
  unfolding cancel_live_def by (rule live_update_wf) simp_all

lemma insert_row_wf:
  assumes "db_wf d" and "tenant_exists (s_tenant_id sub) d"
    and "\<not> sql_exists (\<lambda>s. s_id s = s_id sub) (subscriptions d)"
    and "sub_live sub \<Longrightarrow> \<not> sql_exists (live_of (s_tenant_id sub)) (subscriptions d)"
  shows "db_wf (d\<lparr>subscriptions := subscriptions d @ [sub]\<rparr>)"
proof (rule db_wf_subscriptions [OF assms(1)])
  show "distinct (map s_id (subscriptions d @ [sub]))"
    by (rule distinct_key_insert [OF db_wf_sub_id [OF assms(1)] assms(3)])
  show "unique_where sub_live s_tenant_id (subscriptions d @ [sub])"
    using assms(4) by (intro unique_where_insert [OF db_wf_sub_live [OF assms(1)]])
      (auto simp: sql_exists_iff live_of_def)
  show "references s_tenant_id (subscriptions d @ [sub]) (map t_id (tenants d))"
    using assms(2) db_wf_sub_tenant [OF assms(1)] by (auto simp: tenant_exists_iff)
qed

lemma repo_create_trial_wf: "db_wf d \<Longrightarrow> repo_create_trial sub d = Inr (b, d') \<Longrightarrow> db_wf d'"
  by (auto simp: repo_create_trial_def split: if_splits intro!: insert_row_wf)
    (auto simp: sql_exists_iff live_of_def)

lemma insert_subscription_wf:
  assumes wf: "db_wf (d\<lparr>subscriptions := t\<rparr>)" and te: "tenant_exists (s_tenant_id sub) d"
    and ins: "INSERT_SUBSCRIPTION sub t = Inr t'"
  shows "db_wf (d\<lparr>subscriptions := t'\<rparr>)"
proof (cases "sub_live sub \<and> sql_exists (live_of (s_tenant_id sub)) t")
  case True
  with ins have "t' = sql_update (live_of (s_tenant_id sub))
        (\<lambda>s. s\<lparr>s_status := s_status sub, s_entitlement := s_entitlement sub,
               s_trial_expires_at := s_trial_expires_at sub,
               s_current_period_end := s_current_period_end sub,
               s_updated_at := s_updated_at sub\<rparr>) t"
    by (simp add: INSERT_SUBSCRIPTION_def)
  with live_update_wf [OF wf, of _ "s_tenant_id sub"] show ?thesis by simp
next
  case False
  with ins have t': "t' = t @ [sub]" and new: "\<not> sql_exists (\<lambda>s. s_id s = s_id sub) t"
    by (auto simp: INSERT_SUBSCRIPTION_def split: if_splits)
  then show ?thesis
    using False te insert_row_wf [OF wf, of sub] by (simp add: tenant_exists_iff)
qed

lemma repo_convert_wf:
  "db_wf d \<Longrightarrow> repo_convert_trial_to_paid tid paid now d = Inr d' \<Longrightarrow> db_wf d'"
  by (auto simp: repo_convert_trial_to_paid_def split: if_splits sum.splits
      intro: insert_subscription_wf [OF cancel_live_wf])

section \<open>Lemmas on the service\<close>

lemma foldl_cancel_current:
  "find_current tid (adb (foldl (\<lambda>w x. cancel now x w) w xs)) =
    (if tid \<in> set xs then None else find_current tid (adb w))"
  using license.cancel_list_current [of tid now w xs] by simp

lemma cancel_wf: "db_wf (adb w) \<Longrightarrow> db_wf (adb (cancel now tid w))"
  by (simp add: cancel_adb cancel_current_def cancel_live_wf)

lemma create_trial_wf: "db_wf (adb w) \<Longrightarrow> db_wf (adb (snd (create_trial policy new_id now tid w)))"
  by (auto simp: create_trial_def Let_def split: sum.splits prod.splits dest: repo_create_trial_wf)

lemma expire_overdue_wf: "db_wf (adb w) \<Longrightarrow> db_wf (adb (snd (expire_overdue policy now w)))"
  unfolding expire_overdue_def Let_def snd_conv
  by (rule foldl_invariant [where I = "\<lambda>w. db_wf (adb w)"]) (auto simp: cancel_wf)

lemma convert_wf:
  "db_wf (adb w) \<Longrightarrow> db_wf (adb (snd (convert_trial_to_paid new_id now tid st ent pe w)))"
  by (auto simp: convert_trial_to_paid_def Let_def split: sum.splits dest: repo_convert_wf)

lemma update_paid_wf: "db_wf (adb w) \<Longrightarrow> db_wf (adb (snd (update_paid now tid st ent pe w)))"
  by (simp add: update_paid_def repo_update_current_def live_update_wf)

lemma mark_past_due_wf: "db_wf (adb w) \<Longrightarrow> db_wf (adb (snd (mark_past_due now tid w)))"
  by (simp add: mark_past_due_def mark_past_due_current_def live_update_wf)

lemma sub_exec_wf: "db_wf (adb w) \<Longrightarrow> db_wf (adb (sub_exec policy c w))"
  by (cases c) (simp_all add: create_trial_wf cancel_wf expire_overdue_wf convert_wf update_paid_wf mark_past_due_wf)

lemma sub_run_wf: "db_wf (adb w) \<Longrightarrow> db_wf (adb (sub_run policy cmds w))"
  unfolding sub_run_def
  by (rule foldl_invariant [where I = "\<lambda>w. db_wf (adb w)"]) (auto simp: sub_exec_wf)

lemma live_count_le_one:
  "db_wf d \<Longrightarrow> sql_count (live_of tid) (subscriptions d) \<le> 1"
  using unique_where_at_most_one [OF db_wf_sub_live, of d tid]
  by (simp add: at_most_one_def live_of_def [abs_def])

lemma find_current_iff:
  "db_wf d \<Longrightarrow> find_current tid d = Some s \<longleftrightarrow> s \<in> set (subscriptions d) \<and> live_of tid s"
  unfolding find_current_def
  using find_unique [of "live_of tid"] live_count_le_one [of d tid] find_Some_D [of "live_of tid"]
  by (metis at_most_one_def)

section \<open>Trials\<close>

lemma trial_rows_update:
  "(\<And>s. s_tenant_id (f s) = s_tenant_id s) \<Longrightarrow>
   (\<And>s. s_trial_expires_at (f s) \<noteq> None \<Longrightarrow> s_trial_expires_at s \<noteq> None) \<Longrightarrow>
    sql_count (trial_row tid) (sql_update p f t) \<le> sql_count (trial_row tid) t"
  by (rule sql_count_update_le) (auto simp: trial_row_def)

lemma trial_rows_cancel: "trial_rows tid (cancel now x w) \<le> trial_rows tid w"
  by (auto simp: trial_rows_def cancel_adb cancel_current_def cancel_live_def intro!: trial_rows_update)

lemma trial_rows_expire: "trial_rows tid (snd (expire_overdue policy now w)) \<le> trial_rows tid w"
  unfolding expire_overdue_def Let_def snd_conv
  by (rule foldl_invariant [where I = "\<lambda>w'. trial_rows tid w' \<le> trial_rows tid w"])
    (auto intro: order_trans [OF trial_rows_cancel])

lemma trial_rows_convert:
  "trial_rows tid (snd (convert_trial_to_paid new_id now x st ent pe w)) \<le> trial_rows tid w"
proof -
  let ?c = "cancel_live x now (subscriptions (adb w))"
  have 1: "sql_count (trial_row tid) ?c \<le> sql_count (trial_row tid) (subscriptions (adb w))"
    unfolding cancel_live_def by (rule trial_rows_update) auto
  have 2: "INSERT_SUBSCRIPTION paid ?c = Inr t \<Longrightarrow> s_trial_expires_at paid = None \<Longrightarrow>
      sql_count (trial_row tid) t \<le> sql_count (trial_row tid) ?c" for paid t
    by (auto simp: INSERT_SUBSCRIPTION_def trial_row_def split: if_splits intro!: sql_count_update_le)
  show ?thesis
    using 1 by (auto simp: convert_trial_to_paid_def repo_convert_trial_to_paid_def Let_def trial_rows_def
        split: sum.splits dest!: 2)
qed

lemma trial_rows_create:
  "trial_rows tid w \<le> 1 \<Longrightarrow> trial_rows tid (snd (create_trial policy new_id now x w)) \<le> 1"
proof (cases "sql_exists (\<lambda>s. s_tenant_id s = x) (subscriptions (adb w))")
  case False
  then have "sql_count (trial_row x) (subscriptions (adb w)) = 0"
    by (auto simp: sql_count_zero_iff sql_exists_iff trial_row_def)
  moreover assume "trial_rows tid w \<le> 1"
  ultimately show ?thesis
    by (auto simp: create_trial_def repo_create_trial_def Let_def trial_rows_def trial_row_def split: sum.splits)
qed (simp add: create_trial_def repo_create_trial_def Let_def)

lemma trial_rows_exec:
  assumes "trial_rows tid w \<le> 1" shows "trial_rows tid (sub_exec policy c w) \<le> 1"
proof (cases c)
  case (UpdatePaid now x st ent pe)
  then show ?thesis using assms
    by (auto simp: update_paid_def repo_update_current_def trial_rows_def
        intro!: order_trans [OF trial_rows_update])
next
  case (MarkPastDue now x)
  then show ?thesis using assms
    by (auto simp: mark_past_due_def mark_past_due_current_def trial_rows_def
        intro!: order_trans [OF trial_rows_update])
qed (use assms in \<open>auto intro: order_trans [OF trial_rows_cancel] order_trans [OF trial_rows_expire]
      order_trans [OF trial_rows_convert] trial_rows_create [simplified]\<close>)

section \<open>Grace windows\<close>

definition deadline :: "subscription \<Rightarrow> instant option" where
  "deadline s = (case s_status s of Trialing \<Rightarrow> s_trial_expires_at s
     | PastDue \<Rightarrow> s_current_period_end s | _ \<Rightarrow> None)"

definition overdue_at :: "trial_policy \<Rightarrow> instant \<Rightarrow> subscription \<Rightarrow> bool" where
  "overdue_at policy now s =
     overdue (now - days (trial_grace_days policy)) (now - days (payment_grace_days policy)) s"

lemma overdue_not_active: "overdue_at policy now s \<Longrightarrow> \<not> sub_is_active policy now s"
  by (auto simp: overdue_at_def overdue_def before_def sub_is_active_def split: option.splits)

lemma lapsed_overdue:
  "sub_live s \<Longrightarrow> \<not> sub_is_active policy now s \<Longrightarrow> deadline s \<noteq> None \<Longrightarrow> now < later \<Longrightarrow>
    overdue_at policy later s"
  by (auto simp: overdue_at_def overdue_def before_def sub_is_active_def sub_live_def deadline_def
      split: option.splits subscription_status.splits)

lemma overdue_live: "overdue_at policy now s \<Longrightarrow> sub_live s"
  by (auto simp: overdue_at_def overdue_def sub_live_def)

lemma list_overdue_iff:
  assumes "db_wf d" and "find_current tid d = Some s"
  shows "tid \<in> set (list_overdue (now - days (trial_grace_days policy))
      (now - days (payment_grace_days policy)) d) \<longleftrightarrow> overdue_at policy now s"
proof
  assume "overdue_at policy now s"
  moreover have "s \<in> set (subscriptions d)" "s_tenant_id s = tid"
    using assms find_current_iff by (auto simp: live_of_def)
  ultimately show "tid \<in> set (list_overdue (now - days (trial_grace_days policy))
      (now - days (payment_grace_days policy)) d)"
    by (auto simp: list_overdue_def overdue_at_def)
next
  assume "tid \<in> set (list_overdue (now - days (trial_grace_days policy))
      (now - days (payment_grace_days policy)) d)"
  then obtain r where r: "r \<in> set (subscriptions d)" "s_tenant_id r = tid" "overdue_at policy now r"
    by (auto simp: list_overdue_def overdue_at_def)
  then have "find_current tid d = Some r"
    using assms(1) find_current_iff overdue_live by (auto simp: live_of_def)
  with assms r show "overdue_at policy now s" by simp
qed

section \<open>History\<close>

definition has_history :: "string \<Rightarrow> authority \<Rightarrow> bool" where
  "has_history tid w = sql_exists (\<lambda>s. s_tenant_id s = tid) (subscriptions (adb w))"

lemma exists_tenant_update:
  "(\<And>s. s_tenant_id (f s) = s_tenant_id s) \<Longrightarrow>
    sql_exists (\<lambda>s. s_tenant_id s = tid) (sql_update p f t) = sql_exists (\<lambda>s. s_tenant_id s = tid) t"
  by (induction t) auto

lemma has_history_cancel [simp]: "has_history tid (cancel now x w) = has_history tid w"
  by (simp add: has_history_def cancel_adb cancel_current_def cancel_live_def exists_tenant_update)

lemma has_history_expire [simp]: "has_history tid (snd (expire_overdue policy now w)) = has_history tid w"
  unfolding expire_overdue_def Let_def snd_conv
  by (rule foldl_invariant [where I = "\<lambda>w'. has_history tid w' = has_history tid w"]) auto

lemma has_history_create:
  "has_history tid w \<Longrightarrow> has_history tid (snd (create_trial policy new_id now x w))"
  by (auto simp: create_trial_def repo_create_trial_def has_history_def Let_def split: sum.splits)

lemma has_history_convert:
  "has_history tid w \<Longrightarrow> has_history tid (snd (convert_trial_to_paid new_id now x st ent pe w))"
proof -
  assume h: "has_history tid w"
  have "sql_exists (\<lambda>s. s_tenant_id s = tid) (cancel_live x now (subscriptions (adb w)))"
    using h by (simp add: has_history_def cancel_live_def exists_tenant_update)
  then have "INSERT_SUBSCRIPTION paid (cancel_live x now (subscriptions (adb w))) = Inr t \<Longrightarrow>
      sql_exists (\<lambda>s. s_tenant_id s = tid) t" for paid t
    by (auto simp: INSERT_SUBSCRIPTION_def exists_tenant_update split: if_splits)
  then show ?thesis using h
    by (auto simp: convert_trial_to_paid_def repo_convert_trial_to_paid_def has_history_def Let_def
        split: sum.splits)
qed

lemma has_history_exec: "has_history tid w \<Longrightarrow> has_history tid (sub_exec policy c w)"
proof (cases c)
  case (UpdatePaid now x st ent pe)
  moreover assume "has_history tid w"
  ultimately show ?thesis
    by (simp add: update_paid_def repo_update_current_def has_history_def exists_tenant_update)
next
  case (MarkPastDue now x)
  moreover assume "has_history tid w"
  ultimately show ?thesis
    by (simp add: mark_past_due_def mark_past_due_current_def has_history_def exists_tenant_update)
qed (simp_all add: has_history_create has_history_convert)

lemma has_history_run: "has_history tid w \<Longrightarrow> has_history tid (sub_run policy cmds w)"
  unfolding sub_run_def
  by (rule foldl_invariant [where I = "has_history tid"]) (auto simp: has_history_exec)

lemma create_trial_with_history:
  "has_history tid w \<Longrightarrow> create_trial policy new_id now tid w = (Inr False, w)"
  by (simp add: create_trial_def repo_create_trial_def has_history_def Let_def)

lemma create_trial_True_history:
  "create_trial policy new_id now tid w = (Inr True, w') \<Longrightarrow> has_history tid w'"
  by (auto simp: create_trial_def repo_create_trial_def has_history_def Let_def split: sum.splits if_splits)

section \<open>Conversion\<close>

lemma insert_after_cancel:
  assumes "sub_live paid" and "s_tenant_id paid = tid"
    and "INSERT_SUBSCRIPTION paid (cancel_live tid now t) = Inr t'"
  shows "t' = cancel_live tid now t @ [paid]"
  using assms by (auto simp: INSERT_SUBSCRIPTION_def split: if_splits)

lemma convert_find_current:
  assumes "st \<noteq> Canceled" and "convert_trial_to_paid new_id now tid st ent pe w = (Inr (), w')"
  shows "find_current tid (adb w') =
      Some \<lparr>s_id = new_id, s_tenant_id = tid, s_status = st, s_entitlement = ent,
            s_trial_expires_at = None, s_current_period_end = pe, s_created_at = now, s_updated_at = now\<rparr>"
    and "tid' \<noteq> tid \<Longrightarrow> find_current tid' (adb w') = find_current tid' (adb w)"
proof -
  let ?paid = "\<lparr>s_id = new_id, s_tenant_id = tid, s_status = st, s_entitlement = ent,
    s_trial_expires_at = None, s_current_period_end = pe, s_created_at = now, s_updated_at = now\<rparr>"
  from assms(2) obtain t where ins: "INSERT_SUBSCRIPTION ?paid (cancel_live tid now (subscriptions (adb w))) = Inr t"
    and w': "w' = w\<lparr>adb := (adb w)\<lparr>subscriptions := t\<rparr>\<rparr>"
    by (auto simp: convert_trial_to_paid_def repo_convert_trial_to_paid_def Let_def split: sum.splits if_splits)
  have live: "live_of tid ?paid" using assms(1) by (simp add: live_of_def sub_live_def)
  have t: "t = cancel_live tid now (subscriptions (adb w)) @ [?paid]"
    using live by (intro insert_after_cancel [OF _ _ ins]) (auto simp: live_of_def)
  have none: "find (live_of tid) (cancel_live tid now (subscriptions (adb w))) = None"
    by (simp add: find_None_exists)
  show "find_current tid (adb w') = Some ?paid"
    using live none by (simp add: w' t find_current_def find_append)
  show "tid' \<noteq> tid \<Longrightarrow> find_current tid' (adb w') = find_current tid' (adb w)"
    by (simp add: w' t find_current_def find_append find_cancel_live_other live_of_def split: option.split)
qed

section \<open>Published events of the reaper\<close>

lemma cancel_live_exists_other:
  "x \<noteq> tid \<Longrightarrow> sql_exists (live_of x) (subscriptions (adb (cancel now tid w))) =
    sql_exists (live_of x) (subscriptions (adb w))"
  unfolding find_Some_exists [symmetric]
  by (simp add: cancel_adb cancel_current_def find_cancel_live_other)

lemma cancel_publishes:
  "network_queue (cancel now tid w) = network_queue w @
     (if sql_exists (live_of tid) (subscriptions (adb w)) then [SubscriptionDeactivated tid] else [])"
  by (simp add: cancel_def cancel_current_def)

lemma cancel_list_publishes:
  "distinct xs \<Longrightarrow> \<forall>x \<in> set xs. sql_exists (live_of x) (subscriptions (adb w)) \<Longrightarrow>
    network_queue (foldl (\<lambda>w x. cancel now x w) w xs) = network_queue w @ map SubscriptionDeactivated xs"
proof (induction xs arbitrary: w)
  case (Cons x xs)
  have "\<forall>y \<in> set xs. sql_exists (live_of y) (subscriptions (adb (cancel now x w)))"
    using Cons.prems by (metis cancel_live_exists_other distinct.simps(2) list.set_intros(2))
  with Cons show ?case by (simp add: cancel_publishes)
qed simp

lemma list_overdue_distinct:
  assumes "db_wf d" shows "distinct (list_overdue tc pc d)"
proof -
  have "filter (overdue tc pc) (subscriptions d) = filter (overdue tc pc) (filter sub_live (subscriptions d))"
    by (auto simp: overdue_def sub_live_def intro!: filter_cong)
  moreover have "distinct (map s_tenant_id (filter P (filter sub_live (subscriptions d))))" for P
    using db_wf_sub_live [OF assms] unfolding unique_where_def by (rule distinct_map_filter)
  ultimately show ?thesis by (simp add: list_overdue_def)
qed

lemma list_overdue_live:
  "x \<in> set (list_overdue tc pc d) \<Longrightarrow> sql_exists (live_of x) (subscriptions d)"
  by (auto simp: list_overdue_def overdue_def sql_exists_iff live_of_def sub_live_def)

section \<open>Properties\<close>

definition ex_policy :: trial_policy where
  "ex_policy = \<lparr>trial_days = 14, trial_grace_days = 3, payment_grace_days = 7\<rparr>"

definition ex_tenant :: tenant where
  "ex_tenant = \<lparr>t_id = ''t1'', t_email = ''a@b.c'', t_created_at = 0, t_deregistered_at = None\<rparr>"

definition ex_authority :: authority where
  "ex_authority = start (empty_db\<lparr>tenants := [ex_tenant]\<rparr>)"

definition ex_trial :: authority where
  "ex_trial = snd (create_trial ex_policy ''s1'' 0 ''t1'' ex_authority)"

lemmas ex_defs = ex_policy_def ex_tenant_def ex_authority_def start_def empty_db_def

text \<open>For every sequence of license commands, all schema constraints survive and no tenant ever has two
  live (non-cancelled) subscriptions.\<close>

theorem one_live_subscription:
  assumes "db_wf (adb w)"
  shows "db_wf (adb (sub_run policy cmds w)) \<and>
    sql_count (live_of tid) (subscriptions (adb (sub_run policy cmds w))) \<le> 1"
  using sub_run_wf [OF assms] live_count_le_one by blast

theorem one_live_subscription_witness:
  "sql_count (live_of ''t1'') (subscriptions (adb (sub_run ex_policy
     [CreateTrial ''s1'' 0 ''t1'',
      ConvertTrialToPaid ''s2'' 5 ''t1'' SubActive entitlement_DEFAULT None] ex_authority))) \<le> 1"
proof -
  have "db_wf (adb ex_authority)" by (simp add: ex_defs db_wf_defs unique_where_def)
  then show ?thesis using one_live_subscription by blast
qed

text \<open>C22. Once a trial was opened for a tenant, no sequence of license commands lets a second one be opened:
  a later \<open>create_trial\<close> reports that nothing was created and changes nothing.\<close>

theorem trial_never_reopened:
  assumes "create_trial policy new_id now tid w = (Inr True, w')"
  shows "create_trial policy new_id' now' tid (sub_run policy cmds w') = (Inr False, sub_run policy cmds w')"
  by (rule create_trial_with_history [OF has_history_run [OF create_trial_True_history [OF assms]]])

theorem trial_never_reopened_witness:
  "create_trial ex_policy ''s9'' 99 ''t1'' (sub_run ex_policy [Cancel 7 ''t1''] ex_trial) =
     (Inr False, sub_run ex_policy [Cancel 7 ''t1''] ex_trial)"
proof -
  have "create_trial ex_policy ''s1'' 0 ''t1'' ex_authority = (Inr True, ex_trial)"
    by (simp add: ex_trial_def create_trial_def repo_create_trial_def tenant_exists_def ex_defs Let_def)
  then show ?thesis by (rule trial_never_reopened)
qed

text \<open>The reaper cancels the current subscription of exactly the tenants whose row is overdue, leaves every
  other tenant's current subscription as it was, reports how many it cancelled, and publishes exactly one
  deactivation per cancelled tenant.\<close>

theorem expire_overdue_spec:
  assumes "db_wf (adb w)" and "expire_overdue policy now w = (n, w')"
  shows "find_current tid (adb w') =
      (case find_current tid (adb w) of None \<Rightarrow> None
       | Some s \<Rightarrow> if overdue_at policy now s then None else Some s) \<and>
    (\<exists>xs. distinct xs \<and> length xs = n \<and>
       network_queue w' = network_queue w @ map SubscriptionDeactivated xs \<and>
       (tid \<in> set xs \<longleftrightarrow> (\<exists>s. find_current tid (adb w) = Some s \<and> overdue_at policy now s)))"
proof -
  let ?xs = "list_overdue (now - days (trial_grace_days policy)) (now - days (payment_grace_days policy)) (adb w)"
  from assms(2) have w': "w' = foldl (\<lambda>w x. cancel now x w) w ?xs" and n: "n = length ?xs"
    by (auto simp: expire_overdue_def Let_def)
  have mem: "tid \<in> set ?xs \<longleftrightarrow> (\<exists>s. find_current tid (adb w) = Some s \<and> overdue_at policy now s)"
  proof (cases "find_current tid (adb w)")
    case None
    then have "\<not> sql_exists (live_of tid) (subscriptions (adb w))"
      by (simp add: find_current_def find_None_exists)
    with None list_overdue_live show ?thesis by auto
  next
    case (Some s)
    then show ?thesis using list_overdue_iff [OF assms(1) Some] by simp
  qed
  have "network_queue w' = network_queue w @ map SubscriptionDeactivated ?xs"
    unfolding w' by (rule cancel_list_publishes) (auto simp: list_overdue_distinct assms(1) list_overdue_live)
  moreover have "find_current tid (adb w') = (if tid \<in> set ?xs then None else find_current tid (adb w))"
    by (simp add: w' foldl_cancel_current)
  ultimately show ?thesis
    using mem n list_overdue_distinct [OF assms(1)]
    by (intro conjI exI [of _ ?xs]) (auto split: option.splits)
qed

theorem expire_overdue_spec_witness:
  "find_current ''t1'' (adb (snd (expire_overdue ex_policy (days 18) ex_trial))) = None"
proof -
  have t: "ex_trial = ex_authority\<lparr>adb := (adb ex_authority)\<lparr>subscriptions :=
      [\<lparr>s_id = ''s1'', s_tenant_id = ''t1'', s_status = Trialing, s_entitlement = entitlement_DEFAULT,
        s_trial_expires_at = Some (days 14), s_current_period_end = None, s_created_at = 0,
        s_updated_at = 0\<rparr>]\<rparr>\<rparr>"
    by (simp add: ex_trial_def create_trial_def repo_create_trial_def tenant_exists_def ex_defs Let_def)
  have wf: "db_wf (adb ex_trial)" by (simp add: t ex_defs db_wf_defs unique_where_def)
  obtain n w' where e: "expire_overdue ex_policy (days 18) ex_trial = (n, w')" by fastforce
  have "find_current ''t1'' (adb w') = (case find_current ''t1'' (adb ex_trial) of None \<Rightarrow> None
       | Some s \<Rightarrow> if overdue_at ex_policy (days 18) s then None else Some s)"
    by (rule conjunct1 [OF expire_overdue_spec [OF wf e]])
  also have "\<dots> = None"
    by (simp add: t ex_defs find_current_def live_of_def sub_live_def overdue_at_def overdue_def before_def
        days_def secs_def)
  finally show ?thesis by (simp add: e)
qed

text \<open>The grace-aware gate and the reaper agree. A tenant the gate admits is never cancelled by a reaper run
  at that instant; a tenant the gate refuses, whose row carries the deadline of its status, is cancelled by
  every later reaper run.\<close>

theorem grace_gate_and_reaper:
  assumes "db_wf (adb w)" and "find_current tid (adb w) = Some s"
  shows "(port_is_active policy now tid w \<longrightarrow>
        find_current tid (adb (snd (expire_overdue policy now w))) = Some s) \<and>
    (\<not> port_is_active policy now tid w \<and> deadline s \<noteq> None \<and> now < later \<longrightarrow>
        find_current tid (adb (snd (expire_overdue policy later w))) = None)"
proof -
  have a: "port_is_active policy now tid w = sub_is_active policy now s"
    using assms(2) by (simp add: port_is_active_def)
  have live: "sub_live s" using assms find_current_iff by (auto simp: live_of_def)
  have e: "find_current tid (adb (snd (expire_overdue policy t w))) =
      (if overdue_at policy t s then None else Some s)" for t
    using list_overdue_iff [OF assms, of t policy] assms(2)
    by (simp add: expire_overdue_def Let_def foldl_cancel_current)
  show ?thesis
    using overdue_not_active [of policy now s] lapsed_overdue [OF live, of policy now later]
    by (auto simp: a e)
qed

theorem grace_gate_and_reaper_witness:
  "find_current ''t1'' (adb (snd (expire_overdue ex_policy (days 18) ex_trial))) = None"
proof -
  let ?s = "\<lparr>s_id = ''s1'', s_tenant_id = ''t1'', s_status = Trialing, s_entitlement = entitlement_DEFAULT,
        s_trial_expires_at = Some (days 14), s_current_period_end = None, s_created_at = 0, s_updated_at = 0\<rparr>"
  have t: "ex_trial = ex_authority\<lparr>adb := (adb ex_authority)\<lparr>subscriptions := [?s]\<rparr>\<rparr>"
    by (simp add: ex_trial_def create_trial_def repo_create_trial_def tenant_exists_def ex_defs Let_def)
  have wf: "db_wf (adb ex_trial)" by (simp add: t ex_defs db_wf_defs unique_where_def)
  have cur: "find_current ''t1'' (adb ex_trial) = Some ?s"
    by (simp add: t ex_defs find_current_def live_of_def sub_live_def)
  show ?thesis
    using grace_gate_and_reaper [OF wf cur, of ex_policy "days 17" "days 18"]
    by (simp add: port_is_active_def cur sub_is_active_def deadline_def ex_policy_def days_def secs_def)
qed

text \<open>A past-due row without a period end is refused by the gate at every instant and is never overdue: a
  trial flagged past due, which has no period end, keeps its row and its networks for ever.\<close>

theorem past_due_without_period_stuck:
  assumes "create_trial policy new_id now tid w = (Inr True, w')" and "db_wf (adb w)"
    and "mark_past_due now' tid w' = (b, w'')"
  shows "b \<and> \<not> port_is_active policy later tid w'' \<and>
    find_current tid (adb (snd (expire_overdue policy later w''))) = find_current tid (adb w'') \<and>
    find_current tid (adb w'') \<noteq> None"
proof -
  let ?s = "\<lparr>s_id = new_id, s_tenant_id = tid, s_status = Trialing, s_entitlement = entitlement_DEFAULT,
        s_trial_expires_at = Some (now + days (trial_days policy)), s_current_period_end = None,
        s_created_at = now, s_updated_at = now\<rparr>"
  from assms(1) have none: "\<not> sql_exists (\<lambda>s. s_tenant_id s = tid) (subscriptions (adb w))"
    and w': "w' = w\<lparr>adb := (adb w)\<lparr>subscriptions := subscriptions (adb w) @ [?s]\<rparr>\<rparr>"
    by (auto simp: create_trial_def repo_create_trial_def Let_def split: if_splits sum.splits)
  have old: "\<not> sql_exists (live_of tid) (subscriptions (adb w))"
    using none by (auto simp: sql_exists_iff live_of_def)
  let ?s' = "?s\<lparr>s_status := PastDue, s_updated_at := now'\<rparr>"
  from assms(3) have b: b and w'': "w'' = w'\<lparr>adb := (adb w')\<lparr>subscriptions := subscriptions (adb w) @ [?s']\<rparr>\<rparr>"
    by (auto simp: mark_past_due_def mark_past_due_current_def w' sql_update_none [OF old] live_of_def sub_live_def)
  have cur: "find_current tid (adb w'') = Some ?s'"
    using old unfolding find_None_exists [symmetric]
    by (simp add: w'' find_current_def find_append live_of_def sub_live_def)
  have "db_wf (adb w'')"
    using create_trial_wf [OF assms(2), of policy new_id now tid] mark_past_due_wf [of w' now' tid] assms(1,3) by simp
  then have "find_current tid (adb (snd (expire_overdue policy later w''))) = Some ?s'"
    using list_overdue_iff [OF _ cur, of later policy]
    by (simp add: expire_overdue_def Let_def foldl_cancel_current cur overdue_at_def overdue_def before_def)
  then show ?thesis using b by (simp add: cur port_is_active_def sub_is_active_def)
qed

theorem past_due_without_period_stuck_witness:
  "\<not> port_is_active ex_policy (days 9999) ''t1'' (snd (mark_past_due 5 ''t1'' ex_trial)) \<and>
    find_current ''t1'' (adb (snd (expire_overdue ex_policy (days 9999)
      (snd (mark_past_due 5 ''t1'' ex_trial))))) \<noteq> None"
proof -
  have c: "create_trial ex_policy ''s1'' 0 ''t1'' ex_authority = (Inr True, ex_trial)"
    by (simp add: ex_trial_def create_trial_def repo_create_trial_def tenant_exists_def ex_defs Let_def)
  have wf: "db_wf (adb ex_authority)" by (simp add: ex_defs db_wf_defs unique_where_def)
  obtain b w where m: "mark_past_due 5 ''t1'' ex_trial = (b, w)" by fastforce
  show ?thesis
    using past_due_without_period_stuck [OF c wf m, of "days 9999"] by (simp add: m)
qed

text \<open>Converting to a paid plan replaces the tenant's current subscription by the paid row with exactly the
  provider's status, entitlement and period, keeps one live row, and leaves other tenants alone.\<close>

theorem convert_trial_to_paid_current:
  assumes "db_wf (adb w)" and "st \<noteq> Canceled"
    and "convert_trial_to_paid new_id now tid st ent pe w = (Inr (), w')"
  shows "map_option (\<lambda>s. (s_status s, s_entitlement s, s_current_period_end s)) (find_current tid (adb w')) =
      Some (st, ent, pe) \<and>
    sql_count (live_of tid) (subscriptions (adb w')) = 1 \<and>
    (\<forall>tid'. tid' \<noteq> tid \<longrightarrow> find_current tid' (adb w') = find_current tid' (adb w))"
proof -
  have wf: "db_wf (adb w')" using convert_wf [OF assms(1), of new_id now tid st ent pe] assms(3) by simp
  have cur: "find_current tid (adb w') \<noteq> None" using convert_find_current(1) [OF assms(2,3)] by simp
  then have "sql_count (live_of tid) (subscriptions (adb w')) \<noteq> 0"
    by (simp add: sql_count_zero_iff find_current_def find_None_exists)
  with live_count_le_one [OF wf, of tid] show ?thesis
    using convert_find_current [OF assms(2,3)] by auto
qed

theorem convert_trial_to_paid_current_witness:
  "sql_count (live_of ''t1'') (subscriptions (adb (snd
     (convert_trial_to_paid ''s2'' 5 ''t1'' SubActive entitlement_DEFAULT None ex_trial)))) = 1"
proof -
  have wf: "db_wf (adb ex_authority)" by (simp add: ex_defs db_wf_defs unique_where_def)
  then have "db_wf (adb ex_trial)" unfolding ex_trial_def by (rule create_trial_wf)
  moreover have "convert_trial_to_paid ''s2'' 5 ''t1'' SubActive entitlement_DEFAULT None ex_trial =
     (Inr (), snd (convert_trial_to_paid ''s2'' 5 ''t1'' SubActive entitlement_DEFAULT None ex_trial))"
    by (simp add: ex_trial_def create_trial_def repo_create_trial_def tenant_exists_def ex_defs Let_def
        convert_trial_to_paid_def repo_convert_trial_to_paid_def INSERT_SUBSCRIPTION_def cancel_live_def live_of_def
        sub_live_def)
  ultimately show ?thesis using convert_trial_to_paid_current by blast
qed

end
