(* ===== verification/Tenants_Service.thy ===== *)
theory Tenants_Service
  imports Tenant_Repos Subscriptions Validation Auth
begin

text \<open>
  The tenant aggregate's business rules (\<open>tenants/src/service.rs\<close>), its error mapping
  (\<open>error.rs\<close>), and its reactor. The handlers over it are in \<open>Tenants_Api\<close>. Fresh ids,
  the clock and the random indices of a code are arguments; the hash, base64, JWT and e-mail providers
  and the configured regions are the environment record. The license is read through the port
  functions of the license aggregate.

  The lemmas give the constraints kept by every operation, the conditions under which a credential is
  minted and the network life cycle; \<open>Tenants_Props\<close> states the properties.
\<close>

section \<open>Errors\<close>

datatype tenants_error =
    TNotFound string | TConflict string | TEntitlementExceeded string | TForbidden string
  | TBadRequest string | TBadCode string | TRateLimited string | TInternal string

fun tenants_api_error :: "tenants_error \<Rightarrow> api_error" where
  "tenants_api_error (TNotFound m) = NotFound m"
| "tenants_api_error (TConflict m) = Conflict m"
| "tenants_api_error (TEntitlementExceeded m) = Conflict m"
| "tenants_api_error (TForbidden m) = Forbidden m"
| "tenants_api_error (TBadRequest m) = BadRequest m"
| "tenants_api_error (TBadCode m) = Unauthorized m"
| "tenants_api_error (TRateLimited m) = TooManyRequests m"
| "tenants_api_error (TInternal e) = Internal e"

section \<open>Environment and constants\<close>

record tenants_env =
  env_policy :: trial_policy
  env_regions :: "string list"
  env_crypto :: crypto
  env_jwt_encode :: "claims \<Rightarrow> string + string"
  env_send_code :: "string \<Rightarrow> string \<Rightarrow> code_purpose \<Rightarrow> string + unit"
  env_email_delivers :: bool

definition IDENTITY_JWT_TTL_SECS :: int where "IDENTITY_JWT_TTL_SECS = 3600"

definition CODE_TTL_SECS :: int where "CODE_TTL_SECS = 300"

definition PENDING_TTL_SECS :: int where "PENDING_TTL_SECS = 900"

definition CODE_REQUESTS_PER_IP_PER_HOUR :: nat where "CODE_REQUESTS_PER_IP_PER_HOUR = 10"

definition CODE_ALPHABET :: string where "CODE_ALPHABET = ''ABCDEFGHJKLMNPQRSTUVWXYZ23456789''"

definition hash_code :: "tenants_env \<Rightarrow> string \<Rightarrow> string" where
  "hash_code env code = sha256_hex (env_crypto env) code"

definition generate_code :: "tenants_env \<Rightarrow> nat list \<Rightarrow> string \<times> string" where
  "generate_code env picks =
     (let code = map (\<lambda>i. CODE_ALPHABET ! i) picks in (code, hash_code env code))"

definition svc_normalize_email :: "string \<Rightarrow> tenants_error + string" where
  "svc_normalize_email email =
     (case normalize_email email of Inl m \<Rightarrow> Inl (TBadRequest m) | Inr e \<Rightarrow> Inr e)"

section \<open>Account plane\<close>

definition register_tenant ::
  "string \<Rightarrow> instant \<Rightarrow> string \<Rightarrow> authority \<Rightarrow> (tenants_error + tenant) \<times> authority" where
  "register_tenant new_id now email w =
     (case svc_normalize_email email of
        Inl e \<Rightarrow> (Inl e, w)
      | Inr e \<Rightarrow>
          let t = \<lparr>t_id = new_id, t_email = e, t_created_at = now, t_deregistered_at = None\<rparr> in
          (case tenant_create t (adb w) of
             Inl err \<Rightarrow> (Inl (TInternal err), w)
           | Inr (TenantInserted, d) \<Rightarrow> (Inr t, publish (TenantCreated new_id) (w\<lparr>adb := d\<rparr>))
           | Inr (EmailTaken, d) \<Rightarrow>
               (Inl (TConflict ''a tenant already exists for that email''), w\<lparr>adb := d\<rparr>)))"

definition find_tenant_by_email :: "string \<Rightarrow> authority \<Rightarrow> tenants_error + tenant option" where
  "find_tenant_by_email email w =
     (case svc_normalize_email email of
        Inl e \<Rightarrow> Inl e | Inr e \<Rightarrow> Inr (tenant_find_by_email e (adb w)))"

definition tenant_is_live :: "string \<Rightarrow> authority \<Rightarrow> bool" where
  "tenant_is_live x w = (case tenant_find_by_id x (adb w) of None \<Rightarrow> False | Some t \<Rightarrow> tenant_live t)"

definition consume_code ::
  "tenants_env \<Rightarrow> instant \<Rightarrow> string \<Rightarrow> code_purpose \<Rightarrow> authority \<Rightarrow> string option \<times> authority" where
  "consume_code env now code purpose w =
     (case repo_consume_code (hash_code env code) (purpose_as_str purpose) now (adb w) of
        (email, d) \<Rightarrow> (email, w\<lparr>adb := d\<rparr>))"

definition deprovision_networks_for :: "instant \<Rightarrow> string \<Rightarrow> authority \<Rightarrow> authority" where
  "deprovision_networks_for now x w = w\<lparr>adb := snd (set_deprovisioning_for_tenant now x (adb w))\<rparr>"

definition deregister_tenant :: "instant \<Rightarrow> string \<Rightarrow> authority \<Rightarrow> (tenants_error + bool) \<times> authority" where
  "deregister_tenant now x w =
     (if tenant_find_by_id x (adb w) = None then (Inl (TNotFound ''no such tenant''), w)
      else case set_deregistered now x (adb w) of
             (False, d) \<Rightarrow> (Inr False, w\<lparr>adb := d\<rparr>)
           | (True, d) \<Rightarrow> (Inr True, publish (TenantDeregistered x) (w\<lparr>adb := d\<rparr>)))"

definition list_live_tenant_ids :: "authority \<Rightarrow> string list" where
  "list_live_tenant_ids w = list_live_ids (adb w)"

definition sweep_deregistered :: "authority \<Rightarrow> nat \<times> authority" where
  "sweep_deregistered w = (case delete_tombstoned_empty (adb w) of (n, d) \<Rightarrow> (n, w\<lparr>adb := d\<rparr>))"

definition list_networks :: "string \<Rightarrow> authority \<Rightarrow> network list" where
  "list_networks x w = network_list_by_tenant x (adb w)"

definition find_network :: "string \<Rightarrow> authority \<Rightarrow> network option" where
  "find_network nid w = network_find_by_id nid (adb w)"

definition find_tenant :: "string \<Rightarrow> authority \<Rightarrow> tenant option" where
  "find_tenant x w = tenant_find_by_id x (adb w)"

definition list_tenant_daemons :: "string \<Rightarrow> authority \<Rightarrow> daemon list" where
  "list_tenant_daemons x w = daemon_list_by_tenant x (adb w)"

definition list_network_daemons :: "string \<Rightarrow> string \<Rightarrow> authority \<Rightarrow> tenants_error + daemon list" where
  "list_network_daemons x nid w =
     (case network_find_by_id nid (adb w) of
        None \<Rightarrow> Inl (TNotFound ''no such network'')
      | Some n \<Rightarrow> if n_tenant_id n = x then Inr (daemon_list_by_network (n_id n) (adb w))
                  else Inl (TNotFound ''no such network''))"

definition delete_network ::
  "instant \<Rightarrow> string \<Rightarrow> string \<Rightarrow> authority \<Rightarrow> (tenants_error + unit) \<times> authority" where
  "delete_network now x slug w =
     (case network_find_by_slug slug (adb w) of
        None \<Rightarrow> (Inl (TNotFound ''no such network''), w)
      | Some n \<Rightarrow>
          if n_tenant_id n \<noteq> x then (Inl (TNotFound ''no such network''), w)
          else if n_provisioning_state n \<noteq> Deprovisioning
          then (Inr (), w\<lparr>adb := snd (set_deprovisioning now (n_id n) (adb w))\<rparr>)
          else (Inr (), w))"

definition remove_daemon :: "string \<Rightarrow> string \<Rightarrow> authority \<Rightarrow> authority" where
  "remove_daemon pk nid w = w\<lparr>adb := snd (daemon_remove pk nid (adb w))\<rparr>"

section \<open>Enrollment plane\<close>

definition issue_signup_code ::
  "tenants_env \<Rightarrow> instant \<Rightarrow> nat list \<Rightarrow> string \<Rightarrow> string \<Rightarrow> code_purpose \<Rightarrow> authority
    \<Rightarrow> (tenants_error + string) \<times> authority" where
  "issue_signup_code env now picks email remote_ip purpose w =
     (case svc_normalize_email email of
        Inl e \<Rightarrow> (Inl e, w)
      | Inr e \<Rightarrow>
          if count_code_requests_from_ip remote_ip (now - hours 1) (adb w) \<ge> CODE_REQUESTS_PER_IP_PER_HOUR
          then (Inl (TRateLimited ''too many code requests; try again later''), w)
          else let w1 = w\<lparr>adb := log_code_request remote_ip now (adb w)\<rparr>;
                   (code, code_hash) = generate_code env picks in
               (case issue_code code_hash e None (purpose_as_str purpose) (now + secs CODE_TTL_SECS) (adb w1) of
                  Inl err \<Rightarrow> (Inl (TInternal err), w1)
                | Inr d \<Rightarrow>
                    (case env_send_code env e code purpose of
                       Inl err \<Rightarrow> (Inl (TInternal err), w1\<lparr>adb := d\<rparr>)
                     | Inr _ \<Rightarrow> (Inr code, w1\<lparr>adb := d\<rparr>))))"

definition issue_tenant_code ::
  "tenants_env \<Rightarrow> instant \<Rightarrow> nat list \<Rightarrow> string \<Rightarrow> authority \<Rightarrow> (tenants_error + string) \<times> authority" where
  "issue_tenant_code env now picks x w =
     (case tenant_find_by_id x (adb w) of
        None \<Rightarrow> (Inl (TNotFound ''no such tenant''), w)
      | Some t \<Rightarrow>
          if \<not> tenant_live t then (Inl (TForbidden ''tenant is deregistered''), w)
          else let (code, code_hash) = generate_code env picks in
               (case issue_code code_hash (t_email t) (Some x) (purpose_as_str Enrollment)
                       (now + secs CODE_TTL_SECS) (adb w) of
                  Inl err \<Rightarrow> (Inl (TInternal err), w)
                | Inr d \<Rightarrow>
                    (case env_send_code env (t_email t) code Enrollment of
                       Inl err \<Rightarrow> (Inl (TInternal err), w\<lparr>adb := d\<rparr>)
                     | Inr _ \<Rightarrow> (Inr code, w\<lparr>adb := d\<rparr>))))"

definition enroll ::
  "tenants_env \<Rightarrow> string \<Rightarrow> instant \<Rightarrow> string \<Rightarrow> string \<Rightarrow> authority \<Rightarrow> (tenants_error + string) \<times> authority" where
  "enroll env new_id now code public_key w =
     (case validate_public_key (b64_decode (env_crypto env)) public_key of
        Inl _ \<Rightarrow> (Inl (TBadRequest ''invalid public_key''), w)
      | Inr _ \<Rightarrow>
          (case repo_enroll (hash_code env code) public_key new_id now PENDING_TTL_SECS (adb w) of
             Inl err \<Rightarrow> (Inl (TInternal err), w)
           | Inr (Enrolled x created, d) \<Rightarrow>
               (Inr x, if created then publish (TenantCreated x) (w\<lparr>adb := d\<rparr>) else w\<lparr>adb := d\<rparr>)
           | Inr (BadCode, d) \<Rightarrow>
               (Inl (TBadCode ''enrollment code is invalid, expired, or already used''), w\<lparr>adb := d\<rparr>)))"

definition daemon_scope :: "instant \<Rightarrow> string \<Rightarrow> db \<Rightarrow> (string \<times> string option) option" where
  "daemon_scope now public_key d =
     (case daemon_find_by_public_key public_key d of
        Some dmn \<Rightarrow> Some (d_tenant_id dmn, Some (d_network_id dmn))
      | None \<Rightarrow> (case find_pending_tenant public_key now d of Some x \<Rightarrow> Some (x, None) | None \<Rightarrow> None))"

definition mint_spec :: "string \<Rightarrow> string \<Rightarrow> string option \<Rightarrow> claims_spec" where
  "mint_spec public_key x network =
     \<lparr>spec_tenant_id = x, spec_principal_type = Daemon, spec_subject = public_key,
      spec_network = network, spec_cnf = Some public_key,
      spec_audience = (if network \<noteq> None then [''tenants'', ''ddns'', ''tunneller''] else [''tenants''])\<rparr>"

definition mint_jwt :: "tenants_env \<Rightarrow> instant \<Rightarrow> string \<Rightarrow> authority \<Rightarrow> tenants_error + string" where
  "mint_jwt env now public_key w =
     (case daemon_scope now public_key (adb w) of
        None \<Rightarrow> Inl (TBadCode ''no registered daemon or live enrollment for this key'')
      | Some (x, network) \<Rightarrow>
          (case tenant_find_by_id x (adb w) of
             None \<Rightarrow> Inl (TNotFound ''tenant not found'')
           | Some t \<Rightarrow>
               if \<not> tenant_live t then Inl (TForbidden ''tenant is deregistered'')
               else if \<not> port_is_active (env_policy env) now x w
               then Inl (TForbidden ''tenant subscription is not active'')
               else (case sign (env_jwt_encode env) (mint_spec public_key x network)
                            (timestamp now) IDENTITY_JWT_TTL_SECS of
                       Inl e \<Rightarrow> Inl (TInternal e) | Inr token \<Rightarrow> Inr token)))"

section \<open>Daemon plane\<close>

definition check_availability :: "string \<Rightarrow> authority \<Rightarrow> bool" where
  "check_availability slug w = (if \<not> is_valid_name slug then False else network_find_by_slug slug (adb w) = None)"

definition display_name_or :: "string option \<Rightarrow> string \<Rightarrow> string" where
  "display_name_or display_name slug =
     (case display_name of None \<Rightarrow> slug | Some s \<Rightarrow> if trim s = [] then slug else trim s)"

fun register_result :: "string \<Rightarrow> network \<Rightarrow> register_network_outcome \<Rightarrow> tenants_error + network" where
  "register_result slug net Created = Inr net"
| "register_result slug net SlugTaken = Inl (TConflict (CHR 0x27 # slug @ [CHR 0x27] @ '' is already taken''))"
| "register_result slug net NetworkLimit = Inl (TEntitlementExceeded ''tenant has reached its network limit'')"
| "register_result slug net DaemonLimit = Inl (TEntitlementExceeded ''tenant has reached its daemon limit'')"
| "register_result slug net DaemonExists = Inl (TConflict ''this daemon is already registered'')"

definition new_network ::
  "string \<Rightarrow> instant \<Rightarrow> string \<Rightarrow> string \<Rightarrow> string option \<Rightarrow> string \<Rightarrow> network" where
  "new_network net_id now x slug display_name region =
     \<lparr>n_id = net_id, n_tenant_id = x, n_slug = slug, n_display_name = display_name_or display_name slug,
      n_region = region, n_provisioning_state = Provisioning, n_created_at = now, n_updated_at = now\<rparr>"

definition register_network ::
  "tenants_env \<Rightarrow> string \<Rightarrow> string \<Rightarrow> instant \<Rightarrow> string \<Rightarrow> string \<Rightarrow> string \<Rightarrow> string option \<Rightarrow> string \<Rightarrow> authority
    \<Rightarrow> (tenants_error + network) \<times> authority" where
  "register_network env net_id dmn_id now x public_key slug display_name region w =
     (if \<not> is_valid_name slug
      then (Inl (TBadRequest ''slug must be 3-32 chars of [a-z0-9-], not reserved''), w)
      else if trim region \<notin> set (env_regions env)
      then (Inl (TBadRequest (''unknown region '' @ [CHR 0x27] @ trim region @ [CHR 0x27])), w)
      else if tenant_find_by_id x (adb w) = None then (Inl (TNotFound ''no such tenant''), w)
      else case port_current x w of
        None \<Rightarrow> (Inl (TForbidden ''tenant has no active subscription''), w)
      | Some v \<Rightarrow>
          let net = new_network net_id now x slug display_name (trim region);
              dmn = \<lparr>d_id = dmn_id, d_tenant_id = x, d_network_id = net_id, d_public_key = public_key,
                     d_created_at = now\<rparr> in
          (case repo_register_network net dmn (max_networks (sv_entitlement v)) (max_daemons (sv_entitlement v))
                  (adb w) of
             Inl err \<Rightarrow> (Inl (TInternal err), w)
           | Inr (outcome, d) \<Rightarrow> (register_result slug net outcome, w\<lparr>adb := d\<rparr>)))"

section \<open>Mesh plane\<close>

definition reconcile_page ::
  "provisioning_state \<Rightarrow> string \<Rightarrow> string option \<Rightarrow> nat \<Rightarrow> authority \<Rightarrow> network list" where
  "reconcile_page st region after limit w = repo_list_for_reconcile st region after limit (adb w)"

definition network_state :: "string \<Rightarrow> authority \<Rightarrow> provisioning_state option" where
  "network_state nid w = map_option n_provisioning_state (network_find_by_id nid (adb w))"

definition mark_network_active :: "instant \<Rightarrow> string \<Rightarrow> authority \<Rightarrow> bool \<times> authority" where
  "mark_network_active now nid w = (case mark_active now nid (adb w) of (b, d) \<Rightarrow> (b, w\<lparr>adb := d\<rparr>))"

definition finish_deprovision :: "string \<Rightarrow> authority \<Rightarrow> bool \<times> authority" where
  "finish_deprovision nid w = (case delete_if_deprovisioning nid (adb w) of (b, d) \<Rightarrow> (b, w\<lparr>adb := d\<rparr>))"

fun apply_to_network :: "instant \<Rightarrow> domain_event \<Rightarrow> authority \<Rightarrow> authority" where
  "apply_to_network now (SubscriptionDeactivated x) w = deprovision_networks_for now x w"
| "apply_to_network now (TenantCreated x) w = w"
| "apply_to_network now (TenantDeregistered x) w = w"

section \<open>Commands\<close>

datatype tenants_cmd =
    RegisterTenant string instant string
  | ConsumeCode instant string code_purpose
  | DeprovisionFor instant string
  | DeregisterTenant instant string
  | SweepDeregistered
  | DeleteNetwork instant string string
  | RemoveDaemon string string
  | IssueSignupCode instant "nat list" string string code_purpose
  | IssueTenantCode instant "nat list" string
  | EnrollDaemon string instant string string
  | RegisterNetwork string string instant string string string "string option" string
  | MarkNetworkActive instant string
  | FinishDeprovision string

fun tenants_exec :: "tenants_env \<Rightarrow> tenants_cmd \<Rightarrow> authority \<Rightarrow> authority" where
  "tenants_exec env (RegisterTenant i now email) w = snd (register_tenant i now email w)"
| "tenants_exec env (ConsumeCode now code purpose) w = snd (consume_code env now code purpose w)"
| "tenants_exec env (DeprovisionFor now x) w = deprovision_networks_for now x w"
| "tenants_exec env (DeregisterTenant now x) w = snd (deregister_tenant now x w)"
| "tenants_exec env SweepDeregistered w = snd (sweep_deregistered w)"
| "tenants_exec env (DeleteNetwork now x slug) w = snd (delete_network now x slug w)"
| "tenants_exec env (RemoveDaemon pk nid) w = remove_daemon pk nid w"
| "tenants_exec env (IssueSignupCode now picks email ip purpose) w =
     snd (issue_signup_code env now picks email ip purpose w)"
| "tenants_exec env (IssueTenantCode now picks x) w = snd (issue_tenant_code env now picks x w)"
| "tenants_exec env (EnrollDaemon i now code pk) w = snd (enroll env i now code pk w)"
| "tenants_exec env (RegisterNetwork i j now x pk slug dn region) w =
     snd (register_network env i j now x pk slug dn region w)"
| "tenants_exec env (MarkNetworkActive now nid) w = snd (mark_network_active now nid w)"
| "tenants_exec env (FinishDeprovision nid) w = snd (finish_deprovision nid w)"

definition tenants_run :: "tenants_env \<Rightarrow> tenants_cmd list \<Rightarrow> authority \<Rightarrow> authority" where
  "tenants_run env cmds w = foldl (\<lambda>w c. tenants_exec env c w) w cmds"

section \<open>What each operation does to the database\<close>

lemma register_tenant_adb:
  "adb (snd (register_tenant i now email w)) =
     (case svc_normalize_email email of Inl e \<Rightarrow> adb w
      | Inr e \<Rightarrow> (case tenant_create \<lparr>t_id = i, t_email = e, t_created_at = now, t_deregistered_at = None\<rparr> (adb w) of
                    Inl err \<Rightarrow> adb w | Inr (r, d) \<Rightarrow> d))"
  by (auto simp: register_tenant_def Let_def split: sum.splits prod.splits create_tenant_outcome.splits)

lemma consume_code_adb:
  "adb (snd (consume_code env now code purpose w)) =
     snd (repo_consume_code (hash_code env code) (purpose_as_str purpose) now (adb w))"
  by (simp add: consume_code_def split: prod.splits)

lemma deregister_tenant_adb:
  "adb (snd (deregister_tenant now x w)) = snd (set_deregistered now x (adb w)) \<or> adb (snd (deregister_tenant now x w)) = adb w"
  by (auto simp: deregister_tenant_def split: prod.splits bool.splits)

lemma issue_signup_code_adb:
  "adb (snd (issue_signup_code env now picks email ip purpose w)) = adb w \<or>
   adb (snd (issue_signup_code env now picks email ip purpose w)) = log_code_request ip now (adb w) \<or>
   (\<exists>e d. issue_code (snd (generate_code env picks)) e None (purpose_as_str purpose) (now + secs CODE_TTL_SECS)
       (log_code_request ip now (adb w)) = Inr d \<and>
      adb (snd (issue_signup_code env now picks email ip purpose w)) = d)"
  by (auto simp: issue_signup_code_def Let_def split: sum.splits prod.splits)

lemma issue_tenant_code_adb:
  "adb (snd (issue_tenant_code env now picks x w)) = adb w \<or>
   (\<exists>e d. issue_code (snd (generate_code env picks)) e (Some x) (purpose_as_str Enrollment)
       (now + secs CODE_TTL_SECS) (adb w) = Inr d \<and>
      adb (snd (issue_tenant_code env now picks x w)) = d)"
  by (auto simp: issue_tenant_code_def Let_def split: sum.splits prod.splits option.splits)

lemma enroll_adb:
  "adb (snd (enroll env i now code pk w)) = adb w \<or>
   (\<exists>r. repo_enroll (hash_code env code) pk i now PENDING_TTL_SECS (adb w) =
     Inr (r, adb (snd (enroll env i now code pk w))))"
  by (auto simp: enroll_def split: sum.splits prod.splits enroll_outcome.splits)

lemma register_network_adb:
  "adb (snd (register_network env i j now x pk slug dn region w)) = adb w \<or>
   (\<exists>dmn mn md. d_tenant_id dmn = x \<and>
     repo_register_network (new_network i now x slug dn (trim region)) dmn mn md (adb w) =
     Inr (Created, adb (snd (register_network env i j now x pk slug dn region w))))"
proof -
  have "d = adb w \<or> r = Created" if "repo_register_network net dmn mn md (adb w) = Inr (r, d)" for net dmn mn md r d
    using repo_register_network_other [OF that] by auto
  then show ?thesis
    by (auto simp: register_network_def Let_def split: sum.splits prod.splits option.splits) fastforce+
qed

lemma delete_network_adb:
  "adb (snd (delete_network now x slug w)) = adb w \<or>
   (\<exists>nid. adb (snd (delete_network now x slug w)) = snd (set_deprovisioning now nid (adb w)))"
  by (auto simp: delete_network_def split: option.splits)

lemma mark_network_active_adb: "adb (snd (mark_network_active now nid w)) = snd (mark_active now nid (adb w))"
  by (simp add: mark_network_active_def split: prod.splits)

lemma finish_deprovision_adb: "adb (snd (finish_deprovision nid w)) = snd (delete_if_deprovisioning nid (adb w))"
  by (simp add: finish_deprovision_def split: prod.splits)

lemma sweep_adb: "adb (snd (sweep_deregistered w)) = snd (delete_tombstoned_empty (adb w))"
  by (simp add: sweep_deregistered_def split: prod.splits)

lemmas cmd_adb = consume_code_adb mark_network_active_adb finish_deprovision_adb sweep_adb

section \<open>Constraints\<close>

lemma tenants_exec_wf: "db_wf (adb w) \<Longrightarrow> db_wf (adb (tenants_exec env c w))"
proof (cases c)
  case (RegisterTenant i now email)
  moreover assume "db_wf (adb w)"
  ultimately show ?thesis
    by (auto simp: register_tenant_adb split: sum.splits prod.splits intro: tenant_create_wf)
next
  case (DeregisterTenant now x)
  moreover assume "db_wf (adb w)"
  ultimately show ?thesis using deregister_tenant_adb [of now x w] by (auto simp: set_deregistered_wf)
next
  case (DeleteNetwork now x slug)
  moreover assume "db_wf (adb w)"
  ultimately show ?thesis using delete_network_adb [of now x slug w] by (auto simp: set_deprovisioning_wf)
next
  case (IssueSignupCode now picks email ip purpose)
  moreover assume "db_wf (adb w)"
  ultimately show ?thesis using issue_signup_code_adb [of env now picks email ip purpose w]
    by (auto simp: log_code_request_wf intro: issue_code_wf [OF log_code_request_wf])
next
  case (IssueTenantCode now picks x)
  moreover assume "db_wf (adb w)"
  ultimately show ?thesis using issue_tenant_code_adb [of env now picks x w] by (auto intro: issue_code_wf)
next
  case (EnrollDaemon i now code pk)
  moreover assume "db_wf (adb w)"
  ultimately show ?thesis using enroll_adb [of env i now code pk w] by (auto intro: repo_enroll_wf)
next
  case (RegisterNetwork i j now x pk slug dn region)
  moreover assume "db_wf (adb w)"
  ultimately show ?thesis using register_network_adb [of env i j now x pk slug dn region w]
    by (auto intro: repo_register_network_wf)
qed (simp_all add: cmd_adb repo_consume_code_wf deprovision_networks_for_def set_deprovisioning_for_tenant_wf
      delete_tombstoned_empty_wf remove_daemon_def daemon_remove_wf mark_active_wf delete_if_deprovisioning_wf)

lemma tenants_run_wf: "db_wf (adb w) \<Longrightarrow> db_wf (adb (tenants_run env cmds w))"
  unfolding tenants_run_def
  by (rule foldl_invariant [where I = "\<lambda>w. db_wf (adb w)"]) (auto simp: tenants_exec_wf)

section \<open>The network life cycle\<close>

lemma issue_code_networks: "issue_code h e t p x d = Inr d' \<Longrightarrow> networks d' = networks d"
  by (auto simp: issue_code_def split: if_splits)

lemma tenant_create_networks: "tenant_create t d = Inr (r, d') \<Longrightarrow> networks d' = networks d"
  by (auto simp: tenant_create_def split: if_splits)

lemma resolve_tenant_networks: "resolve_tenant c i now d = Inr (Some (x, b, d')) \<Longrightarrow> networks d' = networks d"
  by (auto simp: resolve_tenant_def split: option.splits if_splits sum.splits create_tenant_outcome.splits
      dest: tenant_create_networks)

lemma upsert_pending_networks [simp]: "networks (upsert_pending pk x e d) = networks d"
  by (simp add: upsert_pending_def)

lemma repo_enroll_networks: "repo_enroll h pk i now ttl d = Inr (r, d') \<Longrightarrow> networks d' = networks d"
  by (cases r) (auto elim!: repo_enroll_Enrolled dest!: resolve_tenant_networks repo_enroll_BadCode simp: burn_def)

lemma sweep_networks:
  assumes "db_wf d" shows "networks (snd (delete_tombstoned_empty d)) = networks d"
proof -
  have "\<not> sql_exists (\<lambda>n. n_tenant_id n \<in> set (map t_id (filter (sweepable d) (tenants d)))) (networks d)"
    by (auto simp: sql_exists_iff sweepable_def)
  then show ?thesis
    by (simp add: delete_tombstoned_empty_def delete_tenants_def Let_def sql_delete_none del: set_map)
qed

definition stays_or_moves :: "string \<Rightarrow> db \<Rightarrow> db \<Rightarrow> bool" where
  "stays_or_moves nid d d' = (net_state nid d' = net_state nid d \<or> lifecycle (net_state nid d) (net_state nid d'))"

lemma lifecycle_to_Deprovisioning: "s = Deprovisioning \<or> lifecycle (Some s) (Some Deprovisioning)"
  by (cases s) (auto intro: lifecycle.intros)

lemma stays_networks: "networks d' = networks d \<Longrightarrow> stays_or_moves nid d d'"
  by (simp add: stays_or_moves_def net_state_def network_find_by_id_def)

lemma set_deprovisioning_moves: "stays_or_moves nid d (snd (set_deprovisioning now x d))"
proof (cases "net_state nid d")
  case (Some st)
  from lifecycle_to_Deprovisioning [of st] show ?thesis
    by (elim disjE) (simp_all add: Some stays_or_moves_def set_deprovisioning_state)
qed (simp add: stays_or_moves_def set_deprovisioning_state)

lemma set_deprovisioning_for_tenant_moves: "stays_or_moves nid d (snd (set_deprovisioning_for_tenant now x d))"
proof (cases "network_find_by_id nid d")
  case (Some n)
  from lifecycle_to_Deprovisioning [of "n_provisioning_state n"] show ?thesis
    by (elim disjE) (simp_all add: Some stays_or_moves_def set_deprovisioning_for_tenant_state net_state_find)
qed (simp add: stays_or_moves_def set_deprovisioning_for_tenant_state net_state_find)

lemma mark_active_moves: "stays_or_moves nid d (snd (mark_active now x d))"
  unfolding stays_or_moves_def mark_active_state by (auto intro: lifecycle.activate)

lemma delete_if_deprovisioning_moves: "db_wf d \<Longrightarrow> stays_or_moves nid d (snd (delete_if_deprovisioning x d))"
  unfolding stays_or_moves_def by (auto simp: delete_if_deprovisioning_state intro: lifecycle.finish)

lemma register_inserts_moves:
  assumes "register_inserts net dmn d = Inr (Created, d')" and "n_provisioning_state net = Provisioning"
  shows "stays_or_moves nid d d'"
proof (cases "nid = n_id net")
  case True
  then show ?thesis using register_inserts_state [OF assms(1)] assms(2)
    by (simp add: stays_or_moves_def lifecycle.create)
next
  case False
  then show ?thesis using register_inserts_state(1) [OF assms(1), of nid] by (simp add: stays_or_moves_def)
qed

lemma register_tenant_networks: "networks (adb (snd (register_tenant i now email w))) = networks (adb w)"
  by (auto simp: register_tenant_adb split: sum.splits prod.splits dest: tenant_create_networks)

lemma deregister_tenant_networks: "networks (adb (snd (deregister_tenant now x w))) = networks (adb w)"
  using deregister_tenant_adb [of now x w] by (auto simp: set_deregistered_def)

lemma issue_signup_code_networks:
  "networks (adb (snd (issue_signup_code env now picks email ip purpose w))) = networks (adb w)"
proof -
  have l: "networks (log_code_request ip now (adb w)) = networks (adb w)" by (simp add: log_code_request_def)
  show ?thesis
    using issue_signup_code_adb [of env now picks email ip purpose w]
    by (elim disjE exE conjE) (simp_all add: l issue_code_networks)
qed

lemma issue_tenant_code_networks: "networks (adb (snd (issue_tenant_code env now picks x w))) = networks (adb w)"
  using issue_tenant_code_adb [of env now picks x w]
  by (elim disjE exE conjE) (simp_all add: issue_code_networks)

lemma enroll_networks: "networks (adb (snd (enroll env i now code pk w))) = networks (adb w)"
  using enroll_adb [of env i now code pk w]
  by (elim disjE exE) (simp_all add: repo_enroll_networks)

lemma consume_code_networks: "networks (adb (snd (consume_code env now code purpose w))) = networks (adb w)"
  by (simp add: cmd_adb repo_consume_code_def burn_def)

lemmas same_networks = register_tenant_networks deregister_tenant_networks issue_signup_code_networks
  issue_tenant_code_networks enroll_networks consume_code_networks

lemma delete_network_moves: "stays_or_moves nid (adb w) (adb (snd (delete_network now x slug w)))"
  using delete_network_adb [of now x slug w]
  by (elim disjE exE) (simp_all add: stays_networks set_deprovisioning_moves)

lemma register_network_moves:
  "stays_or_moves nid (adb w) (adb (snd (register_network env i j now x pk slug dn region w)))"
  using register_network_adb [of env i j now x pk slug dn region w]
proof (elim disjE exE conjE)
  fix dmn mn md
  assume "repo_register_network (new_network i now x slug dn (trim region)) dmn mn md (adb w) =
    Inr (Created, adb (snd (register_network env i j now x pk slug dn region w)))"
  from repo_register_network_Created(3) [OF this] show ?thesis
    by (rule register_inserts_moves) (simp add: new_network_def)
qed (simp add: stays_networks)

lemma tenants_exec_lifecycle:
  assumes "db_wf (adb w)"
  shows "stays_or_moves nid (adb w) (adb (tenants_exec env c w))"
  using sweep_networks [OF assms]
  by (cases c) (simp_all add: stays_networks same_networks delete_network_moves register_network_moves
      mark_network_active_adb finish_deprovision_adb sweep_adb
      deprovision_networks_for_def set_deprovisioning_for_tenant_moves remove_daemon_def daemon_remove_def
      mark_active_moves delete_if_deprovisioning_moves assms)

section \<open>Tombstones are terminal\<close>

definition retired :: "string \<Rightarrow> db \<Rightarrow> bool" where
  "retired x d = (\<forall>t \<in> set (tenants d). t_id t = x \<longrightarrow> \<not> tenant_live t)"

fun makes_tenant :: "tenants_cmd \<Rightarrow> string option" where
  "makes_tenant (RegisterTenant i now email) = Some i"
| "makes_tenant (EnrollDaemon i now code pk) = Some i"
| "makes_tenant _ = None"

lemma retired_same: "tenants d' = tenants d \<Longrightarrow> retired x d \<Longrightarrow> retired x d'"
  by (simp add: retired_def)

lemma tenant_create_retired:
  "tenant_create t d = Inr (r, d') \<Longrightarrow> retired x d \<Longrightarrow> t_id t \<noteq> x \<Longrightarrow> retired x d'"
  by (auto simp: tenant_create_def retired_def split: if_splits)

lemma set_deregistered_retired: "retired x d \<Longrightarrow> retired x (snd (set_deregistered now y d))"
  by (simp add: retired_def set_deregistered_def Ball_sql_update tenant_live_def)

lemma set_deregistered_retires: "retired x (snd (set_deregistered now x d))"
  by (simp add: retired_def set_deregistered_def Ball_sql_update tenant_live_def)

lemma sweep_retired: "retired x d \<Longrightarrow> retired x (snd (delete_tombstoned_empty d))"
  by (simp add: retired_def delete_tombstoned_empty_def delete_tenants_def Let_def)

lemma resolve_tenant_retired:
  "resolve_tenant c i now d = Inr (Some (y, b, d')) \<Longrightarrow> retired x d \<Longrightarrow> i \<noteq> x \<Longrightarrow> retired x d'"
  by (auto simp: resolve_tenant_def split: option.splits if_splits sum.splits create_tenant_outcome.splits
      dest: tenant_create_retired)

lemma repo_enroll_retired:
  "repo_enroll h pk i now ttl d = Inr (r, d') \<Longrightarrow> retired x d \<Longrightarrow> i \<noteq> x \<Longrightarrow> retired x d'"
proof (cases r)
  case (Enrolled y b)
  assume a: "repo_enroll h pk i now ttl d = Inr (r, d')" "retired x d" "i \<noteq> x"
  from a(1) Enrolled obtain c d1 where
    r: "resolve_tenant c i now (burn (enroll_usable h now) now d) = Inr (Some (y, b, d1))"
    and d': "d' = upsert_pending pk y (now + secs ttl) d1" by (auto elim: repo_enroll_Enrolled)
  have "retired x (burn (enroll_usable h now) now d)" using a(2) by (simp add: retired_def burn_def)
  from resolve_tenant_retired [OF r this a(3)] show ?thesis
    by (rule retired_same [rotated]) (simp add: d' upsert_pending_def)
qed (auto dest: repo_enroll_BadCode)

lemma issue_code_tenants: "issue_code h e t p x d = Inr d' \<Longrightarrow> tenants d' = tenants d"
  by (auto simp: issue_code_def split: if_splits)

lemma register_inserts_tenants: "register_inserts net dmn d = Inr (Created, d') \<Longrightarrow> tenants d' = tenants d"
  using register_inserts_Created(1) by fastforce

lemma issue_signup_code_tenants:
  "tenants (adb (snd (issue_signup_code env now picks email ip purpose w))) = tenants (adb w)"
proof -
  have l: "tenants (log_code_request ip now (adb w)) = tenants (adb w)" by (simp add: log_code_request_def)
  show ?thesis
    using issue_signup_code_adb [of env now picks email ip purpose w]
    by (elim disjE exE conjE) (simp_all add: l issue_code_tenants)
qed

lemma issue_tenant_code_tenants: "tenants (adb (snd (issue_tenant_code env now picks x w))) = tenants (adb w)"
  using issue_tenant_code_adb [of env now picks x w]
  by (elim disjE exE conjE) (simp_all add: issue_code_tenants)

lemma register_network_tenants:
  "tenants (adb (snd (register_network env i j now x pk slug dn region w))) = tenants (adb w)"
  using register_network_adb [of env i j now x pk slug dn region w]
  by (elim disjE exE conjE) (simp_all add: register_inserts_tenants [OF repo_register_network_Created(3)])

lemma delete_network_tenants: "tenants (adb (snd (delete_network now x slug w))) = tenants (adb w)"
  using delete_network_adb [of now x slug w] by (elim disjE exE) (simp_all add: set_deprovisioning_def)

lemma register_tenant_retired:
  "retired x (adb w) \<Longrightarrow> i \<noteq> x \<Longrightarrow> retired x (adb (snd (register_tenant i now email w)))"
  by (auto simp: register_tenant_adb split: sum.splits prod.splits dest: tenant_create_retired)

lemma deregister_tenant_retired: "retired x (adb w) \<Longrightarrow> retired x (adb (snd (deregister_tenant now y w)))"
  using deregister_tenant_adb [of now y w] by (elim disjE) (simp_all add: set_deregistered_retired)

lemma enroll_retired:
  "retired x (adb w) \<Longrightarrow> i \<noteq> x \<Longrightarrow> retired x (adb (snd (enroll env i now code pk w)))"
  using enroll_adb [of env i now code pk w] by (elim disjE exE) (simp_all add: repo_enroll_retired)

lemmas same_tenants = issue_signup_code_tenants issue_tenant_code_tenants register_network_tenants delete_network_tenants

lemma retired_exec:
  assumes "retired x (adb w)" and "makes_tenant c \<noteq> Some x"
  shows "retired x (adb (tenants_exec env c w))"
proof (cases "tenants (adb (tenants_exec env c w)) = tenants (adb w)")
  case True
  then show ?thesis using assms(1) by (rule retired_same)
next
  case False
  with assms show ?thesis
    by (cases c) (simp_all add: register_tenant_retired deregister_tenant_retired enroll_retired sweep_adb sweep_retired
        same_tenants mark_network_active_adb finish_deprovision_adb mark_active_def delete_if_deprovisioning_def
        delete_networks_def Let_def remove_daemon_def daemon_remove_def deprovision_networks_for_def
        set_deprovisioning_for_tenant_def consume_code_adb repo_consume_code_def burn_def)
qed

lemma retired_run:
  "retired x (adb w) \<Longrightarrow> \<forall>c \<in> set cmds. makes_tenant c \<noteq> Some x \<Longrightarrow> retired x (adb (tenants_run env cmds w))"
  unfolding tenants_run_def
  by (rule foldl_invariant [where I = "\<lambda>w. retired x (adb w)"]) (auto simp: retired_exec)

lemma deregister_retires:
  "deregister_tenant now x w = (Inr b, w') \<Longrightarrow> retired x (adb w')"
  using set_deregistered_retires [of x now "adb w"]
  by (auto simp: deregister_tenant_def split: if_splits prod.splits bool.splits)

section \<open>Minting\<close>

lemma mint_jwt_Inr:
  "mint_jwt env now pk w = Inr token \<longleftrightarrow>
    (\<exists>x network t. daemon_scope now pk (adb w) = Some (x, network) \<and>
       tenant_find_by_id x (adb w) = Some t \<and> tenant_live t \<and>
       port_is_active (env_policy env) now x w \<and>
       env_jwt_encode env (spec_claims (mint_spec pk x network) (timestamp now) IDENTITY_JWT_TTL_SECS) = Inr token)"
  by (auto simp: mint_jwt_def sign_Inr split: option.splits prod.splits sum.splits) (auto simp: sign_def)

lemma retired_no_mint:
  "retired x (adb w) \<Longrightarrow> daemon_scope now pk (adb w) = Some (x, network) \<Longrightarrow> \<exists>e. mint_jwt env now pk w = Inl e"
proof (cases "mint_jwt env now pk w")
  case (Inr token)
  assume "retired x (adb w)" and "daemon_scope now pk (adb w) = Some (x, network)"
  with Inr show ?thesis
    by (auto simp: mint_jwt_Inr retired_def tenant_find_by_id_def dest!: find_Some_D)
qed auto

end
