(* ===== verification/Tenants_Props.thy ===== *)
theory Tenants_Props
  imports Tenants_Service
begin

text \<open>
  The properties of the tenant aggregate over its operations and command sequences: entitlement limits and
  the transaction interleaving that escapes them, the conditions of minting, revocation by the tombstone,
  the single use of codes, the sweep, and the issuance limit.
\<close>

section \<open>Registration\<close>

lemma count_snoc: "sql_count p (t @ [r]) = sql_count p t + (if p r then 1 else 0)"
  by simp

lemma register_network_Inr:
  assumes "register_network env i j now x pk slug dn region w = (Inr net, w')"
  obtains v dmn where "port_current x w = Some v" and "is_valid_name slug" and "trim region \<in> set (env_regions env)"
    and "net = new_network i now x slug dn (trim region)"
    and "dmn = \<lparr>d_id = j, d_tenant_id = x, d_network_id = i, d_public_key = pk, d_created_at = now\<rparr>"
    and "repo_register_network net dmn (max_networks (sv_entitlement v)) (max_daemons (sv_entitlement v)) (adb w) =
      Inr (Created, adb w')"
proof -
  let ?net = "new_network i now x slug dn (trim region)"
  let ?dmn = "\<lparr>d_id = j, d_tenant_id = x, d_network_id = i, d_public_key = pk, d_created_at = now\<rparr>"
  from assms obtain v where v: "port_current x w = Some v" "is_valid_name slug" "trim region \<in> set (env_regions env)"
    by (auto simp: register_network_def split: if_splits option.splits)
  from assms v obtain r d where r: "repo_register_network ?net ?dmn (max_networks (sv_entitlement v))
      (max_daemons (sv_entitlement v)) (adb w) = Inr (r, d)"
    and e: "register_result slug ?net r = Inr net" "w' = w\<lparr>adb := d\<rparr>"
    by (auto simp: register_network_def Let_def split: if_splits sum.splits prod.splits)
  from e(1) have "r = Created" "net = ?net" by (cases r; simp)+
  with that v r e show ?thesis by auto
qed

lemma register_network_Inl:
  assumes "register_network env i j now x pk slug dn region w = (Inl e, w')"
  shows "w' = w"
proof -
  have "d = adb w" if "repo_register_network net dmn mn md (adb w) = Inr (r, d)" "register_result slug net' r = Inl e"
    for net net' dmn mn md r d
    using repo_register_network_other [OF that(1)] that(2) by (cases r) auto
  with assms show ?thesis
    by (auto simp: register_network_def Let_def split: if_splits sum.splits prod.splits option.splits)
qed

section \<open>Codes\<close>

fun issued_hash :: "tenants_env \<Rightarrow> tenants_cmd \<Rightarrow> string option" where
  "issued_hash env (IssueSignupCode now picks email ip purpose) = Some (snd (generate_code env picks))"
| "issued_hash env (IssueTenantCode now picks x) = Some (snd (generate_code env picks))"
| "issued_hash env _ = None"

lemma code_spent_same: "enrollment_codes d' = enrollment_codes d \<Longrightarrow> code_spent h d \<Longrightarrow> code_spent h d'"
  by (simp add: code_spent_def)

lemma code_spent_burn: "code_spent h d \<Longrightarrow> code_spent h (burn p now d)"
  by (simp add: code_spent_def burn_def Ball_sql_update)

lemma issue_code_spent:
  "issue_code h' e t p x d = Inr d' \<Longrightarrow> h' \<noteq> h \<Longrightarrow> code_spent h d \<Longrightarrow> code_spent h d'"
  by (auto simp: issue_code_def code_spent_def split: if_splits)

lemma tenant_create_codes: "tenant_create t d = Inr (r, d') \<Longrightarrow> enrollment_codes d' = enrollment_codes d"
  by (auto simp: tenant_create_def split: if_splits)

lemma resolve_tenant_codes:
  "resolve_tenant c i now d = Inr (Some (x, b, d')) \<Longrightarrow> enrollment_codes d' = enrollment_codes d"
  by (auto simp: resolve_tenant_def split: option.splits if_splits sum.splits create_tenant_outcome.splits
      dest: tenant_create_codes)

lemma repo_enroll_codes:
  assumes "repo_enroll h pk i now ttl d = Inr (Enrolled x b, d')"
  shows "enrollment_codes d' = enrollment_codes (code_spend (DaemonEnroll, now) h d)"
    and "code_accept (DaemonEnroll, now) h d"
proof -
  have u: "usable (DaemonEnroll, now) h = enroll_usable h now" by (simp add: fun_eq_iff)
  from assms obtain c d1 where f: "find (enroll_usable h now) (enrollment_codes d) = Some c"
    and r: "resolve_tenant c i now (burn (enroll_usable h now) now d) = Inr (Some (x, b, d1))"
    and d': "d' = upsert_pending pk x (now + secs ttl) d1" by (rule repo_enroll_Enrolled)
  show "enrollment_codes d' = enrollment_codes (code_spend (DaemonEnroll, now) h d)"
    using resolve_tenant_codes [OF r] by (simp add: d' upsert_pending_def code_spend_def u)
  show "code_accept (DaemonEnroll, now) h d"
    using f by (auto simp: code_accept_def u sql_exists_iff dest!: find_Some_D)
qed

lemma repo_enroll_spent:
  "repo_enroll h' pk i now ttl d = Inr (r, d') \<Longrightarrow> code_spent h d \<Longrightarrow> code_spent h d'"
proof (cases r)
  case (Enrolled x b)
  assume a: "repo_enroll h' pk i now ttl d = Inr (r, d')" "code_spent h d"
  show ?thesis
    by (rule code_spent_same [OF repo_enroll_codes(1) [OF a(1) [unfolded Enrolled]] code_spent_spend [OF a(2)]])
qed (auto dest: repo_enroll_BadCode)

lemma issue_signup_code_spent:
  "code_spent h (adb w) \<Longrightarrow> snd (generate_code env picks) \<noteq> h \<Longrightarrow>
    code_spent h (adb (snd (issue_signup_code env now picks email ip purpose w)))"
proof -
  assume a: "code_spent h (adb w)" "snd (generate_code env picks) \<noteq> h"
  have l: "code_spent h (log_code_request ip now (adb w))" using a by (simp add: code_spent_def log_code_request_def)
  show ?thesis
    using issue_signup_code_adb [of env now picks email ip purpose w]
    by (elim disjE exE conjE) (simp_all add: a l issue_code_spent)
qed

lemma issue_tenant_code_spent:
  "code_spent h (adb w) \<Longrightarrow> snd (generate_code env picks) \<noteq> h \<Longrightarrow>
    code_spent h (adb (snd (issue_tenant_code env now picks x w)))"
  using issue_tenant_code_adb [of env now picks x w] by (elim disjE exE conjE) (simp_all add: issue_code_spent)

lemma enroll_spent: "code_spent h (adb w) \<Longrightarrow> code_spent h (adb (snd (enroll env i now code pk w)))"
  using enroll_adb [of env i now code pk w] by (elim disjE exE) (simp_all add: repo_enroll_spent)

lemma register_network_codes:
  "enrollment_codes (adb (snd (register_network env i j now x pk slug dn region w))) = enrollment_codes (adb w)"
  using register_network_adb [of env i j now x pk slug dn region w]
proof (elim disjE exE conjE)
  fix dmn mn md
  assume "repo_register_network (new_network i now x slug dn (trim region)) dmn mn md (adb w) =
    Inr (Created, adb (snd (register_network env i j now x pk slug dn region w)))"
  from register_inserts_Created(1) [OF repo_register_network_Created(3) [OF this]] show ?thesis by simp
qed simp

lemma register_tenant_codes:
  "enrollment_codes (adb (snd (register_tenant i now email w))) = enrollment_codes (adb w)"
  by (auto simp: register_tenant_adb split: sum.splits prod.splits dest: tenant_create_codes)

lemma deregister_tenant_codes:
  "enrollment_codes (adb (snd (deregister_tenant now x w))) = enrollment_codes (adb w)"
  using deregister_tenant_adb [of now x w] by (elim disjE) (simp_all add: set_deregistered_def)

lemma delete_network_codes: "enrollment_codes (adb (snd (delete_network now x slug w))) = enrollment_codes (adb w)"
  using delete_network_adb [of now x slug w] by (elim disjE exE) (simp_all add: set_deprovisioning_def)

lemma sweep_spent: "code_spent h d \<Longrightarrow> code_spent h (snd (delete_tombstoned_empty d))"
  by (simp add: code_spent_def delete_tombstoned_empty_def delete_tenants_def Let_def)

lemmas same_codes = register_network_codes register_tenant_codes deregister_tenant_codes delete_network_codes

lemma code_spent_exec:
  assumes "code_spent h (adb w)" and "issued_hash env c \<noteq> Some h"
  shows "code_spent h (adb (tenants_exec env c w))"
proof (cases "enrollment_codes (adb (tenants_exec env c w)) = enrollment_codes (adb w)")
  case True
  then show ?thesis using assms(1) by (rule code_spent_same)
next
  case False
  with assms show ?thesis
    by (cases c) (simp_all add: same_codes issue_signup_code_spent issue_tenant_code_spent enroll_spent sweep_adb
        sweep_spent consume_code_adb repo_consume_code_def code_spent_burn mark_network_active_adb mark_active_def
        finish_deprovision_adb delete_if_deprovisioning_def delete_networks_def Let_def remove_daemon_def
        daemon_remove_def deprovision_networks_for_def set_deprovisioning_for_tenant_def)
qed

lemma code_spent_run:
  "code_spent h (adb w) \<Longrightarrow> \<forall>c \<in> set cmds. issued_hash env c \<noteq> Some h \<Longrightarrow>
    code_spent h (adb (tenants_run env cmds w))"
  unfolding tenants_run_def
  by (rule foldl_invariant [where I = "\<lambda>w. code_spent h (adb w)"]) (auto simp: code_spent_exec)

lemma spent_not_accepted: "code_spent h d \<Longrightarrow> \<not> code_accept f h d"
  using codes.accept_unspent by blast

lemma web_accept: "code_accept (WebFlow p, now) h d \<longleftrightarrow> find (web_usable h p now) (enrollment_codes d) \<noteq> None"
proof -
  have "usable (WebFlow p, now) h = web_usable h p now" by (simp add: fun_eq_iff)
  then show ?thesis by (simp add: code_accept_def find_None_exists)
qed

lemma enroll_accept: "code_accept (DaemonEnroll, now) h d \<longleftrightarrow> find (enroll_usable h now) (enrollment_codes d) \<noteq> None"
proof -
  have "usable (DaemonEnroll, now) h = enroll_usable h now" by (simp add: fun_eq_iff)
  then show ?thesis by (simp add: code_accept_def find_None_exists)
qed

lemma consume_code_accept:
  "fst (consume_code env now code p w) \<noteq> None \<longleftrightarrow> code_accept (WebFlow (purpose_as_str p), now) (hash_code env code) (adb w)"
  by (simp add: web_accept consume_code_def repo_consume_code_def)

lemma consume_code_spends:
  assumes "db_wf (adb w)" and "consume_code env now code p w = (Some email, w')"
  shows "code_spent (hash_code env code) (adb w')"
proof -
  have "code_accept (WebFlow (purpose_as_str p), now) (hash_code env code) (adb w)"
    using assms(2) consume_code_accept [of env now code p w] by simp
  then have "code_spent (hash_code env code) (code_spend (WebFlow (purpose_as_str p), now) (hash_code env code) (adb w))"
    by (rule codes.spend_spent [OF db_wf_code [OF assms(1)]])
  moreover have "usable (WebFlow (purpose_as_str p), now) (hash_code env code) =
      web_usable (hash_code env code) (purpose_as_str p) now" by (simp add: fun_eq_iff)
  ultimately show ?thesis using assms(2) by (auto simp: consume_code_def repo_consume_code_def code_spend_def)
qed

lemma enroll_Inr:
  assumes "enroll env i now code pk w = (Inr x, w')"
  obtains b where "repo_enroll (hash_code env code) pk i now PENDING_TTL_SECS (adb w) = Inr (Enrolled x b, adb w')"
  using assms by (auto simp: enroll_def split: sum.splits prod.splits enroll_outcome.splits if_splits)

lemma enroll_spends:
  assumes "db_wf (adb w)" and "enroll env i now code pk w = (Inr x, w')"
  shows "code_spent (hash_code env code) (adb w')"
proof -
  obtain b where r: "repo_enroll (hash_code env code) pk i now PENDING_TTL_SECS (adb w) = Inr (Enrolled x b, adb w')"
    using assms(2) by (rule enroll_Inr)
  have "code_spent (hash_code env code) (code_spend (DaemonEnroll, now) (hash_code env code) (adb w))"
    by (rule codes.spend_spent [OF db_wf_code [OF assms(1)] repo_enroll_codes(2) [OF r]])
  then show ?thesis by (rule code_spent_same [OF repo_enroll_codes(1) [OF r]])
qed

lemma enroll_refused:
  assumes "code_spent (hash_code env code) (adb w)"
  shows "\<exists>e. enroll env i now code pk w = (Inl e, w)"
proof -
  have "\<not> code_accept (DaemonEnroll, now) (hash_code env code) (adb w)"
    using assms by (rule spent_not_accepted)
  then have "repo_enroll (hash_code env code) pk i now PENDING_TTL_SECS (adb w) = Inr (BadCode, adb w)"
    by (simp add: enroll_accept repo_enroll_def)
  then show ?thesis by (simp add: enroll_def split: sum.splits)
qed

section \<open>The sweep\<close>

lemma sql_count_delete_length: "sql_count p t + length (sql_delete p t) = length t"
  by (induction t) auto

lemma swept_ids_gone:
  assumes "distinct (map t_id ts)" and "x \<in> set (map t_id (sql_delete p ts))"
  shows "x \<notin> set (map t_id (filter p ts))"
  using assms by (auto simp: distinct_map inj_on_def)

lemma cascade_filter:
  assumes "references k (sql_delete (\<lambda>r. k r \<in> set gone) xs) ids" and "x \<in> set ids \<Longrightarrow> x \<notin> set gone"
  shows "filter (\<lambda>s. k s = x) (sql_delete (\<lambda>r. k r \<in> set gone) xs) =
    (if x \<in> set ids then filter (\<lambda>s. k s = x) xs else [])"
proof (cases "x \<in> set ids")
  case True
  with assms(2) have "x \<notin> set gone" by simp
  then have "filter (\<lambda>s. k s = x) (sql_delete (\<lambda>r. k r \<in> set gone) xs) = filter (\<lambda>s. k s = x) xs"
    by (auto simp: sql_delete_def intro!: filter_cong)
  with True show ?thesis by simp
next
  case False
  then show ?thesis using references_D [OF assms(1)] by (auto simp: filter_empty_conv)
qed

section \<open>Properties\<close>

definition ex_env :: tenants_env where
  "ex_env = \<lparr>env_policy = ex_policy, env_regions = [''eu1''], env_crypto = ex_crypto,
     env_jwt_encode = (\<lambda>c. Inr ''jwt''), env_send_code = (\<lambda>a b c. Inr ()), env_email_delivers = True\<rparr>"

definition ex_net :: "string \<Rightarrow> network" where
  "ex_net slug = \<lparr>n_id = slug, n_tenant_id = ''t1'', n_slug = slug, n_display_name = slug, n_region = ''eu1'',
     n_provisioning_state = Provisioning, n_created_at = 0, n_updated_at = 0\<rparr>"

definition ex_daemon :: "string \<Rightarrow> daemon" where
  "ex_daemon pk = \<lparr>d_id = pk, d_tenant_id = ''t1'', d_network_id = [], d_public_key = pk, d_created_at = 0\<rparr>"

lemma ex_authority_wf: "db_wf (adb ex_authority)"
  by (simp add: ex_defs db_wf_defs unique_where_def)

lemma ex_trial_wf: "db_wf (adb ex_trial)"
  unfolding ex_trial_def by (rule create_trial_wf [OF ex_authority_wf])

lemma ex_trial_eq: "ex_trial = ex_authority\<lparr>adb := (adb ex_authority)\<lparr>subscriptions :=
    [\<lparr>s_id = ''s1'', s_tenant_id = ''t1'', s_status = Trialing, s_entitlement = entitlement_DEFAULT,
      s_trial_expires_at = Some (days 14), s_current_period_end = None, s_created_at = 0, s_updated_at = 0\<rparr>]\<rparr>\<rparr>"
  by (simp add: ex_trial_def create_trial_def repo_create_trial_def tenant_exists_def ex_defs Let_def)


text \<open>The limit checks and the inserts of a registration are separate statements. When two registrations of one
  tenant both read the limits before either inserts, both succeed and the tenant ends above its network limit.\<close>

theorem register_network_race:
  assumes "register_limits net1 mn md d = None" and "register_limits net2 mn md d = None"
    and "register_inserts net1 dmn1 d = Inr (Created, d1)" and "register_inserts net2 dmn2 d1 = Inr (Created, d2)"
    and "n_tenant_id net1 = x" and "n_tenant_id net2 = x" and "network_count_by_tenant x d + 1 = unat mn"
  shows "network_count_by_tenant x d2 = unat mn + 1"
  using assms register_inserts_Created(1) [OF assms(3)] register_inserts_Created(1) [OF assms(4)]
  by (simp add: network_count_by_tenant_def)

theorem register_network_race_witness:
  "\<exists>d2. network_count_by_tenant ''t1'' d2 = unat (max_networks entitlement_DEFAULT) + 1"
proof -
  let ?d = "adb ex_trial"
  have 1: "register_limits (ex_net ''a'') 1 1 ?d = None" "register_limits (ex_net ''b'') 1 1 ?d = None"
    by (simp_all add: register_limits_def ex_trial_eq ex_defs)
  obtain d1 where 2: "register_inserts (ex_net ''a'') (ex_daemon ''p'') ?d = Inr (Created, d1)"
    by (simp add: register_inserts_def ex_trial_eq ex_defs ex_net_def ex_daemon_def tenant_exists_def)
  obtain d2 where 3: "register_inserts (ex_net ''b'') (ex_daemon ''q'') d1 = Inr (Created, d2)"
    using register_inserts_Created(1) [OF 2]
    by (simp add: register_inserts_def ex_trial_eq ex_defs ex_net_def ex_daemon_def tenant_exists_def)
  have 4: "network_count_by_tenant ''t1'' ?d + 1 = unat (1 :: u32)"
    by (simp add: network_count_by_tenant_def ex_trial_eq ex_defs)
  have "network_count_by_tenant ''t1'' d2 = unat (1 :: u32) + 1"
    by (rule register_network_race [OF 1 2 3 _ _ 4]) (simp_all add: ex_net_def)
  then show ?thesis by (intro exI [of _ d2]) (simp add: entitlement_DEFAULT_def)
qed


text \<open>C9. Deregistration revokes for good. After a tenant is deregistered, no sequence of operations on the tenant
  aggregate makes a token for it obtainable again, for any key and at any later instant, as long as fresh
  tenant ids stay fresh.\<close>

theorem deregistered_never_mints:
  assumes "deregister_tenant now x w = (Inr b, w')" and "\<forall>c \<in> set cmds. makes_tenant c \<noteq> Some x"
    and "daemon_scope now' pk (adb (tenants_run env cmds w')) = Some (x, network)"
  shows "\<exists>e. mint_jwt env now' pk (tenants_run env cmds w') = Inl e"
  using retired_no_mint [OF retired_run [OF deregister_retires [OF assms(1)] assms(2)] assms(3)] .

definition ex_pending :: authority where
  "ex_pending = ex_trial\<lparr>adb := (adb ex_trial)\<lparr>pending_enrollments :=
     [\<lparr>p_public_key = ''K'', p_tenant_id = ''t1'', p_expires_at = days 1\<rparr>]\<rparr>\<rparr>"

theorem deregistered_never_mints_witness:
  "\<exists>e. mint_jwt ex_env 9 ''K'' (tenants_run ex_env [MarkNetworkActive 1 ''n''] (snd (deregister_tenant 5 ''t1'' ex_pending))) = Inl e"
proof (rule deregistered_never_mints)
  show "deregister_tenant 5 ''t1'' ex_pending = (Inr True, snd (deregister_tenant 5 ''t1'' ex_pending))"
    by (simp add: deregister_tenant_def ex_pending_def ex_trial_eq ex_defs tenant_find_by_id_def set_deregistered_def
        tenant_live_def)
  show "daemon_scope 9 ''K'' (adb (tenants_run ex_env [MarkNetworkActive 1 ''n''] (snd (deregister_tenant 5 ''t1'' ex_pending))))
      = Some (''t1'', None)"
    by (simp add: daemon_scope_def tenants_run_def mark_network_active_adb mark_active_def deregister_tenant_def ex_pending_def
        ex_trial_eq ex_defs tenant_find_by_id_def set_deregistered_def tenant_live_def daemon_find_by_public_key_def
        find_pending_tenant_def days_def secs_def)
qed simp

text \<open>The network life cycle. Whatever operations ran before, one operation of the tenant aggregate leaves the
  state of a network as it is or moves it along one edge: nothing to provisioning, provisioning to active,
  either of them to deprovisioning, deprovisioning to gone.\<close>

theorem network_lifecycle:
  assumes "db_wf (adb w)"
  shows "stays_or_moves nid (adb (tenants_run env cmds w)) (adb (tenants_exec env c (tenants_run env cmds w)))"
  by (rule tenants_exec_lifecycle [OF tenants_run_wf [OF assms]])

theorem network_lifecycle_witness:
  "stays_or_moves ''n1'' (adb (tenants_run ex_env [RegisterNetwork ''n1'' ''d1'' 7 ''t1'' ''K'' ''home'' None ''eu1''] ex_trial))
    (adb (tenants_exec ex_env (MarkNetworkActive 8 ''n1'')
      (tenants_run ex_env [RegisterNetwork ''n1'' ''d1'' 7 ''t1'' ''K'' ''home'' None ''eu1''] ex_trial)))"
  by (rule network_lifecycle [OF ex_trial_wf])

text \<open>C23. One-time codes are single use. Once a code was accepted, by a web flow or by the daemon enrollment, no flow
  of any purpose accepts it again, whatever operations run in between, unless the same code is issued anew.\<close>

theorem code_single_use:
  assumes "db_wf (adb w)"
    and "consume_code env now code p w = (Some email, w') \<or> enroll env i now code pk w = (Inr x, w')"
    and "\<forall>c \<in> set cmds. issued_hash env c \<noteq> Some (hash_code env code)"
  shows "fst (consume_code env now' code p' (tenants_run env cmds w')) = None \<and>
    (\<exists>e. enroll env i' now' code pk' (tenants_run env cmds w') = (Inl e, tenants_run env cmds w'))"
proof -
  have "code_spent (hash_code env code) (adb w')"
    using assms(2) consume_code_spends [OF assms(1)] enroll_spends [OF assms(1)] by blast
  then have s: "code_spent (hash_code env code) (adb (tenants_run env cmds w'))"
    by (rule code_spent_run [OF _ assms(3)])
  show ?thesis
    using enroll_refused [OF s] spent_not_accepted [OF s] consume_code_accept [of env now' code p'] by blast
qed

definition ex_coded :: authority where
  "ex_coded = ex_trial\<lparr>adb := (adb ex_trial)\<lparr>enrollment_codes :=
     [\<lparr>c_code_hash = ''h'', c_email = ''a@b.c'', c_tenant_id = None, c_purpose = ''signup'', c_expires_at = 300,
       c_used_at = None\<rparr>]\<rparr>\<rparr>"

theorem code_single_use_witness:
  "fst (consume_code ex_env 20 ''ABC'' PasswordReset (tenants_run ex_env [SweepDeregistered]
     (snd (consume_code ex_env 10 ''ABC'' Signup ex_coded)))) = None"
proof -
  have wf: "db_wf (adb ex_coded)"
    by (simp add: ex_coded_def ex_trial_eq ex_defs db_wf_defs unique_where_def)
  have c: "consume_code ex_env 10 ''ABC'' Signup ex_coded = (Some ''a@b.c'', snd (consume_code ex_env 10 ''ABC'' Signup ex_coded))"
    by (simp add: consume_code_def repo_consume_code_def ex_coded_def web_usable_def hash_code_def ex_env_def ex_crypto_def)
  show ?thesis by (rule conjunct1 [OF code_single_use [OF wf disjI1 [OF c]]]) simp
qed

text \<open>The sweep removes exactly the deregistered tenants that own no network, counts them, keeps every network,
  and takes their subscriptions, sessions and login methods with them while every other tenant keeps its own.\<close>

theorem sweep_spec:
  assumes "db_wf (adb w)" and "sweep_deregistered w = (n, w')"
  shows "networks (adb w') = networks (adb w) \<and>
    tenants (adb w') = filter (\<lambda>t. tenant_live t \<or> network_count_by_tenant (t_id t) (adb w) > 0) (tenants (adb w)) \<and>
    n + length (tenants (adb w')) = length (tenants (adb w)) \<and>
    filter (\<lambda>s. s_tenant_id s = x) (subscriptions (adb w')) =
      (if tenant_exists x (adb w') then filter (\<lambda>s. s_tenant_id s = x) (subscriptions (adb w)) else []) \<and>
    filter (\<lambda>s. ss_tenant_id s = x) (sessions (adb w')) =
      (if tenant_exists x (adb w') then filter (\<lambda>s. ss_tenant_id s = x) (sessions (adb w)) else []) \<and>
    filter (\<lambda>s. i_tenant_id s = x) (tenant_identities (adb w')) =
      (if tenant_exists x (adb w') then filter (\<lambda>s. i_tenant_id s = x) (tenant_identities (adb w)) else [])"
proof -
  let ?d = "adb w" and ?gone = "map t_id (filter (sweepable (adb w)) (tenants (adb w)))"
  have w': "adb w' = delete_tenants (sweepable ?d) ?d" and n: "n = sql_count (sweepable ?d) (tenants ?d)"
    using assms(2) by (auto simp: sweep_deregistered_def delete_tombstoned_empty_def)
  have wf: "db_wf (adb w')" using delete_tenants_wf [OF assms(1)] by (simp add: w')
  have nets: "networks (adb w') = networks ?d"
    using sweep_networks [OF assms(1)] by (simp add: w' delete_tombstoned_empty_def)
  have t: "tenants (adb w') = sql_delete (sweepable ?d) (tenants ?d)" by (simp add: w' delete_tenants_def Let_def)
  have alive: "x \<in> set (map t_id (tenants (adb w'))) \<Longrightarrow> x \<notin> set ?gone"
    unfolding t by (rule swept_ids_gone [OF db_wf_tenant_id [OF assms(1)]])
  have "sweepable ?d t \<longleftrightarrow> \<not> (tenant_live t \<or> network_count_by_tenant (t_id t) ?d > 0)" for t
    by (simp add: sweepable_def network_count_by_tenant_def sql_count_zero_iff)
  then have t': "tenants (adb w') = filter (\<lambda>t. tenant_live t \<or> network_count_by_tenant (t_id t) ?d > 0) (tenants ?d)"
    by (simp add: t sql_delete_def)
  have s: "subscriptions (adb w') = sql_delete (\<lambda>r. s_tenant_id r \<in> set ?gone) (subscriptions ?d)"
    "sessions (adb w') = sql_delete (\<lambda>r. ss_tenant_id r \<in> set ?gone) (sessions ?d)"
    "tenant_identities (adb w') = sql_delete (\<lambda>r. i_tenant_id r \<in> set ?gone) (tenant_identities ?d)"
    by (simp_all only: w' delete_tenants_def Let_def) simp_all
  have "n + length (tenants (adb w')) = length (tenants ?d)" by (simp add: n t sql_count_delete_length)
  then show ?thesis
    using nets t' cascade_filter [OF db_wf_sub_tenant [OF wf, unfolded s] alive]
      cascade_filter [OF db_wf_session_tenant [OF wf, unfolded s] alive]
      cascade_filter [OF db_wf_identity_tenant [OF wf, unfolded s] alive]
    unfolding tenant_exists_iff s by blast
qed

theorem sweep_spec_witness:
  "networks (adb (snd (sweep_deregistered ex_trial))) = networks (adb ex_trial)"
proof -
  obtain n w' where e: "sweep_deregistered ex_trial = (n, w')" by fastforce
  show ?thesis using sweep_spec [OF ex_trial_wf e] by (simp add: e)
qed

section \<open>The issuance limit\<close>

definition within_limit :: "string \<Rightarrow> db \<Rightarrow> bool" where
  "within_limit ip d = (\<forall>since. sql_count (\<lambda>l. fst l = ip \<and> since < snd l \<and> snd l \<le> since + hours 1)
     (enrollment_code_log d) \<le> 10)"

lemma within_limit_log:
  assumes "within_limit ip d" and "count_code_requests_from_ip ip (now - hours 1) d < 10"
  shows "within_limit ip (log_code_request ip now d)"
  unfolding within_limit_def
proof
  fix since
  let ?w = "\<lambda>l. fst l = ip \<and> since < snd l \<and> snd l \<le> since + hours 1"
  have old: "sql_count ?w (enrollment_code_log d) \<le> 10" using assms(1) by (simp add: within_limit_def)
  show "sql_count ?w (enrollment_code_log (log_code_request ip now d)) \<le> 10"
  proof (cases "?w (ip, now)")
    case True
    have "sql_count ?w (enrollment_code_log d) \<le> sql_count (\<lambda>l. fst l = ip \<and> now - hours 1 < snd l) (enrollment_code_log d)"
      using True by (intro sql_count_mono) auto
    then show ?thesis using assms(2) by (simp add: log_code_request_def count_code_requests_from_ip_def)
  next
    case False
    then show ?thesis using old by (auto simp: log_code_request_def)
  qed
qed

lemma log_other_ip: "ip' \<noteq> ip \<Longrightarrow> within_limit ip' d \<Longrightarrow> within_limit ip' (log_code_request ip now d)"
  by (simp add: within_limit_def log_code_request_def)

lemma issue_code_log: "issue_code h e t p x d = Inr d' \<Longrightarrow> enrollment_code_log d' = enrollment_code_log d"
  by (auto simp: issue_code_def split: if_splits)

lemma within_limit_same: "enrollment_code_log d' = enrollment_code_log d \<Longrightarrow> within_limit ip d \<Longrightarrow> within_limit ip d'"
  by (simp add: within_limit_def)

lemma issue_signup_code_within:
  assumes "within_limit ip' (adb w)"
  shows "within_limit ip' (adb (snd (issue_signup_code env now picks email ip purpose w)))"
proof (cases "count_code_requests_from_ip ip (now - hours 1) (adb w) \<ge> CODE_REQUESTS_PER_IP_PER_HOUR")
  case True
  then have "adb (snd (issue_signup_code env now picks email ip purpose w)) = adb w"
    by (simp add: issue_signup_code_def split: sum.splits)
  then show ?thesis using assms by simp
next
  case False
  then have l: "within_limit ip' (log_code_request ip now (adb w))"
    using assms within_limit_log [of ip "adb w" now] log_other_ip [of ip' ip]
    by (cases "ip' = ip") (auto simp: CODE_REQUESTS_PER_IP_PER_HOUR_def)
  show ?thesis
    using issue_signup_code_adb [of env now picks email ip purpose w]
    by (elim disjE exE conjE) (simp_all add: assms l within_limit_same [OF issue_code_log])
qed

lemma resolve_tenant_log:
  "resolve_tenant c i now d = Inr (Some (x, b, d')) \<Longrightarrow> enrollment_code_log d' = enrollment_code_log d"
  by (auto simp: resolve_tenant_def tenant_create_def split: option.splits if_splits sum.splits)

lemma enroll_log: "enrollment_code_log (adb (snd (enroll env i now code pk w))) = enrollment_code_log (adb w)"
proof -
  have "repo_enroll h pk i now ttl d = Inr (r, d') \<Longrightarrow> enrollment_code_log d' = enrollment_code_log d" for h ttl d r d'
    by (cases r) (auto elim!: repo_enroll_Enrolled dest!: resolve_tenant_log repo_enroll_BadCode
        simp: burn_def upsert_pending_def)
  then show ?thesis using enroll_adb [of env i now code pk w] by (elim disjE exE) simp_all
qed

lemma register_network_log:
  "enrollment_code_log (adb (snd (register_network env i j now x pk slug dn region w))) = enrollment_code_log (adb w)"
  using register_network_adb [of env i j now x pk slug dn region w]
proof (elim disjE exE conjE)
  fix dmn mn md
  assume "repo_register_network (new_network i now x slug dn (trim region)) dmn mn md (adb w) =
    Inr (Created, adb (snd (register_network env i j now x pk slug dn region w)))"
  from register_inserts_Created(1) [OF repo_register_network_Created(3) [OF this]] show ?thesis by simp
qed simp

lemma register_tenant_log:
  "enrollment_code_log (adb (snd (register_tenant i now email w))) = enrollment_code_log (adb w)"
  by (auto simp: register_tenant_adb tenant_create_def split: sum.splits prod.splits if_splits)

lemma deregister_tenant_log:
  "enrollment_code_log (adb (snd (deregister_tenant now x w))) = enrollment_code_log (adb w)"
  using deregister_tenant_adb [of now x w] by (elim disjE) (simp_all add: set_deregistered_def)

lemma delete_network_log:
  "enrollment_code_log (adb (snd (delete_network now x slug w))) = enrollment_code_log (adb w)"
  using delete_network_adb [of now x slug w] by (elim disjE exE) (simp_all add: set_deprovisioning_def)

lemma issue_tenant_code_log:
  "enrollment_code_log (adb (snd (issue_tenant_code env now picks x w))) = enrollment_code_log (adb w)"
  using issue_tenant_code_adb [of env now picks x w] by (elim disjE exE conjE) (simp_all add: issue_code_log)

lemmas same_log = enroll_log register_network_log register_tenant_log deregister_tenant_log delete_network_log
  issue_tenant_code_log

lemma within_limit_exec:
  assumes "within_limit ip (adb w)"
  shows "within_limit ip (adb (tenants_exec env c w))"
proof (cases "enrollment_code_log (adb (tenants_exec env c w)) = enrollment_code_log (adb w)")
  case True
  then show ?thesis using assms by (rule within_limit_same)
next
  case False
  with assms show ?thesis
    by (cases c) (simp_all add: issue_signup_code_within same_log sweep_adb delete_tombstoned_empty_def
        delete_tenants_def consume_code_adb repo_consume_code_def burn_def mark_network_active_adb mark_active_def
        finish_deprovision_adb delete_if_deprovisioning_def delete_networks_def Let_def remove_daemon_def
        daemon_remove_def deprovision_networks_for_def set_deprovisioning_for_tenant_def)
qed

text \<open>Code issuance is rate limited. Whatever operations run, no address ever has more than ten logged code
  requests in any one-hour window, and a request beyond that is refused without any change.\<close>

theorem issuance_rate_limited:
  assumes "within_limit ip (adb w)"
  shows "within_limit ip (adb (tenants_run env cmds w)) \<and>
    (count_code_requests_from_ip ip (now - hours 1) (adb w) \<ge> 10 \<longrightarrow>
      (\<exists>e. issue_signup_code env now picks email ip purpose w = (Inl e, w)))"
proof
  show "within_limit ip (adb (tenants_run env cmds w))"
    unfolding tenants_run_def using assms
    by (rule foldl_invariant [where I = "\<lambda>w. within_limit ip (adb w)"]) (simp add: within_limit_exec)
qed (auto simp: issue_signup_code_def CODE_REQUESTS_PER_IP_PER_HOUR_def split: sum.splits)

theorem issuance_rate_limited_witness:
  "within_limit ''1.2.3.4'' (adb (tenants_run ex_env
     [IssueSignupCode 5 [0, 1, 2, 3, 4, 5] ''a@b.c'' ''1.2.3.4'' Signup] ex_trial))"
proof -
  have "within_limit ''1.2.3.4'' (adb ex_trial)" by (simp add: within_limit_def ex_trial_eq ex_defs)
  then show ?thesis using issuance_rate_limited by blast
qed

end
