(* ===== verification/Tenants_Api.thy ===== *)
theory Tenants_Api
  imports Tenants_Props
begin

text \<open>
  The HTTP handlers of the Tenants service (\<open>tenants/src/api\<close>): the account plane guarded by
  \<open>require_owner\<close>, the daemon plane, the mesh plane (work queue and resource reads), and the public
  enrollment endpoints. A handler returns the API error or its success value together with the
  authority; status codes are numbers. The JSON decoder of the token request is a parameter.

  The lemmas show tenant isolation (a caller's request leaves every other tenant's rows alone), that
  the mesh transitions can be retried, and what a token request must carry to be answered.
\<close>

section \<open>Views\<close>

definition network_view_of :: "network \<Rightarrow> network_view" where
  "network_view_of n =
     \<lparr>nv_id = n_id n, nv_tenant_id = n_tenant_id n, nv_slug = n_slug n, nv_display_name = n_display_name n,
      nv_region = n_region n, nv_provisioning_state = n_provisioning_state n,
      nv_created_at = n_created_at n, nv_updated_at = n_updated_at n\<rparr>"

definition tenant_view_of :: "tenant \<Rightarrow> subscription_view option \<Rightarrow> tenant_view" where
  "tenant_view_of t sub =
     \<lparr>tv_id = t_id t, tv_email = t_email t, tv_subscription = sub, tv_created_at = t_created_at t\<rparr>"

definition daemon_view_of :: "daemon \<Rightarrow> daemon_view" where
  "daemon_view_of d =
     \<lparr>dv_id = d_id d, dv_network_id = d_network_id d, dv_public_key = d_public_key d, dv_created_at = d_created_at d\<rparr>"

definition from_tenants :: "tenants_error + 'a \<Rightarrow> api_error + 'a" where
  "from_tenants r = (case r of Inl e \<Rightarrow> Inl (tenants_api_error e) | Inr x \<Rightarrow> Inr x)"

section \<open>Account plane\<close>

fun require_owner :: "caller \<Rightarrow> string \<Rightarrow> api_error + string" where
  "require_owner (UserCaller u) x =
     (if uc_tenant_id u = x then Inr (uc_user_id u) else Inl (Forbidden ''not your tenant''))"
| "require_owner (DaemonCaller d) x = Inl (Forbidden ''user credential required'')"
| "require_owner (ServiceCaller s) x = Inl (Forbidden ''user credential required'')"

definition me :: "caller \<Rightarrow> authority \<Rightarrow> api_error + me_view" where
  "me caller w =
     (case caller of
        UserCaller u \<Rightarrow>
          (case find_tenant (uc_tenant_id u) w of
             None \<Rightarrow> Inl (NotFound ''no such tenant'')
           | Some t \<Rightarrow> Inr \<lparr>mv_tenant_id = t_id t, mv_email = t_email t,
                              mv_subscription = port_current (uc_tenant_id u) w\<rparr>)
      | _ \<Rightarrow> Inl (Forbidden ''user credential required''))"

definition api_issue_tenant_code ::
  "tenants_env \<Rightarrow> instant \<Rightarrow> nat list \<Rightarrow> caller \<Rightarrow> string \<Rightarrow> authority \<Rightarrow> (api_error + string option) \<times> authority" where
  "api_issue_tenant_code env now picks caller x w =
     (case require_owner caller x of
        Inl e \<Rightarrow> (Inl e, w)
      | Inr _ \<Rightarrow>
          (case issue_tenant_code env now picks x w of
             (Inl e, w') \<Rightarrow> (Inl (tenants_api_error e), w')
           | (Inr code, w') \<Rightarrow> (Inr (if env_email_delivers env then None else Some code), w')))"

definition api_list_networks :: "caller \<Rightarrow> string \<Rightarrow> authority \<Rightarrow> api_error + network_view list" where
  "api_list_networks caller x w =
     (case require_owner caller x of
        Inl e \<Rightarrow> Inl e | Inr _ \<Rightarrow> Inr (map network_view_of (list_networks x w)))"

definition api_list_tenant_daemons :: "caller \<Rightarrow> string \<Rightarrow> authority \<Rightarrow> api_error + daemon_view list" where
  "api_list_tenant_daemons caller x w =
     (case require_owner caller x of
        Inl e \<Rightarrow> Inl e | Inr _ \<Rightarrow> Inr (map daemon_view_of (list_tenant_daemons x w)))"

definition api_list_network_daemons :: "caller \<Rightarrow> string \<Rightarrow> authority \<Rightarrow> api_error + daemon_view list" where
  "api_list_network_daemons caller nid w =
     (case caller of
        UserCaller u \<Rightarrow>
          (case list_network_daemons (uc_tenant_id u) nid w of
             Inl e \<Rightarrow> Inl (tenants_api_error e) | Inr ds \<Rightarrow> Inr (map daemon_view_of ds))
      | _ \<Rightarrow> Inl (Forbidden ''user credential required''))"

definition update_tenant :: "instant \<Rightarrow> caller \<Rightarrow> string \<Rightarrow> string \<Rightarrow> authority \<Rightarrow> (api_error + nat) \<times> authority" where
  "update_tenant now caller x subscription_status w =
     (case require_owner caller x of
        Inl e \<Rightarrow> (Inl e, w)
      | Inr _ \<Rightarrow>
          if subscription_status \<noteq> ''canceled''
          then (Inl (BadRequest ''only subscription_status=canceled is supported''), w)
          else (Inr 204, cancel now x w))"

definition api_delete_network :: "instant \<Rightarrow> caller \<Rightarrow> string \<Rightarrow> string \<Rightarrow> authority \<Rightarrow> (api_error + nat) \<times> authority" where
  "api_delete_network now caller x slug w =
     (case require_owner caller x of
        Inl e \<Rightarrow> (Inl e, w)
      | Inr _ \<Rightarrow>
          (case delete_network now x slug w of
             (Inl e, w') \<Rightarrow> (Inl (tenants_api_error e), w') | (Inr _, w') \<Rightarrow> (Inr 202, w')))"

definition delete_tenant :: "instant \<Rightarrow> caller \<Rightarrow> string \<Rightarrow> authority \<Rightarrow> (api_error + nat) \<times> authority" where
  "delete_tenant now caller x w =
     (case require_owner caller x of
        Inl e \<Rightarrow> (Inl e, w)
      | Inr _ \<Rightarrow>
          (case deregister_tenant now x w of
             (Inl e, w') \<Rightarrow> (Inl (tenants_api_error e), w') | (Inr _, w') \<Rightarrow> (Inr 202, w')))"

section \<open>Daemon plane\<close>

definition api_register_network ::
  "tenants_env \<Rightarrow> string \<Rightarrow> string \<Rightarrow> instant \<Rightarrow> caller \<Rightarrow> string \<Rightarrow> string option \<Rightarrow> string \<Rightarrow> authority
    \<Rightarrow> (api_error + network_view) \<times> authority" where
  "api_register_network env new_net new_daemon now caller slug display_name region w =
     (case caller of
        DaemonCaller d \<Rightarrow>
          (case register_network env new_net new_daemon now (dc_tenant_id d) (dc_public_key d) slug display_name region w of
             (Inl e, w') \<Rightarrow> (Inl (tenants_api_error e), w')
           | (Inr n, w') \<Rightarrow> (Inr (network_view_of n), w'))
      | _ \<Rightarrow> (Inl (Forbidden ''daemon credential required''), w))"

definition remove_self :: "caller \<Rightarrow> string \<Rightarrow> authority \<Rightarrow> (api_error + nat) \<times> authority" where
  "remove_self caller network_id w =
     (case caller of
        DaemonCaller d \<Rightarrow>
          if dc_network d \<noteq> Some network_id
          then (Inl (Forbidden ''daemon may only remove itself from its own network''), w)
          else (Inr 204, remove_daemon (dc_public_key d) network_id w)
      | _ \<Rightarrow> (Inl (Forbidden ''daemon credential required''), w))"

definition availability :: "string \<Rightarrow> authority \<Rightarrow> bool" where
  "availability slug w = check_availability slug w"

section \<open>Enrollment plane\<close>

definition api_enroll ::
  "tenants_env \<Rightarrow> string \<Rightarrow> instant \<Rightarrow> string \<Rightarrow> string \<Rightarrow> authority \<Rightarrow> (api_error + string) \<times> authority" where
  "api_enroll env new_id now code public_key w =
     (case enroll env new_id now code public_key w of
        (Inl e, w') \<Rightarrow> (Inl (tenants_api_error e), w') | (Inr x, w') \<Rightarrow> (Inr x, w'))"

definition issue_token ::
  "tenants_env \<Rightarrow> (string \<Rightarrow> string option) \<Rightarrow> instant \<Rightarrow> int \<Rightarrow> request \<Rightarrow> replay_cache \<Rightarrow> authority
    \<Rightarrow> (api_error + string) \<times> replay_cache" where
  "issue_token env token_request now now' rq cache w =
     (case token_request (rq_body rq) of
        None \<Rightarrow> (Inl (BadRequest ''invalid JSON body''), cache)
      | Some public_key \<Rightarrow>
          (case validate_public_key (b64_decode (env_crypto env)) public_key of
             Inl e \<Rightarrow> (Inl e, cache)
           | Inr key \<Rightarrow>
               let path_and_query = (case rq_path_and_query rq of None \<Rightarrow> rq_path rq | Some p \<Rightarrow> p) in
               (case verify_pop_request (env_crypto env) (timestamp now) now' (rq_method rq) path_and_query (rq_headers rq)
                       (rq_body rq) key public_key cache of
                  (Inl reason, cache') \<Rightarrow> (Inl (Unauthorized reason), cache')
                | (Inr _, cache') \<Rightarrow> (from_tenants (mint_jwt env now public_key w), cache'))))"

section \<open>Mesh plane\<close>

definition DEFAULT_LIMIT :: int where "DEFAULT_LIMIT = 100"

definition MAX_LIMIT :: int where "MAX_LIMIT = 500"

definition page_limit :: "int option \<Rightarrow> nat" where
  "page_limit limit = nat (max 1 (min MAX_LIMIT (case limit of None \<Rightarrow> DEFAULT_LIMIT | Some l \<Rightarrow> l)))"

definition not_provisioning :: string where
  "not_provisioning = ''network is not in '' @ [CHR 0x27] @ ''provisioning'' @ [CHR 0x27]"

definition not_deprovisioning :: string where
  "not_deprovisioning = ''network is not in '' @ [CHR 0x27] @ ''deprovisioning'' @ [CHR 0x27]"

definition escape_debug :: "char \<Rightarrow> string" where
  "escape_debug c =
     (if c = CHR 0x22 \<or> c = CHR 0x5C then [CHR 0x5C, c]
      else if c = CHR 0x0A then [CHR 0x5C, CHR ''n'']
      else if c = CHR 0x0D then [CHR 0x5C, CHR ''r'']
      else if c = CHR 0x09 then [CHR 0x5C, CHR ''t'']
      else [c])"

definition debug_str :: "string \<Rightarrow> string" where
  "debug_str s = [CHR 0x22] @ concat (map escape_debug s) @ [CHR 0x22]"

definition list_for_reconcile ::
  "string \<Rightarrow> string \<Rightarrow> string option \<Rightarrow> int option \<Rightarrow> authority \<Rightarrow> api_error + network_view list" where
  "list_for_reconcile state region after_id limit w =
     (case provisioning_from_db state of
        Inl _ \<Rightarrow> Inl (BadRequest ''invalid provisioningState'')
      | Inr st \<Rightarrow> Inr (map network_view_of (reconcile_page st region after_id (page_limit limit) w)))"

definition transition_network :: "instant \<Rightarrow> string \<Rightarrow> string \<Rightarrow> authority \<Rightarrow> (api_error + nat) \<times> authority" where
  "transition_network now nid target w =
     (if target = ''active'' then
        (case mark_network_active now nid w of
           (True, w') \<Rightarrow> (Inr 204, w')
         | (False, w') \<Rightarrow>
             (case network_state nid w' of
                Some Active \<Rightarrow> (Inr 204, w')
              | None \<Rightarrow> (Inl (NotFound ''no such network''), w')
              | Some _ \<Rightarrow> (Inl (Conflict not_provisioning), w')))
      else if target = ''deprovisioned'' then
        (case finish_deprovision nid w of
           (True, w') \<Rightarrow> (Inr 204, w')
         | (False, w') \<Rightarrow>
             (case network_state nid w' of
                None \<Rightarrow> (Inr 204, w')
              | Some _ \<Rightarrow> (Inl (Conflict not_deprovisioning), w')))
      else (Inl (BadRequest (''unsupported transition target '' @ debug_str target)), w))"

definition get_network :: "string \<Rightarrow> authority \<Rightarrow> api_error + network_view" where
  "get_network nid w =
     (case find_network nid w of
        None \<Rightarrow> Inl (NotFound ''no such network'') | Some n \<Rightarrow> Inr (network_view_of n))"

definition get_tenant :: "string \<Rightarrow> authority \<Rightarrow> api_error + tenant_view" where
  "get_tenant x w =
     (case find_tenant x w of
        None \<Rightarrow> Inl (NotFound ''no such tenant'') | Some t \<Rightarrow> Inr (tenant_view_of t (port_current x w)))"

section \<open>Tenant isolation\<close>

datatype api_cmd =
    IssueTenantCodeReq instant "nat list" string
  | UpdateTenantReq instant string string
  | DeleteNetworkReq instant string string
  | DeleteTenantReq instant string
  | RegisterNetworkReq string string instant string "string option" string
  | RemoveSelfReq string

fun api_exec :: "tenants_env \<Rightarrow> caller \<Rightarrow> api_cmd \<Rightarrow> authority \<Rightarrow> authority" where
  "api_exec env caller (IssueTenantCodeReq now picks x) w = snd (api_issue_tenant_code env now picks caller x w)"
| "api_exec env caller (UpdateTenantReq now x status) w = snd (update_tenant now caller x status w)"
| "api_exec env caller (DeleteNetworkReq now x slug) w = snd (api_delete_network now caller x slug w)"
| "api_exec env caller (DeleteTenantReq now x) w = snd (delete_tenant now caller x w)"
| "api_exec env caller (RegisterNetworkReq i j now slug dn region) w =
     snd (api_register_network env i j now caller slug dn region w)"
| "api_exec env caller (RemoveSelfReq nid) w = snd (remove_self caller nid w)"

text \<open>
  Everything the database holds for one tenant (the pending bindings apart: they belong to a key
  that has not chosen a network yet, and registering with that key consumes them).
\<close>

definition tenant_rows :: "string \<Rightarrow> db \<Rightarrow> tenant list \<times> subscription list \<times> network list \<times> daemon list \<times>
    enrollment_code list \<times> tenant_identity list \<times> session list \<times> billing_customer list" where
  "tenant_rows y d =
     (filter (\<lambda>r. t_id r = y) (tenants d), filter (\<lambda>r. s_tenant_id r = y) (subscriptions d),
      filter (\<lambda>r. n_tenant_id r = y) (networks d), filter (\<lambda>r. d_tenant_id r = y) (daemons d),
      filter (\<lambda>r. c_tenant_id r = Some y) (enrollment_codes d),
      filter (\<lambda>r. i_tenant_id r = y) (tenant_identities d), filter (\<lambda>r. ss_tenant_id r = y) (sessions d),
      filter (\<lambda>r. bc_tenant_id r = y) (billing_customers d))"

definition token_scope :: "caller \<Rightarrow> db \<Rightarrow> bool" where
  "token_scope caller d =
     (case caller of
        DaemonCaller c \<Rightarrow> (\<forall>r \<in> set (daemons d). d_public_key r = dc_public_key c \<longrightarrow>
          Some (d_network_id r) = dc_network c \<longrightarrow> d_tenant_id r = dc_tenant_id c)
      | _ \<Rightarrow> True)"

lemma require_owner_Inr: "require_owner caller x = Inr u \<Longrightarrow> caller_tenant_id caller = Some x"
  by (cases caller) (auto split: if_splits)

lemma tenant_rows_cancel: "y \<noteq> x \<Longrightarrow> tenant_rows y (adb (cancel now x w)) = tenant_rows y (adb w)"
  by (auto simp: tenant_rows_def cancel_def cancel_current_def cancel_live_def live_of_def
      intro!: filter_sql_update_other split: prod.splits)

lemma tenant_rows_deregister:
  "y \<noteq> x \<Longrightarrow> tenant_rows y (adb (snd (deregister_tenant now x w))) = tenant_rows y (adb w)"
  using deregister_tenant_adb [of now x w]
  by (elim disjE) (auto simp: tenant_rows_def set_deregistered_def intro!: filter_sql_update_other)

lemma tenant_rows_issue:
  assumes "y \<noteq> x"
  shows "tenant_rows y (adb (snd (issue_tenant_code env now picks x w))) = tenant_rows y (adb w)"
proof -
  have "issue_code h e (Some x) p t d = Inr d' \<Longrightarrow> tenant_rows y d' = tenant_rows y d" for h e p t d d'
    using assms by (auto simp: issue_code_def tenant_rows_def split: if_splits)
  then show ?thesis
    using issue_tenant_code_adb [of env now picks x w] by (elim disjE exE conjE) simp_all
qed

lemma tenant_rows_register:
  assumes "y \<noteq> x"
  shows "tenant_rows y (adb (snd (register_network env i j now x pk slug dn region w))) = tenant_rows y (adb w)"
  using register_network_adb [of env i j now x pk slug dn region w]
proof (elim disjE exE conjE)
  fix dmn mn md
  assume r: "repo_register_network (new_network i now x slug dn (trim region)) dmn mn md (adb w) =
    Inr (Created, adb (snd (register_network env i j now x pk slug dn region w)))" and "d_tenant_id dmn = x"
  from register_inserts_Created(1) [OF repo_register_network_Created(3) [OF r]] this(2) assms show ?thesis
    by (simp add: tenant_rows_def new_network_def)
qed simp

lemma tenant_rows_delete_network:
  assumes "db_wf (adb w)" and "y \<noteq> x"
  shows "tenant_rows y (adb (snd (delete_network now x slug w))) = tenant_rows y (adb w)"
proof (cases "network_find_by_slug slug (adb w)")
  case (Some n)
  have "r \<in> set (networks (adb w)) \<Longrightarrow> n_id r = n_id n \<Longrightarrow> n_tenant_id r = n_tenant_id n" for r
    using db_wf_net_id [OF assms(1)] find_Some_D [OF Some [unfolded network_find_by_slug_def]]
    by (auto simp: distinct_map inj_on_def)
  then show ?thesis
    using Some assms(2)
    by (auto simp: delete_network_def set_deprovisioning_def tenant_rows_def intro!: filter_sql_update_other)
qed (simp add: delete_network_def)

lemma tenant_rows_remove:
  assumes "\<And>r. r \<in> set (daemons (adb w)) \<Longrightarrow> d_public_key r = pk \<Longrightarrow> d_network_id r = nid \<Longrightarrow> d_tenant_id r = x"
    and "y \<noteq> x"
  shows "tenant_rows y (adb (remove_daemon pk nid w)) = tenant_rows y (adb w)"
  using assms by (auto simp: remove_daemon_def daemon_remove_def tenant_rows_def intro!: filter_sql_delete_other)

lemma snd_if_case_sum:
  "snd (case p of (Inl e, w) \<Rightarrow> (Inl (f e), w) | (Inr x, w) \<Rightarrow> (Inr (g x), w)) = snd p"
  by (cases p) (auto split: sum.splits)



section \<open>Token requests\<close>

lemma from_tenants_Inr: "from_tenants r = Inr x \<longleftrightarrow> r = Inr x"
  by (auto simp: from_tenants_def split: sum.splits)

lemma verify_pop_request_fresh:
  "(\<exists>c. verify_pop_request cr now now' m pq hs body key subject cache = (Inr u, c)) \<longleftrightarrow>
    (\<exists>ts. request_time hs = Some ts \<and> \<bar>now - ts\<bar> \<le> 60 \<and>
       signed_over cr key (canonical_request_payload m pq ts (sha256_hex cr body)) hs \<and>
       \<not> fst (contains_or_insert (replay_key subject ts (sha256_hex cr body)) now' cache))"
proof -
  have "(\<exists>c. contains_or_insert k now' cache = (False, c)) \<longleftrightarrow> \<not> fst (contains_or_insert k now' cache)" for k
    by (cases "contains_or_insert k now' cache") auto
  then show ?thesis unfolding verify_pop_request_iff by blast
qed

text \<open>A token request is answered with a token exactly when its body names a valid key, the request is signed by that
  very key within the time window and is not a replay, and the key is one a token can be minted for.\<close>

theorem issue_token_exactly:
  "fst (issue_token env token_request now now' rq cache w) = Inr token \<longleftrightarrow>
   (\<exists>pk key ts. token_request (rq_body rq) = Some pk \<and>
     validate_public_key (b64_decode (env_crypto env)) pk = Inr key \<and>
     request_time (rq_headers rq) = Some ts \<and> \<bar>timestamp now - ts\<bar> \<le> TIMESTAMP_WINDOW_SECS \<and>
     signed_over (env_crypto env) key
       (canonical_request_payload (rq_method rq) (case rq_path_and_query rq of None \<Rightarrow> rq_path rq | Some p \<Rightarrow> p) ts
         (sha256_hex (env_crypto env) (rq_body rq))) (rq_headers rq) \<and>
     \<not> fst (contains_or_insert (replay_key pk ts (sha256_hex (env_crypto env) (rq_body rq))) now' cache) \<and>
     mint_jwt env now pk w = Inr token)"
  (is "?L \<longleftrightarrow> (\<exists>pk key ts. ?R pk key ts)")
proof (cases "\<exists>pk key. token_request (rq_body rq) = Some pk \<and> validate_public_key (b64_decode (env_crypto env)) pk = Inr key")
  case False
  then show ?thesis by (auto simp: issue_token_def split: option.splits sum.splits)
next
  case True
  then obtain pk key where k: "token_request (rq_body rq) = Some pk"
    "validate_public_key (b64_decode (env_crypto env)) pk = Inr key" by blast
  let ?v = "verify_pop_request (env_crypto env) (timestamp now) now' (rq_method rq)
    (case rq_path_and_query rq of None \<Rightarrow> rq_path rq | Some p \<Rightarrow> p) (rq_headers rq) (rq_body rq) key pk cache"
  have "?L \<longleftrightarrow> (\<exists>c. ?v = (Inr (), c)) \<and> mint_jwt env now pk w = Inr token"
    using k by (cases ?v) (auto simp: issue_token_def Let_def from_tenants_Inr split: sum.splits)
  also have "(\<exists>c. ?v = (Inr (), c)) \<and> mint_jwt env now pk w = Inr token \<longleftrightarrow> (\<exists>ts. ?R pk key ts)"
    using k by (auto simp: verify_pop_request_fresh TIMESTAMP_WINDOW_SECS_def)
  also have "\<dots> \<longleftrightarrow> (\<exists>pk key ts. ?R pk key ts)" using k by auto
  finally show ?thesis .
qed

section \<open>Mesh transitions\<close>

lemma transition_network_204:
  "fst (transition_network now nid target w) = Inr c \<Longrightarrow> c = 204"
  by (auto simp: transition_network_def split: if_splits prod.splits bool.splits option.splits provisioning_state.splits)

lemma network_state_find: "network_state nid w = map_option n_provisioning_state (find (\<lambda>n. n_id n = nid) (networks (adb w)))"
  by (simp add: network_state_def network_find_by_id_def)

lemma active_again:
  assumes "network_state nid w = Some Active" and "distinct (map n_id (networks (adb w)))"
  shows "mark_network_active now nid w = (False, w)"
proof -
  have "\<not> sql_exists (\<lambda>n. n_id n = nid \<and> n_provisioning_state n = Provisioning) (networks (adb w))"
    using assms by (auto simp: network_state_find sql_exists_iff distinct_key_find)
  then show ?thesis by (simp add: mark_network_active_def mark_active_def sql_update_none)
qed

lemma gone_again:
  assumes "network_state nid w = None"
  shows "finish_deprovision nid w = (False, w)"
proof -
  have "\<not> sql_exists (\<lambda>n. n_id n = nid \<and> n_provisioning_state n = Deprovisioning) (networks (adb w))"
    using assms by (auto simp: network_state_find find_None_exists sql_exists_iff)
  moreover from this have "filter (\<lambda>n. n_id n = nid \<and> n_provisioning_state n = Deprovisioning) (networks (adb w)) = []"
    by (auto simp: sql_exists_iff filter_empty_conv)
  ultimately show ?thesis
    by (simp add: finish_deprovision_def delete_if_deprovisioning_def delete_networks_def sql_delete_none sql_delete_def [of "\<lambda>_. False"])
qed

lemma transition_active:
  assumes "fst (transition_network now nid ''active'' w) = Inr c" and "distinct (map n_id (networks (adb w)))"
  shows "network_state nid (snd (transition_network now nid ''active'' w)) = Some Active"
proof (cases "fst (mark_network_active now nid w)")
  case True
  then obtain n where n: "n \<in> set (networks (adb w))" "n_id n = nid" "n_provisioning_state n = Provisioning"
    by (auto simp: mark_network_active_def mark_active_def sql_exists_iff)
  have "find (\<lambda>n. n_id n = nid) (sql_update (\<lambda>n. n_id n = nid \<and> n_provisioning_state n = Provisioning)
      (\<lambda>n. n\<lparr>n_provisioning_state := Active, n_updated_at := now\<rparr>) (networks (adb w))) =
    map_option (\<lambda>r. if n_id r = nid \<and> n_provisioning_state r = Provisioning
      then r\<lparr>n_provisioning_state := Active, n_updated_at := now\<rparr> else r) (find (\<lambda>n. n_id n = nid) (networks (adb w)))"
    by (rule find_sql_update_keep) simp
  with n True assms(2) show ?thesis
    by (auto simp: transition_network_def mark_network_active_def mark_active_def network_state_find distinct_key_find)
next
  case False
  with assms show ?thesis
    by (auto simp: transition_network_def split: prod.splits bool.splits option.splits provisioning_state.splits)
qed

lemma transition_deprovisioned:
  assumes "fst (transition_network now nid ''deprovisioned'' w) = Inr c" and "distinct (map n_id (networks (adb w)))"
  shows "network_state nid (snd (transition_network now nid ''deprovisioned'' w)) = None"
proof (cases "fst (finish_deprovision nid w)")
  case True
  then obtain n where n: "n \<in> set (networks (adb w))" "n_id n = nid" "n_provisioning_state n = Deprovisioning"
    by (auto simp: finish_deprovision_def delete_if_deprovisioning_def sql_exists_iff)
  have "r \<in> set (networks (adb w)) \<Longrightarrow> n_id r = nid \<Longrightarrow> n_provisioning_state r = Deprovisioning" for r
    using n assms(2) by (auto simp: distinct_map inj_on_def)
  with True show ?thesis
    by (auto simp: transition_network_def finish_deprovision_def delete_if_deprovisioning_def delete_networks_def
        Let_def network_state_find find_None_exists sql_exists_iff)
next
  case False
  with assms show ?thesis
    by (auto simp: transition_network_def split: prod.splits bool.splits option.splits)
qed

lemma transition_network_ids:
  "distinct (map n_id (networks (adb w))) \<Longrightarrow> distinct (map n_id (networks (adb (snd (transition_network now nid target w)))))"
  by (auto simp: transition_network_def mark_network_active_def mark_active_def finish_deprovision_def
      delete_if_deprovisioning_def delete_networks_def Let_def map_key_update distinct_key_delete
      split: bool.splits option.splits provisioning_state.splits)

text \<open>Mesh transitions can be retried: once a transition was acknowledged, repeating it later is acknowledged again
  and changes nothing.\<close>

theorem transition_retry:
  assumes "db_wf (adb w)" and "fst (transition_network now nid target w) = Inr c"
  shows "transition_network now' nid target (snd (transition_network now nid target w)) =
    (Inr c, snd (transition_network now nid target w))"
proof -
  let ?w = "snd (transition_network now nid target w)"
  have ids: "distinct (map n_id (networks (adb w)))" and ids': "distinct (map n_id (networks (adb ?w)))"
    using db_wf_net_id [OF assms(1)] transition_network_ids by blast+
  have c: "c = 204" using assms(2) by (rule transition_network_204)
  consider (a) "target = ''active''" "network_state nid ?w = Some Active"
    | (d) "target = ''deprovisioned''" "network_state nid ?w = None"
    using assms(2) ids transition_active [of now nid w] transition_deprovisioned [of now nid w]
    by (cases "target = ''active'' \<or> target = ''deprovisioned''") (auto simp: transition_network_def)
  then show ?thesis
  proof cases
    case a
    then show ?thesis using active_again [OF a(2) ids'] by (simp add: c transition_network_def [of now' nid])
  next
    case d
    then show ?thesis using gone_again [OF d(2)] by (simp add: c transition_network_def [of now' nid])
  qed
qed

definition ex_registered :: authority where
  "ex_registered = ex_trial\<lparr>adb := (adb ex_trial)\<lparr>networks := [(ex_net ''home'')\<lparr>n_id := ''n1''\<rparr>]\<rparr>\<rparr>"

lemma ex_registered_wf: "db_wf (adb ex_registered)"
  using ex_trial_wf by (simp add: ex_registered_def ex_trial_eq ex_defs ex_net_def db_wf_defs)

theorem transition_retry_witness:
  "transition_network 9 ''n1'' ''active'' (snd (transition_network 8 ''n1'' ''active'' ex_registered)) =
    (Inr 204, snd (transition_network 8 ''n1'' ''active'' ex_registered))"
proof (rule transition_retry)
  show "db_wf (adb ex_registered)" by (rule ex_registered_wf)
  show "fst (transition_network 8 ''n1'' ''active'' ex_registered) = Inr 204"
    by (simp add: transition_network_def mark_network_active_def mark_active_def ex_registered_def ex_net_def)
qed

section \<open>From the enrolled key to the admitted request\<close>

text \<open>A minted token works: within its hour, at every service of its audience, a fresh request that carries the token
  and is signed by the key it was minted for is admitted, as the daemon of that tenant and network.\<close>

theorem minted_token_admits:
  assumes "jwt_roundtrip (env_jwt_encode env) (ax_jwt_decode ax)"
    and "mint_jwt env now pk w = Inr token" and "daemon_scope now pk (adb w) = Some (x, net)"
    and "ax_service ax = ''tenants'' \<or> net \<noteq> None \<and> ax_service ax \<in> {''ddns'', ''tunneller''}"
    and "t \<le> timestamp now + 3600" and "DAEMON \<in> allowed"
    and "rq_service rq = None" and "bearer (rq_headers rq) = Some token" and "length (rq_body rq) \<le> MAX_BODY_BYTES"
    and "b64_decode (ax_crypto ax) (trim pk) = Some key" and "length key = 32"
    and "request_time (rq_headers rq) = Some ts" and "\<bar>t - ts\<bar> \<le> 60"
    and "signed_over (ax_crypto ax) key
       (canonical_request_payload (rq_method rq) (case rq_path_and_query rq of None \<Rightarrow> rq_path rq | Some p \<Rightarrow> p) ts
         (sha256_hex (ax_crypto ax) (rq_body rq))) (rq_headers rq)"
    and "\<not> fst (contains_or_insert (replay_key pk ts (sha256_hex (ax_crypto ax) (rq_body rq))) t' cache)"
  shows "fst (authenticate ax allowed t t' rq cache) =
    Inr (DaemonCaller \<lparr>dc_tenant_id = x, dc_public_key = pk, dc_network = net\<rparr>)"
proof -
  let ?c = "spec_claims (mint_spec pk x net) (timestamp now) IDENTITY_JWT_TTL_SECS"
  have s: "sign (env_jwt_encode env) (mint_spec pk x net) (timestamp now) IDENTITY_JWT_TTL_SECS = Inr token"
    using assms(2,3) by (auto simp: mint_jwt_def split: option.splits sum.splits if_splits)
  have v: "verify (ax_jwt_decode ax) (ax_service ax) t token = Inr ?c"
    using assms(4,5) by (intro sign_verify [OF assms(1) s]) (auto simp: mint_spec_def IDENTITY_JWT_TTL_SECS_def)
  have k: "pop_public_key (b64_decode (ax_crypto ax)) ?c = Inr key"
    using assms(10,11) by (simp add: pop_public_key_def spec_claims_def mint_spec_def)
  obtain c where "verify_signed_request (ax_crypto ax) t t' rq pk key cache = (Inr (), c)"
    using assms(12-15) verify_pop_request_fresh
    unfolding verify_signed_request_Inr by (metis (no_types, lifting))
  with assms(6-9) v k show ?thesis
    by (simp add: authenticate_def spec_claims_def mint_spec_def)
qed

definition ex_minted :: claims where
  "ex_minted = spec_claims (mint_spec ''K'' ''t1'' None) 0 3600"

definition ex_codec_env :: tenants_env where
  "ex_codec_env = ex_env\<lparr>env_jwt_encode := (\<lambda>c. if c = ex_minted then Inr ''tok'' else Inl ''unsupported'')\<rparr>"

definition ex_codec_context :: auth_context where
  "ex_codec_context = \<lparr>ax_crypto = ex_crypto,
     ax_jwt_decode = (\<lambda>v now token. if token = ''tok'' \<and> passes v now ex_minted then Inr ex_minted else Inl ''no''),
     ax_service = ''tenants''\<rparr>"

theorem minted_token_admits_witness:
  "fst (authenticate ex_codec_context {DAEMON} 100 100 ex_request []) =
    Inr (DaemonCaller \<lparr>dc_tenant_id = ''t1'', dc_public_key = ''K'', dc_network = None\<rparr>)"
proof (rule minted_token_admits [where env = ex_codec_env and now = 0 and w = ex_pending and token = "''tok''" and ts = 160])
  show "jwt_roundtrip (env_jwt_encode ex_codec_env) (ax_jwt_decode ex_codec_context)"
    by (simp add: jwt_roundtrip_def ex_codec_env_def ex_codec_context_def)
  show "daemon_scope 0 ''K'' (adb ex_pending) = Some (''t1'', None)"
    by (simp add: daemon_scope_def ex_pending_def ex_trial_eq ex_defs daemon_find_by_public_key_def
        find_pending_tenant_def days_def secs_def)
  then show "mint_jwt ex_codec_env 0 ''K'' ex_pending = Inr ''tok''"
    by (simp add: mint_jwt_def tenant_find_by_id_def tenant_live_def port_is_active_def current_def find_current_def
        live_of_def sub_live_def sub_is_active_def sign_def ex_codec_env_def ex_env_def ex_minted_def ex_pending_def
        ex_trial_eq ex_defs IDENTITY_JWT_TTL_SECS_def timestamp_def days_def secs_def)
  show "request_time (rq_headers ex_request) = Some 160"
    by (simp add: request_time_def ex_request_def ex_headers_def header_def to_str_def parse_i64_def parse_signed_def
        parse_nat_def digit_val_def)
  show "signed_over (ax_crypto ex_codec_context) (replicate 32 1)
     (canonical_request_payload (rq_method ex_request)
       (case rq_path_and_query ex_request of None \<Rightarrow> rq_path ex_request | Some p \<Rightarrow> p) 160
       (sha256_hex (ax_crypto ex_codec_context) (rq_body ex_request))) (rq_headers ex_request)"
    by (simp add: signed_over_def ex_request_def ex_headers_def ex_codec_context_def ex_crypto_def header_def to_str_def)
qed (simp_all add: ex_codec_context_def ex_request_def ex_headers_def bearer_def header_def to_str_def strip_prefix_def
    starts_with_def MAX_BODY_BYTES_def ex_crypto_def trim_def trim_start_def is_whitespace_def contains_or_insert_def timestamp_def)

end
