(* ===== verification/Ddns_Reconcile.thy ===== *)
theory Ddns_Reconcile
  imports Cloudflare Tenants_Api
begin

text \<open>
  The regional controller (\<open>ddns/src/reconcile.rs\<close>, \<open>work_queue.rs\<close>): the provisioner and the reaper drain
  cursor pages of the desired-state queue, act on each network through the DNS service and report back.
  The queue is the record \<open>work_queue\<close> of the trait's two operations over an opaque state. The locale
  \<open>desired_state\<close> states what a drain relies on: pages of a sorted listing, and transitions that at most
  take the reported network out of it. Inside it: a drain always ends, and it is one pass over the
  listing. \<open>tenants_queue\<close>, the client over the handlers of the Tenants service, interprets it, so that the
  theorems at the end speak of the composition of the two services.
\<close>

section \<open>The work queue\<close>

record 'q work_queue =
  wq_list :: "string \<Rightarrow> string \<Rightarrow> string option \<Rightarrow> int \<Rightarrow> 'q \<Rightarrow> (string + network_view list) \<times> 'q"
  wq_transition :: "string \<Rightarrow> string \<Rightarrow> 'q \<Rightarrow> (string + unit) \<times> 'q"

definition PAGE_LIMIT :: int where "PAGE_LIMIT = 100"

definition tenants_list ::
  "string \<Rightarrow> string \<Rightarrow> string option \<Rightarrow> int \<Rightarrow> authority \<Rightarrow> (string + network_view list) \<times> authority" where
  "tenants_list state region after_id limit w =
     (case list_for_reconcile state region after_id (Some limit) w of
        Inl e \<Rightarrow> (Inl (''HTTP status '' @ show_nat (fst (into_response e))), w) | Inr page \<Rightarrow> (Inr page, w))"

definition tenants_transition :: "instant \<Rightarrow> string \<Rightarrow> string \<Rightarrow> authority \<Rightarrow> (string + unit) \<times> authority" where
  "tenants_transition now nid target w =
     (case transition_network now nid target w of
        (Inl e, w) \<Rightarrow> (Inl (''HTTP status '' @ show_nat (fst (into_response e))), w)
      | (Inr status, w) \<Rightarrow>
          if status \<noteq> 204
          then (Inl (''unexpected status '' @ show_nat status @ '' transitioning network '' @ nid @ '' to '' @ target), w)
          else (Inr (), w))"

definition tenants_queue :: "instant \<Rightarrow> authority work_queue" where
  "tenants_queue now = \<lparr>wq_list = tenants_list, wq_transition = tenants_transition now\<rparr>"

section \<open>The loops\<close>

definition provisioner_item ::
  "'q work_queue \<Rightarrow> 'z dns_provider \<Rightarrow> instant \<Rightarrow> string \<Rightarrow> 'q \<times> 'z region \<Rightarrow> network_view \<Rightarrow> 'q \<times> 'z region" where
  "provisioner_item wq dns now parent s net =
     (case s of (q, g) \<Rightarrow>
        (case Option.bind (op_find_by_id (nv_id net) (ops g)) o_ip of
           None \<Rightarrow> (q, g)
         | Some ip \<Rightarrow>
             (case provision dns now (nv_id net) (nv_slug net @ ''.'' @ parent) ip g of
                (Inl e, g) \<Rightarrow> (q, g)
              | (Inr _, g) \<Rightarrow> (snd (wq_transition wq (nv_id net) ''active'' q), g))))"

definition reaper_item ::
  "'q work_queue \<Rightarrow> 'z dns_provider \<Rightarrow> 'q \<times> 'z region \<Rightarrow> network_view \<Rightarrow> 'q \<times> 'z region" where
  "reaper_item wq dns s net =
     (case s of (q, g) \<Rightarrow>
        (case delete_records dns (nv_id net) g of
           (Inl e, g) \<Rightarrow> (q, g)
         | (Inr _, g) \<Rightarrow> (snd (wq_transition wq (nv_id net) ''deprovisioned'' q), g)))"

text \<open>
  One tick: fetch a page after the cursor, handle its networks in order, move the cursor to the last of
  them, and go on while pages are full. A failed fetch ends the tick. \<open>None\<close> would be a tick that never ends.
\<close>

partial_function (option) drain ::
  "'q work_queue \<Rightarrow> ('q \<times> 'g \<Rightarrow> network_view \<Rightarrow> 'q \<times> 'g) \<Rightarrow> string \<Rightarrow> string \<Rightarrow> string option \<Rightarrow> 'q \<times> 'g \<Rightarrow> ('q \<times> 'g) option" where
  "drain wq item state region after s =
     (case wq_list wq state region after PAGE_LIMIT (fst s) of
        (Inl e, q) \<Rightarrow> Some (q, snd s)
      | (Inr page, q) \<Rightarrow>
          if page = [] then Some (q, snd s)
          else if int (length page) = PAGE_LIMIT
          then drain wq item state region (Some (nv_id (last page))) (foldl item (q, snd s) page)
          else Some (foldl item (q, snd s) page))"

definition provisioner_tick ::
  "'q work_queue \<Rightarrow> 'z dns_provider \<Rightarrow> instant \<Rightarrow> string \<Rightarrow> string \<Rightarrow> 'q \<times> 'z region \<Rightarrow> ('q \<times> 'z region) option" where
  "provisioner_tick wq dns now region parent s =
     drain wq (provisioner_item wq dns now parent) ''provisioning'' region None s"

definition reaper_tick ::
  "'q work_queue \<Rightarrow> 'z dns_provider \<Rightarrow> string \<Rightarrow> 'q \<times> 'z region \<Rightarrow> ('q \<times> 'z region) option" where
  "reaper_tick wq dns region s = drain wq (reaper_item wq dns) ''deprovisioning'' region None s"

lemma drain_failed: "wq_list wq st r after PAGE_LIMIT (fst s) = (Inl e, q) \<Longrightarrow> drain wq item st r after s = Some (q, snd s)"
  by (subst drain.simps) simp

lemma drain_last:
  "wq_list wq st r after PAGE_LIMIT (fst s) = (Inr page, q) \<Longrightarrow> int (length page) \<noteq> PAGE_LIMIT \<Longrightarrow>
    drain wq item st r after s = Some (foldl item (q, snd s) page)"
  by (subst drain.simps) simp

lemma drain_full:
  "wq_list wq st r after PAGE_LIMIT (fst s) = (Inr page, q) \<Longrightarrow> int (length page) = PAGE_LIMIT \<Longrightarrow>
    drain wq item st r after s = drain wq item st r (Some (nv_id (last page))) (foldl item (q, snd s) page)"
  by (subst drain.simps) (auto simp: PAGE_LIMIT_def)

section \<open>What a drain relies on\<close>

definition beyond :: "string option \<Rightarrow> network_view \<Rightarrow> bool" where
  "beyond after n = (case after of None \<Rightarrow> True | Some a \<Rightarrow> a < nv_id n)"

definition lists_answer :: "'q work_queue \<Rightarrow> string \<Rightarrow> string \<Rightarrow> bool" where
  "lists_answer wq st r = (\<forall>q a. \<exists>p. wq_list wq st r a PAGE_LIMIT q = (Inr p, q))"

definition reports_only :: "'q work_queue \<Rightarrow> ('q \<times> 'g \<Rightarrow> network_view \<Rightarrow> 'q \<times> 'g) \<Rightarrow> string \<Rightarrow> bool" where
  "reports_only wq item target =
     (\<forall>s n. fst (item s n) = fst s \<or> fst (item s n) = snd (wq_transition wq (nv_id n) target (fst s)))"

lemma provisioner_item_reports: "reports_only wq (provisioner_item wq dns now parent) ''active''"
  by (auto simp: reports_only_def provisioner_item_def split: prod.splits option.splits sum.splits)

lemma reaper_item_reports: "reports_only wq (reaper_item wq dns) ''deprovisioned''"
  by (auto simp: reports_only_def reaper_item_def split: prod.splits sum.splits)

lemma sorted_cut:
  assumes "sorted_wrt (\<lambda>a b. f a < (f b :: 'k :: linorder)) (xs @ x # ys)"
  shows "filter (\<lambda>n. f x < f n) (xs @ x # ys) = ys"
proof -
  have "a \<in> set xs \<Longrightarrow> \<not> f x < f a" "b \<in> set ys \<Longrightarrow> f x < f b" for a b
    using assms by (auto simp: sorted_wrt_append dest: less_asym)
  then show ?thesis by (auto simp: filter_empty_conv filter_id_conv)
qed

lemma beyond_Some: "beyond (Some a) = (\<lambda>n. a < nv_id n)"
  by (simp add: fun_eq_iff beyond_def)

lemma beyond_trans: "beyond after x \<Longrightarrow> beyond (Some (nv_id x)) n \<Longrightarrow> beyond after n"
  by (cases after) (auto simp: beyond_def dest: less_trans)

lemma filter_beyond:
  "beyond after x \<Longrightarrow> filter (beyond (Some (nv_id x))) (filter (beyond after) P) = filter (beyond (Some (nv_id x))) P"
  by (induction P) (auto dest: beyond_trans)

lemma page_rest:
  assumes "sorted_wrt (\<lambda>a b. nv_id a < nv_id b) P" and "L = filter (beyond after) P" and "take k L \<noteq> []"
    and "k \<le> length L"
  shows "filter (beyond (Some (nv_id (last (take k L))))) P = drop k L"
proof -
  let ?x = "last (take k L)"
  have "L = (butlast (take k L) @ [?x]) @ drop k L" using assms(3) by simp
  then have L: "L = butlast (take k L) @ ?x # drop k L" by simp
  have "sorted_wrt (\<lambda>a b. nv_id a < nv_id b) L" unfolding assms(2) by (rule sorted_wrt_filter [OF assms(1)])
  then have cut: "filter (\<lambda>n. nv_id ?x < nv_id n) L = drop k L"
    using sorted_cut [of nv_id "butlast (take k L)" ?x "drop k L"] unfolding L [symmetric] by simp
  have "?x \<in> set L" using assms(3) by (metis in_set_takeD last_in_set)
  then have "beyond after ?x" using assms(2) by simp
  then have "filter (beyond (Some (nv_id ?x))) P = filter (beyond (Some (nv_id ?x))) L"
    using filter_beyond [of after ?x P] assms(2) by simp
  also have "\<dots> = filter (\<lambda>n. nv_id ?x < nv_id n) L" by (simp add: beyond_Some)
  finally show ?thesis using cut by simp
qed

locale desired_state =
  fixes wq :: "'q work_queue"
    and ok :: "'q \<Rightarrow> bool"
    and pending :: "string \<Rightarrow> string \<Rightarrow> 'q \<Rightarrow> network_view list"
  assumes list_page: "ok q \<Longrightarrow> wq_list wq st r after PAGE_LIMIT q = (Inr page, q') \<Longrightarrow>
      q' = q \<and> page = take 100 (filter (beyond after) (pending st r q))"
    and list_failed: "wq_list wq st r after PAGE_LIMIT q = (Inl e, q') \<Longrightarrow> q' = q"
    and pending_sorted: "ok q \<Longrightarrow> sorted_wrt (\<lambda>a b. nv_id a < nv_id b) (pending st r q)"
    and transition_ok: "ok q \<Longrightarrow> ok (snd (wq_transition wq nid target q))"
    and transition_pending: "ok q \<Longrightarrow> st \<in> {''provisioning'', ''deprovisioning''} \<Longrightarrow> target \<in> {''active'', ''deprovisioned''} \<Longrightarrow>
      filter (\<lambda>n. nv_id n \<noteq> nid) (pending st r (snd (wq_transition wq nid target q))) =
        filter (\<lambda>n. nv_id n \<noteq> nid) (pending st r q) \<and>
      set (pending st r (snd (wq_transition wq nid target q))) \<subseteq> set (pending st r q)"
begin

lemma fold_keeps:
  assumes "reports_only wq item target" and "target \<in> {''active'', ''deprovisioned''}"
    and "st \<in> {''provisioning'', ''deprovisioning''}" and "ok (fst s)"
  shows "ok (fst (foldl item s page)) \<and>
    filter (\<lambda>n. nv_id n \<notin> nv_id ` set page) (pending st r (fst (foldl item s page))) =
      filter (\<lambda>n. nv_id n \<notin> nv_id ` set page) (pending st r (fst s)) \<and>
    set (pending st r (fst (foldl item s page))) \<subseteq> set (pending st r (fst s))"
  using assms(4)
proof (induction page arbitrary: s)
  case (Cons n page)
  let ?s = "item s n"
  have cases: "fst ?s = fst s \<or> fst ?s = snd (wq_transition wq (nv_id n) target (fst s))"
    using assms(1) unfolding reports_only_def by blast
  then have 1: "ok (fst ?s)" "set (pending st r (fst ?s)) \<subseteq> set (pending st r (fst s))"
    and 2: "filter (\<lambda>m. nv_id m \<noteq> nv_id n) (pending st r (fst ?s)) = filter (\<lambda>m. nv_id m \<noteq> nv_id n) (pending st r (fst s))"
    using Cons.prems transition_ok transition_pending [OF Cons.prems assms(3,2), of "nv_id n" r] by auto
  have split: "filter (\<lambda>m. nv_id m \<notin> nv_id ` set (n # page)) xs =
      filter (\<lambda>m. nv_id m \<notin> nv_id ` set page) (filter (\<lambda>m. nv_id m \<noteq> nv_id n) xs)" for xs :: "network_view list"
    by (simp add: conj_commute)
  have comm: "filter (\<lambda>m. nv_id m \<notin> nv_id ` set page) (filter (\<lambda>m. nv_id m \<noteq> nv_id n) xs) =
      filter (\<lambda>m. nv_id m \<noteq> nv_id n) (filter (\<lambda>m. nv_id m \<notin> nv_id ` set page) xs)" for xs :: "network_view list"
    by (simp add: conj_commute)
  note ih = Cons.IH [OF 1(1)]
  have "filter (\<lambda>m. nv_id m \<notin> nv_id ` set (n # page)) (pending st r (fst (foldl item ?s page))) =
      filter (\<lambda>m. nv_id m \<notin> nv_id ` set (n # page)) (pending st r (fst s))"
    unfolding split comm using ih 2 by (metis comm)
  with ih 1 show ?case by auto
qed simp

lemma next_listing:
  assumes "reports_only wq item target" and "target \<in> {''active'', ''deprovisioned''}"
    and "st \<in> {''provisioning'', ''deprovisioning''}" and "ok (fst s)"
    and "L = filter (beyond after) (pending st r (fst s))" and "page = take 100 L" and "page \<noteq> []" and "100 \<le> length L"
  shows "filter (beyond (Some (nv_id (last page)))) (pending st r (fst (foldl item s page))) = drop 100 L"
proof -
  let ?P = "pending st r (fst s)" and ?P' = "pending st r (fst (foldl item s page))"
  let ?b = "beyond (Some (nv_id (last page)))"
  note sorted = pending_sorted [OF assms(4), of st r]
  have "sorted_wrt (\<lambda>a b. nv_id a < nv_id b) page"
    unfolding assms(5,6) by (rule sorted_wrt_take [OF sorted_wrt_filter [OF sorted]])
  then have "n \<in> set page \<Longrightarrow> nv_id n \<le> nv_id (last page)" for n
    using assms(7) by (induction page rule: rev_induct) (auto simp: sorted_wrt_append)
  then have out: "?b n \<Longrightarrow> nv_id n \<notin> nv_id ` set page" for n by (force simp: beyond_def)
  have "filter ?b ?P' = filter ?b (filter (\<lambda>n. nv_id n \<notin> nv_id ` set page) ?P')"
    using out by (auto intro!: filter_cong)
  also have "\<dots> = filter ?b (filter (\<lambda>n. nv_id n \<notin> nv_id ` set page) ?P)"
    using fold_keeps [OF assms(1-4), of page r] by simp
  also have "\<dots> = filter ?b ?P" using out by (auto intro!: filter_cong)
  also have "\<dots> = drop 100 L"
    using page_rest [OF sorted assms(5), of 100] assms(6-8) by simp
  finally show ?thesis .
qed

lemma drain_prefix:
  assumes "reports_only wq item target" and "target \<in> {''active'', ''deprovisioned''}"
    and "st \<in> {''provisioning'', ''deprovisioning''}" and "ok (fst s)"
  shows "\<exists>k. drain wq item st r after s = Some (foldl item s (take k (filter (beyond after) (pending st r (fst s))))) \<and>
    (lists_answer wq st r \<longrightarrow> k \<ge> length (filter (beyond after) (pending st r (fst s))))"
  using assms(4)
proof (induction "length (filter (beyond after) (pending st r (fst s)))" arbitrary: after s rule: less_induct)
  case less
  let ?L = "filter (beyond after) (pending st r (fst s))"
  obtain res q where l: "wq_list wq st r after PAGE_LIMIT (fst s) = (res, q)" by fastforce
  show ?case
  proof (cases res)
    case (Inl e)
    with l list_failed have "q = fst s" by blast
    then have "drain wq item st r after s = Some (foldl item s (take 0 ?L))"
      using drain_failed [of wq st r after s] l Inl by simp
    moreover have "\<not> lists_answer wq st r"
    proof
      assume "lists_answer wq st r"
      then obtain p where "wq_list wq st r after PAGE_LIMIT (fst s) = (Inr p, fst s)" unfolding lists_answer_def by blast
      with l Inl show False by simp
    qed
    ultimately show ?thesis by blast
  next
    case (Inr page)
    with l list_page [OF less.prems] have q: "q = fst s" and page: "page = take 100 ?L" by blast+
    show ?thesis
    proof (cases "100 \<le> length ?L")
      case False
      then have "page = ?L" "int (length page) \<noteq> PAGE_LIMIT" by (auto simp: page PAGE_LIMIT_def)
      then have "drain wq item st r after s = Some (foldl item s ?L)"
        using drain_last [of wq st r after s page q item] l Inr q by simp
      then have "drain wq item st r after s = Some (foldl item s (take (length ?L) ?L))" by simp
      then show ?thesis by blast
    next
      case True
      then have ne: "page \<noteq> []" and full: "int (length page) = PAGE_LIMIT" by (auto simp: page PAGE_LIMIT_def)
      let ?s = "foldl item s page" and ?a = "Some (nv_id (last page))"
      have rest: "filter (beyond ?a) (pending st r (fst ?s)) = drop 100 ?L"
        by (rule next_listing [OF assms(1-3) less.prems refl page ne True])
      have ok: "ok (fst ?s)" using fold_keeps [OF assms(1-3) less.prems] by blast
      have "length (filter (beyond ?a) (pending st r (fst ?s))) < length ?L" using True by (simp add: rest)
      from less.hyps [OF this ok] obtain k where
        k: "drain wq item st r ?a ?s = Some (foldl item ?s (take k (drop 100 ?L)))"
        and len: "lists_answer wq st r \<longrightarrow> length (drop 100 ?L) \<le> k" unfolding rest by blast
      have "drain wq item st r after s = drain wq item st r ?a ?s"
        using drain_full [of wq st r after s page q item] l Inr q full by simp
      also have "\<dots> = Some (foldl item s (take (100 + k) ?L))"
        unfolding k by (simp only: page take_add foldl_append)
      finally have "drain wq item st r after s = Some (foldl item s (take (100 + k) ?L))" .
      moreover have "lists_answer wq st r \<longrightarrow> length ?L \<le> 100 + k" using len by auto
      ultimately show ?thesis by blast
    qed
  qed
qed

end

section \<open>The Tenants service provides the queue\<close>

definition tenants_pending :: "string \<Rightarrow> string \<Rightarrow> authority \<Rightarrow> network_view list" where
  "tenants_pending st r w =
     (case provisioning_from_db st of
        Inl _ \<Rightarrow> []
      | Inr p \<Rightarrow> map network_view_of (sort_key n_id
          (filter (\<lambda>n. n_provisioning_state n = p \<and> n_region n = r) (networks (adb w)))))"

lemma network_view_id [simp]: "nv_id (network_view_of n) = n_id n"
  by (simp add: network_view_of_def)

lemma beyond_view: "beyond after (network_view_of n) = (case after of None \<Rightarrow> True | Some a \<Rightarrow> a < n_id n)"
  by (simp add: beyond_def split: option.split)

lemma filter_pending:
  "filter Q (tenants_pending st r w) =
     (case provisioning_from_db st of
        Inl _ \<Rightarrow> []
      | Inr p \<Rightarrow> map network_view_of (sort_key n_id
          (filter (\<lambda>n. n_provisioning_state n = p \<and> n_region n = r \<and> Q (network_view_of n)) (networks (adb w)))))"
  by (simp add: tenants_pending_def filter_map filter_sort comp_def conj_ac split: sum.split)

lemma transition_snd:
  "snd (transition_network now nid target w) =
    (if target = ''active'' then snd (mark_network_active now nid w)
     else if target = ''deprovisioned'' then snd (finish_deprovision nid w) else w)"
  by (cases "mark_network_active now nid w"; cases "finish_deprovision nid w")
    (simp add: transition_network_def split: bool.split option.split provisioning_state.split)

lemma transition_wf: "db_wf (adb w) \<Longrightarrow> db_wf (adb (snd (transition_network now nid target w)))"
  by (simp add: transition_snd mark_network_active_adb finish_deprovision_adb mark_active_wf delete_if_deprovisioning_wf)

lemma tenants_transition_snd: "snd (tenants_transition now nid target w) = snd (transition_network now nid target w)"
  by (auto simp: tenants_transition_def split: prod.splits sum.splits)

lemma transition_networks:
  "networks (adb (snd (transition_network now nid target w))) = networks (adb w) \<or>
   networks (adb (snd (transition_network now nid target w))) =
     sql_update (\<lambda>n. n_id n = nid \<and> n_provisioning_state n = Provisioning)
       (\<lambda>n. n\<lparr>n_provisioning_state := Active, n_updated_at := now\<rparr>) (networks (adb w)) \<or>
   networks (adb (snd (transition_network now nid target w))) =
     sql_delete (\<lambda>n. n_id n = nid \<and> n_provisioning_state n = Deprovisioning) (networks (adb w))"
  by (simp add: transition_snd mark_network_active_adb finish_deprovision_adb mark_active_def
      delete_if_deprovisioning_def delete_networks_def Let_def)

lemma transition_keeps_others:
  "filter (\<lambda>n. nv_id n \<noteq> nid) (tenants_pending st r (snd (transition_network now nid target w))) =
    filter (\<lambda>n. nv_id n \<noteq> nid) (tenants_pending st r w)"
proof -
  have "filter (\<lambda>n. n_provisioning_state n = p \<and> n_region n = r \<and> n_id n \<noteq> nid)
      (networks (adb (snd (transition_network now nid target w)))) =
    filter (\<lambda>n. n_provisioning_state n = p \<and> n_region n = r \<and> n_id n \<noteq> nid) (networks (adb w))" for p
    using transition_networks [of now nid target w]
    by (elim disjE) (auto intro!: filter_sql_update_other filter_sql_delete_other)
  then show ?thesis by (simp add: filter_pending split: sum.split)
qed

lemma transition_adds_none:
  assumes "st \<in> {''provisioning'', ''deprovisioning''}"
  shows "set (tenants_pending st r (snd (transition_network now nid target w))) \<subseteq> set (tenants_pending st r w)"
proof -
  obtain p where p: "provisioning_from_db st = Inr p" "p \<noteq> Active"
    using assms by (auto simp: provisioning_from_db_def)
  have "n \<in> set (networks (adb w))" if "n \<in> set (networks (adb (snd (transition_network now nid target w))))"
    "n_provisioning_state n = p" for n
    using transition_networks [of now nid target w] that p(2)
    by (elim disjE) (auto simp: set_sql_update split: if_splits)
  then show ?thesis using p by (auto simp: tenants_pending_def)
qed

interpretation tenants: desired_state "tenants_queue now" "\<lambda>w. db_wf (adb w)" tenants_pending
proof
  fix q st r after page q'
  assume "wq_list (tenants_queue now) st r after PAGE_LIMIT q = (Inr page, q')"
  then show "q' = q \<and> page = take 100 (filter (beyond after) (tenants_pending st r q))"
    by (auto simp: tenants_queue_def tenants_list_def list_for_reconcile_def reconcile_page_def repo_list_for_reconcile_def
        page_limit_def PAGE_LIMIT_def MAX_LIMIT_def filter_pending take_map beyond_view split: sum.splits)
next
  fix q :: authority and st r
  assume wf: "db_wf (adb q)"
  have "distinct (map n_id (sort_key n_id (filter P (networks (adb q)))))" for P
    using distinct_map_filter [OF db_wf_net_id [OF wf], of P]
    by (metis distinct_map distinct_sort set_sort)
  then have "sorted_wrt (<) (map n_id (sort_key n_id (filter P (networks (adb q)))))" for P
    by (simp add: strict_sorted_iff)
  then show "sorted_wrt (\<lambda>a b. nv_id a < nv_id b) (tenants_pending st r q)"
    by (auto simp: tenants_pending_def sorted_wrt_map split: sum.split)
next
  fix q :: authority and nid target
  assume "db_wf (adb q)"
  then show "db_wf (adb (snd (wq_transition (tenants_queue now) nid target q)))"
    by (simp add: tenants_queue_def tenants_transition_snd transition_wf)
next
  fix q :: authority and st target nid r
  assume "st \<in> {''provisioning'', ''deprovisioning''}"
  then show "filter (\<lambda>n. nv_id n \<noteq> nid) (tenants_pending st r (snd (wq_transition (tenants_queue now) nid target q))) =
        filter (\<lambda>n. nv_id n \<noteq> nid) (tenants_pending st r q) \<and>
      set (tenants_pending st r (snd (wq_transition (tenants_queue now) nid target q))) \<subseteq> set (tenants_pending st r q)"
    using transition_adds_none by (simp add: tenants_queue_def tenants_transition_snd transition_keeps_others)
qed (auto simp: tenants_queue_def tenants_list_def split: sum.splits)

lemma tenants_lists_answer: "provisioning_from_db st = Inr p \<Longrightarrow> lists_answer (tenants_queue now) st r"
  by (simp add: lists_answer_def tenants_queue_def tenants_list_def list_for_reconcile_def)

lemma tenants_drain:
  assumes "reports_only (tenants_queue now) item target" and "target \<in> {''active'', ''deprovisioned''}"
    and "st \<in> {''provisioning'', ''deprovisioning''}" and "db_wf (adb w)"
  shows "drain (tenants_queue now) item st r None (w, g) = Some (foldl item (w, g) (tenants_pending st r w))"
proof -
  have "lists_answer (tenants_queue now) st r"
    using assms(3) tenants_lists_answer [of st Provisioning] tenants_lists_answer [of st Deprovisioning]
    by (auto simp: provisioning_from_db_def)
  then obtain k where "drain (tenants_queue now) item st r None (w, g) =
      Some (foldl item (w, g) (take k (filter (beyond None) (tenants_pending st r w))))"
    and "length (filter (beyond None) (tenants_pending st r w)) \<le> k"
    using tenants.drain_prefix [OF assms(1-3), of "(w, g)" r None] assms(4) by auto
  moreover have "filter (beyond None) xs = xs" for xs by (simp add: beyond_def filter_True)
  ultimately show ?thesis by simp
qed

lemma provisioner_pass:
  assumes "db_wf (adb w)"
  shows "provisioner_tick (tenants_queue now) dns t region parent (w, g) =
    Some (foldl (provisioner_item (tenants_queue now) dns t parent) (w, g) (tenants_pending ''provisioning'' region w))"
  unfolding provisioner_tick_def by (rule tenants_drain [OF provisioner_item_reports _ _ assms]) simp_all

lemma reaper_pass:
  assumes "db_wf (adb w)"
  shows "reaper_tick (tenants_queue now) dns region (w, g) =
    Some (foldl (reaper_item (tenants_queue now) dns) (w, g) (tenants_pending ''deprovisioning'' region w))"
  unfolding reaper_tick_def by (rule tenants_drain [OF reaper_item_reports _ _ assms]) simp_all

section \<open>Properties of the controller\<close>

text \<open>C35. Both ticks always end, and paging is invisible: whatever the number of pages, and although every handled
  network leaves the listing while it is being paged through, a tick is one pass, in id order, over
  exactly the networks that were waiting in the region when it began.\<close>

theorem ticks_single_pass:
  assumes "db_wf (adb w)"
  shows "provisioner_tick (tenants_queue now) dns t region parent (w, g) =
      Some (foldl (provisioner_item (tenants_queue now) dns t parent) (w, g) (tenants_pending ''provisioning'' region w)) \<and>
    reaper_tick (tenants_queue now) dns region (w, g) =
      Some (foldl (reaper_item (tenants_queue now) dns) (w, g) (tenants_pending ''deprovisioning'' region w))"
  using provisioner_pass [OF assms] reaper_pass [OF assms] by blast

lemma deprovisioned_networks:
  "networks (adb (snd (transition_network now nid ''deprovisioned'' w))) =
     sql_delete (\<lambda>n. n_id n = nid \<and> n_provisioning_state n = Deprovisioning) (networks (adb w))"
  by (simp add: transition_snd finish_deprovision_adb delete_if_deprovisioning_def delete_networks_def Let_def)

lemma delete_records_rows:
  assumes "\<And>i z. fst (delete_record dns i z) = Inr ()"
  shows "fst (delete_records dns nid g) = Inr ()" and
    "op_find_by_id m (ops (snd (delete_records dns nid g))) = (if m = nid then None else op_find_by_id m (ops g))"
proof -
  have d: "fst (delete_records_or_err dns is z) = Inr ()" for "is" z
  proof (induction "is" arbitrary: z)
    case (Cons i "is")
    then show ?case using assms [of i z] by (auto split: prod.splits)
  qed simp
  have f: "op_find_by_id m (op_delete nid t) = (if m = nid then None else op_find_by_id m t)" for m t
    by (auto simp: op_find_None op_delete_def sql_exists_iff op_find_by_id_def [of m] find_None_exists
        intro!: find_sql_delete_other)
  show "fst (delete_records dns nid g) = Inr ()"
  proof (cases "op_find_by_id nid (ops g)")
    case (Some op)
    obtain u z where "delete_records_or_err dns
        ((case o_cf_a_record_id op of None \<Rightarrow> [] | Some i \<Rightarrow> [i]) @ o_cf_acme_record_ids op) (zone g) = (u, z)" by fastforce
    moreover from this d have "u = Inr ()" by (metis fst_conv)
    ultimately show ?thesis using Some by (simp add: delete_records_def)
  qed (simp add: delete_records_def)
  then show "op_find_by_id m (ops (snd (delete_records dns nid g))) = (if m = nid then None else op_find_by_id m (ops g))"
    by (auto simp: delete_records_def f split: option.splits prod.splits sum.splits)
qed

lemma reaper_fold:
  assumes "\<And>i z. fst (delete_record dns i z) = Inr ()"
  shows "networks (adb (fst (foldl (reaper_item (tenants_queue now) dns) (w, g) L))) =
      sql_delete (\<lambda>n. n_id n \<in> nv_id ` set L \<and> n_provisioning_state n = Deprovisioning) (networks (adb w)) \<and>
    op_find_by_id m (ops (snd (foldl (reaper_item (tenants_queue now) dns) (w, g) L))) =
      (if m \<in> nv_id ` set L then None else op_find_by_id m (ops g))"
proof (induction L arbitrary: w g)
  case (Cons n L)
  obtain w' g' where i: "reaper_item (tenants_queue now) dns (w, g) n = (w', g')" by fastforce
  obtain r1 g1 where d: "delete_records dns (nv_id n) g = (r1, g1)" by fastforce
  have "w' = snd (transition_network now (nv_id n) ''deprovisioned'' w)" "g' = g1"
    using i d delete_records_rows(1) [OF assms, of "nv_id n" g]
    by (auto simp: reaper_item_def tenants_queue_def tenants_transition_snd)
  then have nets: "networks (adb w') = sql_delete (\<lambda>k. n_id k = nv_id n \<and> n_provisioning_state k = Deprovisioning) (networks (adb w))"
    and rows: "op_find_by_id m (ops g') = (if m = nv_id n then None else op_find_by_id m (ops g))"
    using delete_records_rows(2) [OF assms, of m "nv_id n" g] d by (simp_all add: deprovisioned_networks)
  have "sql_delete p (sql_delete q xs) = sql_delete (\<lambda>x. q x \<or> p x) xs" for p q and xs :: "network list"
    by (induction xs) auto
  then show ?case using Cons.IH [of w' g'] i nets rows by (auto simp: intro!: arg_cong2 [of _ _ _ _ sql_delete])
qed (simp_all add: sql_delete_def)


definition answers :: "'z dns_provider \<Rightarrow> 'z contents \<Rightarrow> bool" where
  "answers dns recs =
     ((\<forall>f z. \<exists>e. fst (find_a_record dns f z) = Inr e) \<and>
      (\<forall>f ip e z. (\<forall>i. e = Some i \<longrightarrow> recs z i \<noteq> None) \<longrightarrow> (\<exists>j. fst (upsert_a_record dns f ip e z) = Inr j)))"

definition reported :: "string \<Rightarrow> 'z region \<Rightarrow> string option" where
  "reported nid g = Option.bind (op_find_by_id nid (ops g)) o_ip"

lemma provision_answers:
  assumes "zone_ok dns recs" and "answers dns recs"
  shows "fst (provision dns now nid fqdn ip g) = Inr ()"
proof -
  obtain e z1 where f: "find_a_record dns fqdn (zone g) = (Inr e, z1)"
    using assms(2) unfolding answers_def by (metis prod.collapse)
  have "e = Some i \<Longrightarrow> recs z1 i \<noteq> None" for i
    using zone_ok_find [OF assms(1) f] by (auto simp: find_ok_def)
  then obtain j z2 where "upsert_a_record dns fqdn ip e z1 = (Inr j, z2)"
    using assms(2) unfolding answers_def by (metis prod.collapse)
  with f show ?thesis by (auto simp: provision_def Let_def split: prod.splits bool.splits)
qed

lemma provision_ops:
  "ops (snd (provision dns now nid fqdn ip g)) = ops g \<or>
   (\<exists>i. ops (snd (provision dns now nid fqdn ip g)) = snd (claim_a_record nid fqdn i now (ops g)))"
  by (auto simp: provision_def Let_def split: prod.splits bool.splits sum.splits) (metis snd_conv)+

lemma provision_reported: "reported m (snd (provision dns now nid fqdn ip g)) = reported m g"
  using provision_ops [of dns now nid fqdn ip g]
  by (elim disjE exE; cases "op_find_by_id m (ops g)") (simp_all add: reported_def op_find_claim)

lemma provision_claimed_stays: "claimed m g \<noteq> None \<Longrightarrow> claimed m (snd (provision dns now nid fqdn ip g)) = claimed m g"
  using provision_ops [of dns now nid fqdn ip g]
  by (elim disjE exE; cases "op_find_by_id m (ops g)") (auto simp: claimed_def op_find_claim)

lemma provision_claimed:
  assumes "reported nid g \<noteq> None" and "fst (provision dns now nid fqdn ip g) = Inr ()"
  shows "claimed nid (snd (provision dns now nid fqdn ip g)) \<noteq> None"
proof -
  obtain row where row: "op_find_by_id nid (ops g) = Some row"
    using assms(1) by (cases "op_find_by_id nid (ops g)") (auto simp: reported_def)
  have "\<exists>i. ops (snd (provision dns now nid fqdn ip g)) = snd (claim_a_record nid fqdn i now (ops g))"
    using assms(2) by (auto simp: provision_def Let_def split: prod.splits bool.splits sum.splits) (metis snd_conv)+
  with row show ?thesis by (auto simp: claimed_def op_find_claim)
qed

lemma activated_networks:
  "networks (adb (snd (transition_network now nid ''active'' w))) =
     sql_update (\<lambda>n. n_id n = nid \<and> n_provisioning_state n = Provisioning)
       (\<lambda>n. n\<lparr>n_provisioning_state := Active, n_updated_at := now\<rparr>) (networks (adb w))"
  by (simp add: transition_snd mark_network_active_adb mark_active_def)

lemma activate_twice:
  "sql_update (\<lambda>n. p n \<and> n_provisioning_state n = Provisioning) (\<lambda>n. n\<lparr>n_provisioning_state := Active, n_updated_at := t\<rparr>)
     (sql_update (\<lambda>n. q n \<and> n_provisioning_state n = Provisioning) (\<lambda>n. n\<lparr>n_provisioning_state := Active, n_updated_at := t\<rparr>) xs) =
   sql_update (\<lambda>n. (q n \<or> p n) \<and> n_provisioning_state n = Provisioning)
     (\<lambda>n. n\<lparr>n_provisioning_state := Active, n_updated_at := t\<rparr>) xs"
  by (induction xs) auto

lemma provisioner_item_effect:
  assumes "zone_ok dns recs" and "answers dns recs" and "provisioner_item (tenants_queue now) dns t parent (w, g) v = (w', g')"
  shows "reported m g' = reported m g \<and> (claimed m g \<noteq> None \<longrightarrow> claimed m g' = claimed m g) \<and>
    (reported (nv_id v) g \<noteq> None \<longrightarrow> claimed (nv_id v) g' \<noteq> None) \<and>
    networks (adb w') = sql_update (\<lambda>n. (n_id n = nv_id v \<and> reported (nv_id v) g \<noteq> None) \<and> n_provisioning_state n = Provisioning)
      (\<lambda>n. n\<lparr>n_provisioning_state := Active, n_updated_at := now\<rparr>) (networks (adb w))"
proof (cases "reported (nv_id v) g")
  case None
  then have "w' = w \<and> g' = g" using assms(3) by (simp add: provisioner_item_def reported_def)
  with None show ?thesis by (simp add: sql_update_def)
next
  case (Some ip)
  let ?p = "provision dns t (nv_id v) (nv_slug v @ ''.'' @ parent) ip g"
  have p: "fst ?p = Inr ()" by (rule provision_answers [OF assms(1,2)])
  then have "g' = snd ?p \<and> w' = snd (transition_network now (nv_id v) ''active'' w)"
    using assms(3) Some
    by (auto simp: provisioner_item_def reported_def tenants_queue_def tenants_transition_snd split: prod.splits sum.splits)
  with Some p show ?thesis
    by (simp add: provision_reported provision_claimed_stays provision_claimed activated_networks)
qed

lemma provisioner_fold:
  assumes "zone_ok dns recs" and "answers dns recs"
  shows "networks (adb (fst (foldl (provisioner_item (tenants_queue now) dns t parent) (w, g) L))) =
      sql_update (\<lambda>n. (\<exists>v \<in> set L. nv_id v = n_id n \<and> reported (nv_id v) g \<noteq> None) \<and> n_provisioning_state n = Provisioning)
        (\<lambda>n. n\<lparr>n_provisioning_state := Active, n_updated_at := now\<rparr>) (networks (adb w)) \<and>
    (claimed m g \<noteq> None \<or> (\<exists>v \<in> set L. nv_id v = m \<and> reported m g \<noteq> None) \<longrightarrow>
      claimed m (snd (foldl (provisioner_item (tenants_queue now) dns t parent) (w, g) L)) \<noteq> None)"
proof (induction L arbitrary: w g)
  case (Cons v L)
  obtain w' g' where i: "provisioner_item (tenants_queue now) dns t parent (w, g) v = (w', g')" by fastforce
  note e = provisioner_item_effect [OF assms i]
  have r: "reported k g' = reported k g" for k using e by blast
  have nets: "networks (adb w') = sql_update
      (\<lambda>n. (n_id n = nv_id v \<and> reported (nv_id v) g \<noteq> None) \<and> n_provisioning_state n = Provisioning)
      (\<lambda>n. n\<lparr>n_provisioning_state := Active, n_updated_at := now\<rparr>) (networks (adb w))" using e by blast
  have "claimed m g \<noteq> None \<or> (\<exists>u \<in> set (v # L). nv_id u = m \<and> reported m g \<noteq> None) \<Longrightarrow>
      claimed m g' \<noteq> None \<or> (\<exists>u \<in> set L. nv_id u = m \<and> reported m g' \<noteq> None)"
    using provisioner_item_effect [OF assms i, of m] by auto
  then have c: "claimed m g \<noteq> None \<or> (\<exists>u \<in> set (v # L). nv_id u = m \<and> reported m g \<noteq> None) \<longrightarrow>
      claimed m (snd (foldl (provisioner_item (tenants_queue now) dns t parent) (w', g') L)) \<noteq> None"
    using Cons.IH [of w' g'] by blast
  have eq: "(\<lambda>n. ((n_id n = nv_id v \<and> reported (nv_id v) g \<noteq> None) \<or>
      (\<exists>u \<in> set L. nv_id u = n_id n \<and> reported (nv_id u) g' \<noteq> None)) \<and> n_provisioning_state n = Provisioning) =
     (\<lambda>n. (\<exists>u \<in> set (v # L). nv_id u = n_id n \<and> reported (nv_id u) g \<noteq> None) \<and> n_provisioning_state n = Provisioning)"
    by (auto simp: fun_eq_iff r)
  show ?case
    unfolding foldl_Cons i Cons.IH [of w' g', THEN conjunct1] nets activate_twice eq using c by blast
qed (simp add: sql_update_def)

text \<open>The provisioner converges: with a provider that answers, one tick turns every waiting network of the region
  that has reported an address into an active one with a claimed record, leaves those that have not
  reported one waiting, and keeps every other network as it is.\<close>

theorem provisioner_converges:
  assumes "db_wf (adb w)" and "zone_ok dns recs" and "answers dns recs"
  shows "\<exists>w' g'. provisioner_tick (tenants_queue now) dns t region parent (w, g) = Some (w', g') \<and>
    networks (adb w') = sql_update
      (\<lambda>n. n_provisioning_state n = Provisioning \<and> n_region n = region \<and> reported (n_id n) g \<noteq> None)
      (\<lambda>n. n\<lparr>n_provisioning_state := Active, n_updated_at := now\<rparr>) (networks (adb w)) \<and>
    (\<forall>n \<in> set (networks (adb w)). n_provisioning_state n = Provisioning \<and> n_region n = region \<and> reported (n_id n) g \<noteq> None
      \<longrightarrow> claimed (n_id n) g' \<noteq> None)"
proof -
  let ?L = "tenants_pending ''provisioning'' region w"
  let ?s = "foldl (provisioner_item (tenants_queue now) dns t parent) (w, g) ?L"
  have one: "n \<in> set (networks (adb w)) \<Longrightarrow> n' \<in> set (networks (adb w)) \<Longrightarrow> n_id n = n_id n' \<Longrightarrow> n = n'" for n n'
    using db_wf_net_id [OF assms(1)] by (auto simp: distinct_map inj_on_def)
  have "(\<exists>v \<in> set ?L. nv_id v = n_id n) \<longleftrightarrow> n_provisioning_state n = Provisioning \<and> n_region n = region"
    if "n \<in> set (networks (adb w))" for n
    using one that by (auto simp: tenants_pending_def provisioning_from_db_def)
  then have mem: "(\<exists>v \<in> set ?L. nv_id v = n_id n \<and> reported (nv_id v) g \<noteq> None) \<longleftrightarrow>
      n_provisioning_state n = Provisioning \<and> n_region n = region \<and> reported (n_id n) g \<noteq> None"
    if "n \<in> set (networks (adb w))" for n
    using that by metis
  have "networks (adb (fst ?s)) = sql_update
      (\<lambda>n. n_provisioning_state n = Provisioning \<and> n_region n = region \<and> reported (n_id n) g \<noteq> None)
      (\<lambda>n. n\<lparr>n_provisioning_state := Active, n_updated_at := now\<rparr>) (networks (adb w))"
    unfolding provisioner_fold [OF assms(2,3), THEN conjunct1] sql_update_def
    by (rule map_cong [OF refl], subst mem) auto
  moreover have "claimed (n_id n) (snd ?s) \<noteq> None" if "n \<in> set (networks (adb w))"
    "n_provisioning_state n = Provisioning \<and> n_region n = region \<and> reported (n_id n) g \<noteq> None" for n
  proof -
    have "\<exists>v \<in> set ?L. nv_id v = n_id n \<and> reported (n_id n) g \<noteq> None" using mem [OF that(1)] that(2) by auto
    then show ?thesis using provisioner_fold [OF assms(2,3), of now t parent w g ?L "n_id n"] by blast
  qed
  ultimately show ?thesis
    unfolding provisioner_pass [OF assms(1)] by (intro exI [of _ "fst ?s"] exI [of _ "snd ?s"]) simp
qed

section \<open>Witnesses\<close>

definition ex_waiting :: authority where
  "ex_waiting = ex_registered\<lparr>adb := (adb ex_registered)\<lparr>networks := [(ex_net ''home'')\<lparr>n_id := ''n1''\<rparr>,
     (ex_net ''old'')\<lparr>n_id := ''n2'', n_provisioning_state := Deprovisioning\<rparr>]\<rparr>\<rparr>"

lemma ex_waiting_wf: "db_wf (adb ex_waiting)"
  by (simp add: ex_waiting_def ex_registered_def ex_trial_eq ex_defs ex_net_def db_wf_defs unique_where_def references_def)

lemma ex_provider_answers: "answers ex_provider ex_recs"
  by (auto simp: answers_def ex_provider_def ex_upsert_def ex_recs_def split: option.splits)

theorem ticks_single_pass_witness:
  "reaper_tick (tenants_queue 5) ex_provider ''eu1'' (ex_waiting, ex_published) =
     Some (foldl (reaper_item (tenants_queue 5) ex_provider) (ex_waiting, ex_published)
       (tenants_pending ''deprovisioning'' ''eu1'' ex_waiting))"
  using ticks_single_pass [OF ex_waiting_wf] by blast


theorem provisioner_converges_witness:
  "\<exists>w' g'. provisioner_tick (tenants_queue 5) ex_provider 5 ''eu1'' ''my.example'' (ex_waiting, ex_region) = Some (w', g') \<and>
     n_provisioning_state (hd (networks (adb w'))) = Active"
proof -
  from provisioner_converges [OF ex_waiting_wf ex_provider_ok ex_provider_answers, of 5 5 "''eu1''" "''my.example''" ex_region]
  obtain w' g' where
    "provisioner_tick (tenants_queue 5) ex_provider 5 ''eu1'' ''my.example'' (ex_waiting, ex_region) = Some (w', g')"
    "networks (adb w') = sql_update
      (\<lambda>n. n_provisioning_state n = Provisioning \<and> n_region n = ''eu1'' \<and> reported (n_id n) ex_region \<noteq> None)
      (\<lambda>n. n\<lparr>n_provisioning_state := Active, n_updated_at := 5\<rparr>) (networks (adb ex_waiting))"
    by blast
  then show ?thesis by (simp add: ex_waiting_def ex_net_def reported_def ex_region_def op_find_by_id_def)
qed

end
