(* ===== verification/Wire.thy ===== *)
theory Wire
  imports Text "HOL-Library.Monad_Syntax"
begin

text \<open>
  What the byte-level code of the services takes from the Rust standard library: the bytes of a
  \<open>str\<close>, \<open>str::from_utf8\<close> with its exact validity rules, the big-endian conversions of
  \<open>u16\<close> and \<open>u32\<close>, and indexing and slicing of byte slices. An index or a range outside the
  slice panics; such an access is \<open>None\<close> here, so that a parser in the option monad returns \<open>Some\<close>
  exactly when it does not panic.
\<close>

section \<open>Bytes and text\<close>

definition byte_of :: "char \<Rightarrow> u8" where
  "byte_of c = of_nat (of_char c)"

definition char_of_byte :: "u8 \<Rightarrow> char" where
  "char_of_byte b = char_of (unat b)"

definition as_bytes :: "string \<Rightarrow> bytes" where
  "as_bytes s = map byte_of s"

definition utf8_cont :: "u8 \<Rightarrow> bool" where
  "utf8_cont b = (0x80 \<le> b \<and> b \<le> 0xBF)"

fun utf8_valid :: "bytes \<Rightarrow> bool" where
  "utf8_valid [] = True"
| "utf8_valid (b # bs) =
     (if b < 0x80 then utf8_valid bs
      else if 0xC2 \<le> b \<and> b \<le> 0xDF
      then (case bs of c # r \<Rightarrow> utf8_cont c \<and> utf8_valid r | _ \<Rightarrow> False)
      else if 0xE0 \<le> b \<and> b \<le> 0xEF
      then (case bs of c # d # r \<Rightarrow>
              (if b = 0xE0 then 0xA0 \<le> c \<and> c \<le> 0xBF
               else if b = 0xED then 0x80 \<le> c \<and> c \<le> 0x9F else utf8_cont c) \<and>
              utf8_cont d \<and> utf8_valid r
            | _ \<Rightarrow> False)
      else if 0xF0 \<le> b \<and> b \<le> 0xF4
      then (case bs of c # d # e # r \<Rightarrow>
              (if b = 0xF0 then 0x90 \<le> c \<and> c \<le> 0xBF
               else if b = 0xF4 then 0x80 \<le> c \<and> c \<le> 0x8F else utf8_cont c) \<and>
              utf8_cont d \<and> utf8_cont e \<and> utf8_valid r
            | _ \<Rightarrow> False)
      else False)"

definition from_utf8 :: "bytes \<Rightarrow> string option" where
  "from_utf8 bs = (if utf8_valid bs then Some (map char_of_byte bs) else None)"

section \<open>Big-endian integers\<close>

definition u16_to_be_bytes :: "u16 \<Rightarrow> bytes" where
  "u16_to_be_bytes w = [of_nat (unat w div 256), of_nat (unat w)]"

definition u16_from_be_bytes :: "u8 \<Rightarrow> u8 \<Rightarrow> u16" where
  "u16_from_be_bytes a b = of_nat (unat a * 256 + unat b)"

definition u32_to_be_bytes :: "u32 \<Rightarrow> bytes" where
  "u32_to_be_bytes w =
     [of_nat (unat w div 16777216), of_nat (unat w div 65536), of_nat (unat w div 256), of_nat (unat w)]"

definition u32_from_be_bytes :: "u8 \<Rightarrow> u8 \<Rightarrow> u8 \<Rightarrow> u8 \<Rightarrow> u32" where
  "u32_from_be_bytes a b c d =
     of_nat (unat a * 16777216 + unat b * 65536 + unat c * 256 + unat d)"

section \<open>Indexing and slicing\<close>

type_synonym 'a checked = "'a option"

definition index :: "'a list \<Rightarrow> nat \<Rightarrow> 'a checked" where
  "index xs i = (if i < length xs then Some (xs ! i) else None)"

definition slice :: "'a list \<Rightarrow> nat \<Rightarrow> nat \<Rightarrow> 'a list checked" where
  "slice xs a b = (if a \<le> b \<and> b \<le> length xs then Some (take (b - a) (drop a xs)) else None)"

section \<open>Lemmas\<close>

lemma byte_bound: "unat (b :: u8) < 256"
  using unsigned_less [of b] by simp

lemma char_of_byte_of [simp]: "char_of_byte (byte_of c) = c"
  by (simp add: char_of_byte_def byte_of_def unat_of_nat)

lemma byte_of_char_of [simp]: "byte_of (char_of_byte b) = b"
  using byte_bound [of b] by (simp add: char_of_byte_def byte_of_def)

lemma byte_of_inj: "byte_of c = byte_of d \<Longrightarrow> c = d"
  by (metis char_of_byte_of)

lemma length_as_bytes [simp]: "length (as_bytes s) = length s"
  by (simp add: as_bytes_def)

lemma map_char_as_bytes [simp]: "map char_of_byte (as_bytes s) = s"
  by (simp add: as_bytes_def o_def)

lemma as_bytes_map_char [simp]: "as_bytes (map char_of_byte bs) = bs"
  by (simp add: as_bytes_def o_def)

lemma as_bytes_append [simp]: "as_bytes (s @ t) = as_bytes s @ as_bytes t"
  by (simp add: as_bytes_def)

lemma from_utf8_Some: "from_utf8 bs = Some s \<longleftrightarrow> utf8_valid bs \<and> bs = as_bytes s"
  by (auto simp: from_utf8_def)

lemma from_utf8_as_bytes: "utf8_valid (as_bytes s) \<Longrightarrow> from_utf8 (as_bytes s) = Some s"
  by (simp add: from_utf8_Some)

lemma utf8_valid_ascii: "list_all (\<lambda>b. b < 0x80) bs \<Longrightarrow> utf8_valid bs"
  by (induction bs) auto

lemma length_u16_to_be_bytes [simp]: "length (u16_to_be_bytes w) = 2"
  by (simp add: u16_to_be_bytes_def)

lemma length_u32_to_be_bytes [simp]: "length (u32_to_be_bytes w) = 4"
  by (simp add: u32_to_be_bytes_def)

lemma unat_u16_from_be_bytes: "unat (u16_from_be_bytes a b) = unat a * 256 + unat b"
  using byte_bound [of a] byte_bound [of b] unfolding u16_from_be_bytes_def unat_of_nat by simp

lemma unat_u32_from_be_bytes:
  "unat (u32_from_be_bytes a b c d) = unat a * 16777216 + unat b * 65536 + unat c * 256 + unat d"
  using byte_bound [of a] byte_bound [of b] byte_bound [of c] byte_bound [of d]
  unfolding u32_from_be_bytes_def unat_of_nat by simp

lemma u16_be_roundtrip:
  "u16_from_be_bytes (of_nat (unat w div 256)) (of_nat (unat w)) = w"
proof -
  have "unat w < 65536" using unsigned_less [of w] by simp
  then have "unat (u16_from_be_bytes (of_nat (unat w div 256)) (of_nat (unat w))) = unat w"
    unfolding unat_u16_from_be_bytes unat_of_nat by simp
  then show ?thesis by (simp only: word_unat_eq_iff)
qed

lemma be4_digits:
  fixes n :: nat
  shows "n < 4294967296 \<Longrightarrow>
    n div 16777216 mod 256 * 16777216 + n div 65536 mod 256 * 65536 + n div 256 mod 256 * 256 + n mod 256 = n"
proof -
  assume n: "n < 4294967296"
  have a: "n div 16777216 mod 256 = n div 256 div 256 div 256" "n div 65536 = n div 256 div 256"
    using n by (simp_all add: div_mult2_eq [symmetric])
  show ?thesis
    unfolding a using div_mult_mod_eq [of n 256] div_mult_mod_eq [of "n div 256" 256]
      div_mult_mod_eq [of "n div 256 div 256" 256] by linarith
qed

lemma u32_be_roundtrip:
  "u32_from_be_bytes (of_nat (unat w div 16777216)) (of_nat (unat w div 65536)) (of_nat (unat w div 256))
     (of_nat (unat w)) = w"
proof -
  have "unat w < 4294967296" using unsigned_less [of w] by simp
  then have "unat (u32_from_be_bytes (of_nat (unat w div 16777216)) (of_nat (unat w div 65536))
      (of_nat (unat w div 256)) (of_nat (unat w))) = unat w"
    unfolding unat_u32_from_be_bytes unat_of_nat using be4_digits [of "unat w"] by simp
  then show ?thesis by (simp only: word_unat_eq_iff)
qed

lemma index_Some [simp]: "i < length xs \<Longrightarrow> index xs i = Some (xs ! i)"
  by (simp add: index_def)

lemma index_Cons_0 [simp]: "index (x # xs) 0 = Some x"
  by (simp add: index_def)

lemma index_append [simp]: "index (xs @ ys) (length xs + i) = index ys i"
  by (simp add: index_def)

lemma slice_Some [simp]: "a \<le> b \<Longrightarrow> b \<le> length xs \<Longrightarrow> slice xs a b = Some (take (b - a) (drop a xs))"
  by (simp add: slice_def)

lemma slice_length: "slice xs a b = Some ys \<Longrightarrow> length ys = b - a"
  by (auto simp: slice_def split: if_splits)

lemma slice_sublist: "slice xs a b = Some ys \<Longrightarrow> sublist ys xs"
  by (auto simp: slice_def split: if_splits intro: sublist_order.order.trans [OF sublist_take sublist_drop])

lemma slice_append: "slice (p @ m @ s) (length p) (length p + length m) = Some m"
  by (simp add: slice_def)

lemma u16_to_be_bytes_cases:
  obtains a b where "u16_to_be_bytes w = [a, b]" "u16_from_be_bytes a b = w"
  using u16_be_roundtrip [of w] by (auto simp: u16_to_be_bytes_def simp del: of_nat_unat)

lemma u32_to_be_bytes_cases:
  obtains a b c d where "u32_to_be_bytes w = [a, b, c, d]" "u32_from_be_bytes a b c d = w"
  using u32_be_roundtrip [of w] by (auto simp: u32_to_be_bytes_def simp del: of_nat_unat)

lemma unat_u16_of_nat [simp]: "n < 65536 \<Longrightarrow> unat (of_nat n :: u16) = n"
  by (simp add: unat_of_nat)

lemma unat_u8_of_nat [simp]: "n < 256 \<Longrightarrow> unat (of_nat n :: u8) = n"
  by (simp add: unat_of_nat)

lemma slice_whole_append: "length p = a \<Longrightarrow> b = a + length m \<Longrightarrow> slice (p @ m @ s) a b = Some m"
  by (simp add: slice_append)

lemma index_at: "length p = n \<Longrightarrow> index (p @ x # q) n = Some x"
  by (auto simp: index_def nth_append)

lemma index_bound: "index xs i = Some x \<Longrightarrow> i < length xs"
  by (auto simp: index_def split: if_splits)

lemma slice_bound: "slice xs a b = Some ys \<Longrightarrow> b \<le> length xs"
  by (auto simp: slice_def split: if_splits)

lemma of_nat_low_byte: "(of_nat (n * 256 + unat b) :: u8) = b"
  using byte_bound [of b] by (simp only: word_unat_eq_iff unat_of_nat) simp

lemma u32_from_to_be_bytes: "u32_to_be_bytes (u32_from_be_bytes a b c d) = [a, b, c, d]"
proof -
  have v: "unat (u32_from_be_bytes a b c d) = ((unat a * 256 + unat b) * 256 + unat c) * 256 + unat d"
    by (simp add: unat_u32_from_be_bytes)
  note l = byte_bound [of a] byte_bound [of b] byte_bound [of c] byte_bound [of d]
  have q: "unat (u32_from_be_bytes a b c d) div 256 = (unat a * 256 + unat b) * 256 + unat c"
    unfolding v using l by simp
  have r: "unat (u32_from_be_bytes a b c d) div 65536 = unat a * 256 + unat b"
    using q l div_mult2_eq [of "unat (u32_from_be_bytes a b c d)" 256 256] by simp
  have s: "unat (u32_from_be_bytes a b c d) div 16777216 = unat a"
    using r l div_mult2_eq [of "unat (u32_from_be_bytes a b c d)" 65536 256] by simp
  show ?thesis
    unfolding u32_to_be_bytes_def s r q unfolding v of_nat_low_byte by simp
qed

end
