(* ===== verification/Sni.thy ===== *)
theory Sni
  imports Wire Validation
begin

text \<open>
  The SNI demultiplexer of the Tunneller (\<open>tunneller/src/sni/mod.rs\<close>): \<open>parse_sni\<close> reads the server
  name out of the peeked bytes of a TLS \<open>ClientHello\<close>, \<open>extract_slug\<close> turns it into the routing key.
  The parser runs in the checked monad of \<open>Wire\<close>, one definition per layer: the TLS record, the
  handshake message, the \<open>ClientHello\<close> body and the loop over its extensions.

  The lemmas show that the parser never indexes outside its buffer whatever the bytes, that it
  finds the host name in every well-formed \<open>ClientHello\<close> that carries one (the encoder of RFC 8446
  and RFC 6066 is the specification), and which host names route to which slug.
\<close>

section \<open>The parser\<close>

definition PEEK_SIZE :: nat where "PEEK_SIZE = 1024"

definition sni_host :: "bytes \<Rightarrow> string option checked" where
  "sni_host sni_data =
     (if length sni_data < 5 then Some None
      else do {
        entry_type \<leftarrow> index sni_data 2;
        if entry_type \<noteq> 0x00 then Some None
        else do {
          a \<leftarrow> index sni_data 3;
          b \<leftarrow> index sni_data 4;
          let name_len = unat (u16_from_be_bytes a b);
          if length sni_data < 5 + name_len then Some None
          else do { name \<leftarrow> slice sni_data 5 (5 + name_len); Some (from_utf8 name) }}})"

function sni_extensions :: "bytes \<Rightarrow> nat \<Rightarrow> string option checked" where
  "sni_extensions exts i =
     (if i + 4 \<le> length exts
      then do {
        t0 \<leftarrow> index exts i;
        t1 \<leftarrow> index exts (i + 1);
        l0 \<leftarrow> index exts (i + 2);
        l1 \<leftarrow> index exts (i + 3);
        let ext_type = u16_from_be_bytes t0 t1;
        let elen = unat (u16_from_be_bytes l0 l1);
        if i + 4 + elen > length exts then Some None
        else if ext_type = 0x0000
        then do { sni_data \<leftarrow> slice exts (i + 4) (i + 4 + elen); sni_host sni_data }
        else sni_extensions exts (i + 4 + elen)}
      else Some None)"
  by pat_completeness auto
termination by (relation "measure (\<lambda>(exts, i). length exts - i)") auto

declare sni_extensions.simps [simp del]

definition sni_hello :: "bytes \<Rightarrow> string option checked" where
  "sni_hello hello =
     (if length hello < 35 then Some None
      else do {
        session_len \<leftarrow> index hello 34;
        let pos = 35 + unat session_len;
        if length hello < pos + 2 then Some None
        else do {
          c0 \<leftarrow> index hello pos;
          c1 \<leftarrow> index hello (pos + 1);
          let pos = pos + (2 + unat (u16_from_be_bytes c0 c1));
          if length hello < pos + 1 then Some None
          else do {
            m \<leftarrow> index hello pos;
            let pos = pos + (1 + unat m);
            if length hello < pos + 2 then Some None
            else do {
              e0 \<leftarrow> index hello pos;
              e1 \<leftarrow> index hello (pos + 1);
              let ext_len = unat (u16_from_be_bytes e0 e1);
              let pos = pos + 2;
              if length hello < pos + ext_len then Some None
              else do { exts \<leftarrow> slice hello pos (pos + ext_len); sni_extensions exts 0 }}}}})"

definition sni_handshake :: "bytes \<Rightarrow> string option checked" where
  "sni_handshake hs =
     (if length hs < 4 then Some None
      else do {
        msg_type \<leftarrow> index hs 0;
        if msg_type \<noteq> 0x01 then Some None
        else do {
          a \<leftarrow> index hs 1;
          b \<leftarrow> index hs 2;
          c \<leftarrow> index hs 3;
          let hs_body_len = unat (u32_from_be_bytes 0 a b c);
          if length hs < 4 + hs_body_len then Some None
          else do { hello \<leftarrow> slice hs 4 (4 + hs_body_len); sni_hello hello }}})"

definition parse_sni :: "bytes \<Rightarrow> string option checked" where
  "parse_sni buf =
     (if length buf < 5 then Some None
      else do {
        content_type \<leftarrow> index buf 0;
        if content_type \<noteq> 0x16 then Some None
        else do {
          a \<leftarrow> index buf 3;
          b \<leftarrow> index buf 4;
          let record_len = unat (u16_from_be_bytes a b);
          if length buf < 5 + record_len then Some None
          else do { hs \<leftarrow> slice buf 5 (5 + record_len); sni_handshake hs }}})"

definition extract_slug :: "string \<Rightarrow> string \<Rightarrow> string option" where
  "extract_slug hostname subdomain_dot_suffix =
     (case strip_suffix subdomain_dot_suffix hostname of
        None \<Rightarrow> None
      | Some before \<Rightarrow>
          (let slug = last (split_on (CHR ''.'') before) in
           if is_valid_name slug then Some slug else None))"

section \<open>No access outside the buffer\<close>

lemma sni_host_total: "\<exists>r. sni_host d = Some r"
  by (auto simp: sni_host_def Let_def)

lemma sni_extensions_total: "\<exists>r. sni_extensions exts i = Some r"
proof (induction exts i rule: sni_extensions.induct)
  case (1 exts i)
  show ?case
  proof (cases "i + 4 \<le> length exts")
    case True
    then show ?thesis
      using 1 sni_host_total
      by (subst sni_extensions.simps) (auto simp: Let_def)
  qed (subst sni_extensions.simps, simp)
qed

lemma sni_hello_total: "\<exists>r. sni_hello h = Some r"
  using sni_extensions_total by (auto simp: sni_hello_def Let_def)

lemma sni_handshake_total: "\<exists>r. sni_handshake h = Some r"
  using sni_hello_total by (auto simp: sni_handshake_def Let_def simp del: length_greater_0_conv)

lemma parse_sni_total: "\<exists>r. parse_sni buf = Some r"
  using sni_handshake_total by (auto simp: parse_sni_def Let_def simp del: length_greater_0_conv)

section \<open>What is found is in the buffer\<close>

lemma sni_host_sublist: "sni_host d = Some (Some h) \<Longrightarrow> sublist (as_bytes h) d"
  by (auto simp: sni_host_def Let_def from_utf8_Some simp del: slice_Some split: if_splits bind_splits intro: slice_sublist)

lemma sni_extensions_sublist: "sni_extensions exts i = Some (Some h) \<Longrightarrow> sublist (as_bytes h) exts"
proof (induction exts i rule: sni_extensions.induct)
  case (1 exts i)
  from 1 (2) show ?case
    by (subst (asm) sni_extensions.simps)
      (auto simp: Let_def simp del: slice_Some split: if_splits bind_splits
        intro: 1 (1) sublist_order.order.trans [OF sni_host_sublist slice_sublist])
qed

lemma sni_hello_sublist: "sni_hello d = Some (Some h) \<Longrightarrow> sublist (as_bytes h) d"
  by (auto simp: sni_hello_def Let_def simp del: slice_Some split: if_splits bind_splits
      intro: sublist_order.order.trans [OF sni_extensions_sublist slice_sublist])

lemma sni_handshake_sublist: "sni_handshake d = Some (Some h) \<Longrightarrow> sublist (as_bytes h) d"
  by (auto simp: sni_handshake_def Let_def simp del: slice_Some split: if_splits bind_splits
      intro: sublist_order.order.trans [OF sni_hello_sublist slice_sublist])

lemma parse_sni_sublist: "parse_sni d = Some (Some h) \<Longrightarrow> sublist (as_bytes h) d"
  by (auto simp: parse_sni_def Let_def simp del: slice_Some split: if_splits bind_splits
      intro: sublist_order.order.trans [OF sni_handshake_sublist slice_sublist])

section \<open>The ClientHello of RFC 8446\<close>

text \<open>The specification the parser is measured against: the wire form of a \<open>ClientHello\<close>.\<close>

record client_hello =
  hello_head :: bytes
  hello_session :: bytes
  hello_ciphers :: bytes
  hello_compression :: bytes
  hello_before :: "(u16 \<times> bytes) list"
  hello_name :: "string option"
  hello_after :: "(u16 \<times> bytes) list"

definition vec16 :: "bytes \<Rightarrow> bytes" where
  "vec16 d = u16_to_be_bytes (of_nat (length d)) @ d"

definition vec8 :: "bytes \<Rightarrow> bytes" where
  "vec8 d = of_nat (length d) # d"

definition encode_extensions :: "(u16 \<times> bytes) list \<Rightarrow> bytes" where
  "encode_extensions es = concat (map (\<lambda>(t, d). u16_to_be_bytes t @ vec16 d) es)"

definition server_name_data :: "bytes \<Rightarrow> bytes" where
  "server_name_data host = vec16 (0 # vec16 host)"

definition hello_extensions :: "client_hello \<Rightarrow> (u16 \<times> bytes) list" where
  "hello_extensions h =
     hello_before h @
     (case hello_name h of None \<Rightarrow> [] | Some n \<Rightarrow> [(0, server_name_data (as_bytes n))]) @ hello_after h"

definition encode_hello :: "client_hello \<Rightarrow> bytes" where
  "encode_hello h =
     hello_head h @ vec8 (hello_session h) @ vec16 (hello_ciphers h) @ vec8 (hello_compression h) @
     vec16 (encode_extensions (hello_extensions h))"

definition encode_handshake :: "bytes \<Rightarrow> bytes" where
  "encode_handshake body = 1 # tl (u32_to_be_bytes (of_nat (length body))) @ body"

definition encode_record :: "bytes \<Rightarrow> bytes" where
  "encode_record fragment = [0x16, 3, 1] @ vec16 fragment"

definition client_hello_bytes :: "client_hello \<Rightarrow> bytes" where
  "client_hello_bytes h = encode_record (encode_handshake (encode_hello h))"

definition hello_ok :: "client_hello \<Rightarrow> bool" where
  "hello_ok h \<longleftrightarrow>
     length (hello_head h) = 34 \<and> length (hello_session h) < 256 \<and> length (hello_ciphers h) < 65536 \<and>
     length (hello_compression h) < 256 \<and> length (encode_handshake (encode_hello h)) < 65536 \<and>
     0 \<notin> fst ` set (hello_before h @ hello_after h) \<and>
     (case hello_name h of None \<Rightarrow> True | Some n \<Rightarrow> utf8_valid (as_bytes n))"

lemma sni_host_server_name:
  assumes "length host < 65533" shows "sni_host (server_name_data host) = Some (from_utf8 host)"
proof -
  obtain a b where ab: "u16_to_be_bytes (of_nat (length (0 # vec16 host))) = [a, b]"
    by (rule u16_to_be_bytes_cases)
  obtain c d where cd: "u16_to_be_bytes (of_nat (length host)) = [c, d]"
      "u16_from_be_bytes c d = of_nat (length host)"
    by (rule u16_to_be_bytes_cases)
  have "server_name_data host = [a, b, 0, c, d] @ host"
    using ab cd (1) by (simp add: server_name_data_def vec16_def)
  then show ?thesis
    using assms cd (2) by (simp add: sni_host_def Let_def index_def slice_def)
qed

lemma parse_sni_record:
  assumes "length f < 65536" shows "parse_sni (encode_record f @ rest) = sni_handshake f"
proof -
  obtain a b where ab: "u16_to_be_bytes (of_nat (length f)) = [a, b]" "u16_from_be_bytes a b = of_nat (length f)"
    by (rule u16_to_be_bytes_cases)
  have "encode_record f @ rest = [0x16, 3, 1, a, b] @ f @ rest"
    using ab (1) by (simp add: encode_record_def vec16_def)
  then show ?thesis
    using assms ab (2) by (simp add: parse_sni_def Let_def index_def slice_def)
qed

lemma sni_handshake_hello:
  assumes "length b < 16777216" shows "sni_handshake (encode_handshake b) = sni_hello b"
proof -
  obtain w x y z where q: "u32_to_be_bytes (of_nat (length b)) = [w, x, y, z]"
      "u32_from_be_bytes w x y z = of_nat (length b)"
    by (rule u32_to_be_bytes_cases)
  have n: "unat (of_nat (length b) :: u32) = length b" using assms by (simp add: unat_of_nat)
  then have "unat w * 16777216 + unat x * 65536 + unat y * 256 + unat z = length b"
    using q (2) unat_u32_from_be_bytes [of w x y z] by simp
  then have "w = 0" using assms by (cases "unat w") (auto simp: unat_eq_zero)
  then show ?thesis
    using q n by (simp add: sni_handshake_def encode_handshake_def Let_def index_def slice_def)
qed

lemma sni_hello_walk:
  assumes "index h 34 = Some s"
    and "pa = 35 + unat s" and c: "index h pa = Some c0" "index h (pa + 1) = Some c1"
    and "pb = pa + (2 + unat (u16_from_be_bytes c0 c1))" and m: "index h pb = Some m"
    and "pc = pb + (1 + unat m)" and e: "index h pc = Some e0" "index h (pc + 1) = Some e1"
    and x: "slice h (pc + 2) (pc + 2 + unat (u16_from_be_bytes e0 e1)) = Some exts"
  shows "sni_hello h = sni_extensions exts 0"
proof -
  have b: "\<not> length h < 35" "\<not> length h < pa + 2" "\<not> length h < pb + 1" "\<not> length h < pc + 2"
      "\<not> length h < pc + 2 + unat (u16_from_be_bytes e0 e1)"
    using index_bound [OF assms (1)] index_bound [OF c (2)] index_bound [OF m] index_bound [OF e (2)]
      slice_bound [OF x] by simp_all
  show ?thesis
    unfolding sni_hello_def Let_def assms (1) Option.bind_lunit if_not_P [OF b (1)] assms (2) [symmetric]
      if_not_P [OF b (2)] c assms (5) [symmetric] if_not_P [OF b (3)] m assms (7) [symmetric]
      if_not_P [OF b (4)] e if_not_P [OF b (5)] x ..
qed

lemma sni_hello_extensions:
  assumes "hello_ok h" shows "sni_hello (encode_hello h) = sni_extensions (encode_extensions (hello_extensions h)) 0"
proof -
  let ?S = "hello_session h" and ?C = "hello_ciphers h" and ?M = "hello_compression h"
    and ?E = "encode_extensions (hello_extensions h)" and ?H = "hello_head h"
  obtain c0 c1 where c: "u16_to_be_bytes (of_nat (length ?C)) = [c0, c1]"
      "u16_from_be_bytes c0 c1 = of_nat (length ?C)" by (rule u16_to_be_bytes_cases)
  obtain e0 e1 where e: "u16_to_be_bytes (of_nat (length ?E)) = [e0, e1]"
      "u16_from_be_bytes e0 e1 = of_nat (length ?E)" by (rule u16_to_be_bytes_cases)
  define s :: u8 where "s = of_nat (length ?S)"
  define m :: u8 where "m = of_nat (length ?M)"
  have l: "length ?H = 34" "unat s = length ?S" "unat m = length ?M" "length ?C < 65536" "length ?E < 65536"
    using assms by (simp_all add: hello_ok_def s_def m_def encode_hello_def encode_handshake_def vec16_def)
  have x: "encode_hello h = ?H @ s # ?S @ c0 # c1 # ?C @ m # ?M @ e0 # e1 # ?E"
    using c e by (simp add: encode_hello_def vec16_def vec8_def s_def m_def)
  define q1 q2 q3 where "q1 = ?H @ s # ?S" and "q2 = q1 @ c0 # c1 # ?C" and "q3 = q2 @ m # ?M"
  have len: "length q1 = 35 + length ?S" "length q2 = 37 + length ?S + length ?C"
      "length q3 = 38 + length ?S + length ?C + length ?M"
    using l (1) by (simp_all add: q1_def q2_def q3_def)
  have i: "index (encode_hello h) 34 = Some s" unfolding x by (rule index_at) (rule l)
  have j0: "index (encode_hello h) (35 + length ?S) = Some c0"
    using index_at [OF len (1), of c0 "c1 # ?C @ m # ?M @ e0 # e1 # ?E"] unfolding x q1_def by (simp only: append.assoc append_Cons)
  have j1: "index (encode_hello h) (36 + length ?S) = Some c1"
    using index_at [of "q1 @ [c0]" "36 + length ?S" c1 "?C @ m # ?M @ e0 # e1 # ?E"] len (1)
    unfolding x q1_def by (simp only: append.assoc append_Cons append_Nil length_append) simp
  have k: "index (encode_hello h) (37 + length ?S + length ?C) = Some m"
    using index_at [OF len (2), of m "?M @ e0 # e1 # ?E"] unfolding x q2_def q1_def by (simp only: append.assoc append_Cons)
  have n0: "index (encode_hello h) (38 + length ?S + length ?C + length ?M) = Some e0"
    using index_at [OF len (3), of e0 "e1 # ?E"] unfolding x q3_def q2_def q1_def by (simp only: append.assoc append_Cons)
  have n1: "index (encode_hello h) (39 + length ?S + length ?C + length ?M) = Some e1"
    using index_at [of "q3 @ [e0]" "39 + length ?S + length ?C + length ?M" e1 ?E] len (3)
    unfolding x q3_def q2_def q1_def by (simp only: append.assoc append_Cons append_Nil length_append) simp
  have t: "slice (encode_hello h) (40 + length ?S + length ?C + length ?M)
      (40 + length ?S + length ?C + length ?M + length ?E) = Some ?E"
    using slice_whole_append [of "q3 @ [e0, e1]" "40 + length ?S + length ?C + length ?M" _ ?E "[]"] len (3)
    unfolding x q3_def q2_def q1_def by (simp only: append.assoc append_Cons append_Nil append_Nil2 length_append) simp
  show ?thesis
  proof (rule sni_hello_walk [where pa = "35 + length ?S" and pb = "37 + length ?S + length ?C"
        and pc = "38 + length ?S + length ?C + length ?M", OF i _ j0 _ _ k _ n0])
    show "index (encode_hello h) (35 + length ?S + 1) = Some c1" using j1 by (simp del: index_Some)
    show "index (encode_hello h) (38 + length ?S + length ?C + length ?M + 1) = Some e1"
      using n1 by (simp add: add.assoc del: index_Some)
    show "slice (encode_hello h) (38 + length ?S + length ?C + length ?M + 2)
        (38 + length ?S + length ?C + length ?M + 2 + unat (u16_from_be_bytes e0 e1)) = Some ?E"
      using t l e (2) by (simp add: add.assoc del: slice_Some)
  qed (use l c (2) in simp_all)
qed

lemma sni_extensions_find:
  assumes "\<forall>(t, d) \<in> set es. length d < 65536"
  shows "sni_extensions (p @ encode_extensions es) (length p) =
    (case map_of es 0 of None \<Rightarrow> Some None | Some d \<Rightarrow> sni_host d)"
  using assms
proof (induction es arbitrary: p)
  case Nil
  then show ?case by (simp add: encode_extensions_def sni_extensions.simps)
next
  case (Cons td es)
  obtain t d where td: "td = (t, d)" by (cases td)
  obtain t0 t1 where t: "u16_to_be_bytes t = [t0, t1]" "u16_from_be_bytes t0 t1 = t"
    by (rule u16_to_be_bytes_cases)
  obtain l0 l1 where l: "u16_to_be_bytes (of_nat (length d)) = [l0, l1]"
      "u16_from_be_bytes l0 l1 = of_nat (length d)" by (rule u16_to_be_bytes_cases)
  let ?X = "p @ t0 # t1 # l0 # l1 # d @ encode_extensions es"
  have x: "p @ encode_extensions (td # es) = ?X"
    using t l by (simp add: encode_extensions_def vec16_def td)
  have i: "index ?X (length p) = Some t0" "index ?X (length p + 1) = Some t1"
      "index ?X (length p + 2) = Some l0" "index ?X (length p + 3) = Some l1"
    by (simp_all add: index_def nth_append)
  have s: "slice ?X (length p + 4) (length p + 4 + length d) = Some d"
    using slice_whole_append [of "p @ [t0, t1, l0, l1]" _ _ d "encode_extensions es"] by simp
  have "length (p @ [t0, t1, l0, l1] @ d) = length p + 4 + length d" by simp
  then have IH: "sni_extensions ?X (length p + 4 + length d) =
      (case map_of es 0 of None \<Rightarrow> Some None | Some d \<Rightarrow> sni_host d)"
    using Cons.IH [of "p @ [t0, t1, l0, l1] @ d"] Cons.prems by (simp only: append.assoc append_Cons append_Nil) simp
  have d: "length d < 65536" using Cons.prems td by simp
  show ?case
    unfolding x using i s IH t (2) l (2) d
    by (subst sni_extensions.simps) (simp add: td Let_def del: index_Some slice_Some)
qed

lemma extension_length: "(t, d) \<in> set es \<Longrightarrow> length d \<le> length (encode_extensions es)"
  by (induction es) (auto simp: encode_extensions_def vec16_def)

lemma server_name_bound:
  assumes "hello_ok h" "hello_name h = Some n" shows "length n < 65533"
proof -
  have "(0, server_name_data (as_bytes n)) \<in> set (hello_extensions h)"
    using assms by (simp add: hello_extensions_def)
  then have "length (server_name_data (as_bytes n)) \<le> length (encode_extensions (hello_extensions h))"
    by (rule extension_length)
  then show ?thesis
    using assms by (simp add: hello_ok_def encode_handshake_def encode_hello_def server_name_data_def vec16_def vec8_def)
qed

lemma hello_extensions_pick:
  assumes "hello_ok h"
  shows "(case map_of (hello_extensions h) 0 of None \<Rightarrow> Some None | Some d \<Rightarrow> sni_host d) = Some (hello_name h)"
proof (cases "hello_name h")
  case None
  then have "map_of (hello_extensions h) 0 = None"
    using assms by (auto simp: hello_ok_def hello_extensions_def map_of_eq_None_iff)
  then show ?thesis using None by simp
next
  case (Some n)
  have "map_of (hello_before h) 0 = None"
    using assms by (auto simp: hello_ok_def map_of_eq_None_iff)
  then have "map_of (hello_extensions h) 0 = Some (server_name_data (as_bytes n))"
    using Some by (simp add: hello_extensions_def map_add_def)
  then show ?thesis
    using Some assms server_name_bound [OF assms Some]
    by (simp add: sni_host_server_name from_utf8_as_bytes hello_ok_def)
qed

lemma parse_client_hello:
  assumes "hello_ok h" shows "parse_sni (client_hello_bytes h @ rest) = Some (hello_name h)"
proof -
  have l: "length (encode_handshake (encode_hello h)) < 65536" using assms by (simp add: hello_ok_def)
  then have b: "length (encode_hello h) < 16777216" by (simp add: encode_handshake_def)
  have "\<forall>(t, d) \<in> set (hello_extensions h). length d < 65536"
    using l by (auto simp: encode_handshake_def encode_hello_def vec16_def dest!: extension_length)
  then show ?thesis
    using sni_extensions_find [of "hello_extensions h" "[]"] parse_sni_record [OF l, of rest] hello_extensions_pick [OF assms]
    by (simp add: client_hello_bytes_def sni_handshake_hello [OF b] sni_hello_extensions [OF assms])
qed

section \<open>Slugs\<close>

lemma extract_slug_iff:
  "extract_slug host parent = Some slug \<longleftrightarrow>
     is_valid_name slug \<and> (host = slug @ parent \<or> (\<exists>service. host = service @ ''.'' @ slug @ parent))"
proof -
  have "extract_slug host parent = Some slug \<longleftrightarrow>
      is_valid_name slug \<and> (\<exists>b. host = b @ parent \<and> last (split_on (CHR ''.'') b) = slug)"
    by (auto simp: extract_slug_def Let_def strip_suffix_Some split: option.splits)
  then show ?thesis using is_valid_name_no_dot [of slug] by (auto simp: last_split_on)
qed

text \<open>A \<open>ClientHello\<close> whose record is longer than the peek buffer yields no name.\<close>

lemma long_record_unroutable:
  assumes "length f < 65536" "PEEK_SIZE < 5 + length f"
  shows "parse_sni (take PEEK_SIZE (encode_record f @ rest)) = Some None"
proof -
  obtain a b where ab: "u16_to_be_bytes (of_nat (length f)) = [a, b]" "u16_from_be_bytes a b = of_nat (length f)"
    by (rule u16_to_be_bytes_cases)
  have "take PEEK_SIZE (encode_record f @ rest) = [0x16, 3, 1, a, b] @ take 1019 (f @ rest)"
    using ab (1) by (simp add: encode_record_def vec16_def PEEK_SIZE_def)
  then show ?thesis
    using assms ab (2) by (simp add: parse_sni_def Let_def index_def PEEK_SIZE_def)
qed

section \<open>Properties\<close>

text \<open>C25. Whatever bytes a client sends, \<open>parse_sni\<close> returns: no index or slice of the parser is ever outside
  its buffer, so an adversarial handshake cannot panic the demultiplexer; and a host name it returns
  is made of consecutive bytes of the buffer.\<close>

theorem parse_sni_safe:
  "parse_sni buf = Some None \<or> (\<exists>host. parse_sni buf = Some (Some host) \<and> sublist (as_bytes host) buf)"
proof -
  obtain r where "parse_sni buf = Some r" using parse_sni_total by blast
  then show ?thesis using parse_sni_sublist [of buf] by (cases r) auto
qed

text \<open>C26. In every well-formed \<open>ClientHello\<close>, whatever its session id, cipher suites, compression methods and
  other extensions and wherever the server name stands among them, \<open>parse_sni\<close> finds exactly the server
  name, also when more bytes follow; without the extension it answers that there is none.\<close>

theorem parse_sni_finds_host:
  assumes "hello_ok h" shows "parse_sni (client_hello_bytes h @ rest) = Some (hello_name h)"
  by (rule parse_client_hello [OF assms])

definition ex_hello :: client_hello where
  "ex_hello = \<lparr>hello_head = replicate 34 7, hello_session = [1, 2], hello_ciphers = [0, 47], hello_compression = [0],
     hello_before = [(16, [0, 1])], hello_name = Some ''box.alice.my.dev'', hello_after = [(43, [2, 3, 4])]\<rparr>"

lemma ex_hello_ok: "hello_ok ex_hello"
  by (simp add: hello_ok_def ex_hello_def encode_handshake_def encode_hello_def vec8_def vec16_def hello_extensions_def
      encode_extensions_def server_name_data_def as_bytes_def byte_of_def)

theorem parse_sni_finds_host_witness:
  "hello_ok ex_hello \<and> parse_sni (client_hello_bytes ex_hello @ [1, 2, 3]) = Some (Some ''box.alice.my.dev'')"
  using ex_hello_ok parse_sni_finds_host [OF ex_hello_ok, of "[1, 2, 3]"] by (simp add: ex_hello_def)

end
