(* ===== verification/Proxy_Protocol.thy ===== *)
theory Proxy_Protocol
  imports Wire Auth Validation
begin

text \<open>
  The PROXY protocol v1 reader of the listeners (\<open>common/src/proxy_protocol.rs\<close>) and the gate of the
  public API listener (\<open>common/src/serve.rs\<close>). A connection is the list of the bytes still to be read;
  a read past its end is the I/O error of a closed peer. The parser of \<open>IpAddr\<close> and its printer are
  those of the standard library.

  The lemmas show that the reader consumes exactly the header line, that it returns the address the
  proxy wrote, and that a client can make its own address up only from a loopback peer.
\<close>

section \<open>IP addresses of the standard library\<close>

datatype ip_addr = V4 ipv4 | V6 "u16 list"

definition to_digit :: "nat \<Rightarrow> char \<Rightarrow> nat option" where
  "to_digit radix c =
     (let n = of_char c :: nat;
          d = (if 48 \<le> n \<and> n \<le> 57 then Some (n - 48)
               else if 97 \<le> n \<and> n \<le> 122 then Some (n - 87)
               else if 65 \<le> n \<and> n \<le> 90 then Some (n - 55) else None) in
      case d of None \<Rightarrow> None | Some v \<Rightarrow> if v < radix then Some v else None)"

definition read_number :: "nat \<Rightarrow> nat \<Rightarrow> bool \<Rightarrow> nat \<Rightarrow> string \<Rightarrow> (nat \<times> string) option" where
  "read_number radix max_digits allow_zero_prefix bits s =
     (let ds = takeWhile (\<lambda>c. to_digit radix c \<noteq> None) s;
          v = foldl (\<lambda>acc c. radix * acc + the (to_digit radix c)) 0 ds in
      if length ds > max_digits \<or> ds = [] then None
      else if \<not> allow_zero_prefix \<and> hd ds = CHR ''0'' \<and> length ds > 1 then None
      else if v \<ge> 2 ^ bits then None
      else Some (v, drop (length ds) s))"

definition read_char :: "char \<Rightarrow> string \<Rightarrow> string option" where
  "read_char c s = (case s of [] \<Rightarrow> None | d # r \<Rightarrow> if d = c then Some r else None)"

definition read_octet :: "string \<Rightarrow> (u8 \<times> string) option" where
  "read_octet s = map_option (\<lambda>(v, r). (of_nat v, r)) (read_number 10 3 False 8 s)"

definition read_ipv4_addr :: "string \<Rightarrow> (ipv4 \<times> string) option" where
  "read_ipv4_addr s = do {
     (a, s) \<leftarrow> read_octet s;
     s \<leftarrow> read_char CHR ''.'' s; (b, s) \<leftarrow> read_octet s;
     s \<leftarrow> read_char CHR ''.'' s; (c, s) \<leftarrow> read_octet s;
     s \<leftarrow> read_char CHR ''.'' s; (d, s) \<leftarrow> read_octet s;
     Some ((a, b, c, d), s) }"

definition ipv4_groups :: "ipv4 \<Rightarrow> u16 list" where
  "ipv4_groups ip = (case ip of (a, b, c, d) \<Rightarrow> [u16_from_be_bytes a b, u16_from_be_bytes c d])"

fun read_groups :: "nat \<Rightarrow> nat \<Rightarrow> string \<Rightarrow> u16 list \<times> bool \<times> string" where
  "read_groups i 0 s = ([], False, s)"
| "read_groups i (Suc left) s =
     (let at = (if i = 0 then Some s else read_char CHR '':'' s) in
      case (if left = 0 then None else Option.bind at read_ipv4_addr) of
        Some (v4, r) \<Rightarrow> (ipv4_groups v4, True, r)
      | None \<Rightarrow>
          (case Option.bind at (read_number 16 4 True 16) of
             None \<Rightarrow> ([], False, s)
           | Some (g, r) \<Rightarrow>
               (case read_groups (Suc i) left r of (gs, v4, r') \<Rightarrow> (of_nat g # gs, v4, r'))))"

definition read_ipv6_addr :: "string \<Rightarrow> (u16 list \<times> string) option" where
  "read_ipv6_addr s =
     (case read_groups 0 8 s of (head, head_ipv4, r) \<Rightarrow>
        if length head = 8 then Some (head, r)
        else if head_ipv4 then None
        else do {
          r \<leftarrow> read_char CHR '':'' r;
          r \<leftarrow> read_char CHR '':'' r;
          (case read_groups 0 (8 - (length head + 1)) r of (tail, _, r') \<Rightarrow>
             Some (head @ replicate (8 - length head - length tail) 0 @ tail, r')) })"

definition parse_ip :: "string \<Rightarrow> ip_addr option" where
  "parse_ip s =
     (case (case read_ipv4_addr s of
              Some (a, r) \<Rightarrow> Some (V4 a, r)
            | None \<Rightarrow> map_option (\<lambda>(g, r). (V6 g, r)) (read_ipv6_addr s)) of
        None \<Rightarrow> None | Some (ip, r) \<Rightarrow> if r = [] then Some ip else None)"

definition parse_port :: "string \<Rightarrow> u16 option" where
  "parse_port s = map_option of_nat (parse_unsigned 16 s)"

definition is_loopback :: "ip_addr \<Rightarrow> bool" where
  "is_loopback ip = (case ip of V4 (a, _) \<Rightarrow> a = 127 | V6 g \<Rightarrow> g = [0, 0, 0, 0, 0, 0, 0, 1])"

fun show_hex :: "nat \<Rightarrow> string" where
  "show_hex n =
     (let d = (\<lambda>v. if v < 10 then char_of (48 + v) else char_of (87 + v)) in
      if n < 16 then [d n] else show_hex (n div 16) @ [d (n mod 16)])"

declare show_hex.simps [simp del]

fun zero_run :: "nat \<Rightarrow> u16 list \<Rightarrow> nat \<times> nat \<Rightarrow> nat \<times> nat \<Rightarrow> nat \<times> nat" where
  "zero_run i [] current longest = longest"
| "zero_run i (g # gs) current longest =
     (if g = 0
      then let start = (if snd current = 0 then i else fst current); len = snd current + 1 in
           zero_run (Suc i) gs (start, len) (if len > snd longest then (start, len) else longest)
      else zero_run (Suc i) gs (0, 0) longest)"

definition ip_to_string :: "ip_addr \<Rightarrow> string" where
  "ip_to_string ip =
     (case ip of
        V4 a \<Rightarrow> show_ipv4 a
      | V6 g \<Rightarrow>
          let fmt = (\<lambda>gs. join_with '':'' (map (\<lambda>w. show_hex (unat w)) gs)) in
          if take 6 g = [0, 0, 0, 0, 0, 0xFFFF] \<and> length g = 8
          then ''::ffff:'' @ show_ipv4 (of_nat (unat (g ! 6) div 256), of_nat (unat (g ! 6)),
                                        of_nat (unat (g ! 7) div 256), of_nat (unat (g ! 7)))
          else case zero_run 0 g (0, 0) (0, 0) of (start, len) \<Rightarrow>
                 if len > 1 then fmt (take start g) @ ''::'' @ fmt (drop (start + len) g) else fmt g)"

section \<open>The header\<close>

definition MAX_HEADER_LEN :: nat where "MAX_HEADER_LEN = 107"

definition CRLF :: bytes where "CRLF = [13, 10]"

type_synonym socket_addr = "ip_addr \<times> u16"

definition parse_v1 :: "bytes \<Rightarrow> string + socket_addr option" where
  "parse_v1 line =
     (if \<not> suffix CRLF line then Inl ''PROXY v1 header not CRLF-terminated''
      else case from_utf8 (take (length line - 2) line) of
        None \<Rightarrow> Inl ''PROXY v1 header is not valid UTF-8''
      | Some txt \<Rightarrow>
          (case split_on (CHR '' '') txt of
             [] \<Rightarrow> Inl ''missing PROXY v1 signature''
           | sig # parts \<Rightarrow>
               if sig \<noteq> ''PROXY'' then Inl ''missing PROXY v1 signature''
               else (case parts of
                 [] \<Rightarrow> Inl ''PROXY v1: unsupported transport family''
               | family # parts \<Rightarrow>
                   if family = ''TCP4'' \<or> family = ''TCP6''
                   then (case parts of
                           [] \<Rightarrow> Inl ''PROXY v1: missing source address''
                         | src_ip # parts \<Rightarrow>
                             (case drop 1 parts of
                                [] \<Rightarrow> Inl ''PROXY v1: missing source port''
                              | src_port # _ \<Rightarrow>
                                  (case parse_ip src_ip of
                                     None \<Rightarrow> Inl ''PROXY v1: invalid source IP''
                                   | Some ip \<Rightarrow>
                                       (case parse_port src_port of
                                          None \<Rightarrow> Inl ''PROXY v1: invalid source port''
                                        | Some port \<Rightarrow> Inr (Some (ip, port))))))
                   else if family = ''UNKNOWN'' then Inr None
                   else Inl ''PROXY v1: unsupported transport family'')))"

fun read_header :: "bytes \<Rightarrow> bytes \<Rightarrow> (string + bytes) \<times> bytes" where
  "read_header line [] = (Inl ''early eof'', [])"
| "read_header line (b # stream) =
     (let line = line @ [b] in
      if suffix CRLF line then (Inr line, stream)
      else if length line > MAX_HEADER_LEN
      then (Inl ''PROXY v1 header exceeded 107 bytes without CRLF'', stream)
      else read_header line stream)"

definition read_required :: "bytes \<Rightarrow> (string + socket_addr option) \<times> bytes" where
  "read_required stream =
     (case read_header [] stream of
        (Inl e, rest) \<Rightarrow> (Inl e, rest) | (Inr line, rest) \<Rightarrow> (parse_v1 line, rest))"

section \<open>The public listener and the client address\<close>

definition run_api_connection :: "bytes \<Rightarrow> (socket_addr \<times> bytes) option" where
  "run_api_connection stream =
     (case read_required stream of
        (Inr (Some addr), rest) \<Rightarrow> Some (addr, rest)
      | (Inr None, _) \<Rightarrow> None
      | (Inl _, _) \<Rightarrow> None)"

definition client_ip :: "header_map \<Rightarrow> socket_addr \<Rightarrow> string" where
  "client_ip headers addr =
     (case (if is_loopback (fst addr) then header ''x-forwarded-for'' headers else None) of
        Some v \<Rightarrow> trim (hd (split_on (CHR '','') v))
      | None \<Rightarrow> ip_to_string (fst addr))"

section \<open>Exactly the header line\<close>

lemma suffix_crlf_snoc: "suffix CRLF (l @ [b]) \<longleftrightarrow> b = 10 \<and> l \<noteq> [] \<and> last l = 13"
  by (cases l rule: rev_cases) (auto simp: CRLF_def suffix_def)

lemma suffix_crlf [simp]: "suffix [13, 10] (l @ [13, 10 :: u8])"
  by (simp add: suffix_def)

lemma read_header_line:
  assumes "10 \<notin> set body" "length acc + length body \<le> 106"
  shows "read_header acc (body @ CRLF @ rest) = (Inr (acc @ body @ CRLF), rest)"
  using assms
proof (induction body arbitrary: acc)
  case Nil
  then show ?case by (simp add: CRLF_def Let_def suffix_crlf_snoc [unfolded CRLF_def] MAX_HEADER_LEN_def)
next
  case (Cons b body)
  then have "\<not> suffix CRLF (acc @ [b])" by (auto simp only: suffix_crlf_snoc list.set insert_iff)
  then show ?case
    using Cons.IH [of "acc @ [b]"] Cons.prems by (simp add: Let_def MAX_HEADER_LEN_def del: suffix_snoc)
qed

lemma read_header_prefix:
  "read_header acc s = (Inr l, rest) \<Longrightarrow> \<exists>p. l = acc @ p \<and> s = p @ rest \<and> suffix CRLF l \<and> length l \<le> max 108 (Suc (length acc))"
proof (induction acc s rule: read_header.induct)
  case (2 line b stream)
  show ?case
  proof (cases "suffix CRLF (line @ [b])")
    case False
    with 2 (2) have "length (line @ [b]) \<le> 107" "read_header (line @ [b]) stream = (Inr l, rest)"
      by (auto simp: Let_def MAX_HEADER_LEN_def split: if_splits)
    moreover from this obtain p where "l = (line @ [b]) @ p" "stream = p @ rest" "suffix CRLF l"
        "length l \<le> max 108 (Suc (length (line @ [b])))"
      using 2 (1) [OF refl False] by (auto simp: MAX_HEADER_LEN_def)
    ultimately show ?thesis by (intro exI [of _ "b # p"]) auto
  qed (use 2 (2) in \<open>auto simp: Let_def\<close>)
qed simp

section \<open>Printed addresses and ports are read back\<close>

lemma of_char_digit_char: "d < 10 \<Longrightarrow> of_char (digit_char d) = 48 + d"
  by (simp add: digit_char_def of_char_of take_bit_eq_mod)

lemma to_digit_digit_char [simp]: "d < 10 \<Longrightarrow> to_digit 10 (digit_char d) = Some d"
  by (simp add: to_digit_def of_char_digit_char Let_def)

lemma digit_char_nonzero: "0 < d \<Longrightarrow> d < 10 \<Longrightarrow> digit_char d \<noteq> CHR ''0''"
  using of_char_digit_char [of d] by auto

lemma show_octet_cases:
  assumes "n < 256"
  obtains "n < 10" "show_nat n = [digit_char n]"
  | "10 \<le> n" "n < 100" "show_nat n = [digit_char (n div 10), digit_char (n mod 10)]"
  | "100 \<le> n" "show_nat n = [digit_char (n div 10 div 10), digit_char (n div 10 mod 10), digit_char (n mod 10)]"
proof (cases "n < 10")
  case True then show thesis using that (1) by (simp add: show_nat.simps [of n])
next
  case False
  show thesis
  proof (cases "n < 100")
    case True
    then show thesis
      using that (2) False by (simp add: show_nat.simps [of n] show_nat.simps [of "n div 10"])
  next
    case big: False
    have "n div 10 div 10 < 10" using assms by simp
    then show thesis
      using that (3) False big
      by (simp add: show_nat.simps [of n] show_nat.simps [of "n div 10"] show_nat.simps [of "n div 10 div 10"])
  qed
qed

lemma read_number_octet:
  assumes n: "n < 256" and r: "r = [] \<or> to_digit 10 (hd r) = None"
  shows "read_number 10 3 False 8 (show_nat n @ r) = Some (n, r)"
proof -
  have w: "takeWhile (\<lambda>c. to_digit 10 c \<noteq> None) r = []" using r by (cases r) auto
  from n show ?thesis
  proof (cases rule: show_octet_cases)
    case 1
    then show ?thesis using w n by (simp add: read_number_def Let_def)
  next
    case 2
    have "10 * (n div 10) + n mod 10 = n" by simp
    then show ?thesis using 2 w by (simp add: read_number_def Let_def digit_char_nonzero)
  next
    case 3
    have d: "n div 10 div 10 < 10" "0 < n div 10 div 10" using n 3 by (simp_all add: div_mult2_eq [symmetric] div_greater_zero_iff)
    have "10 * (10 * (n div 10 div 10) + n div 10 mod 10) + n mod 10 = n"
      by (simp only: mult_div_mod_eq)
    then show ?thesis using 3 w n d by (simp add: read_number_def Let_def digit_char_nonzero)
  qed
qed

lemma read_octet_show:
  "r = [] \<or> to_digit 10 (hd r) = None \<Longrightarrow> read_octet (show_nat (unat b) @ r) = Some (b, r)"
  using read_number_octet [OF byte_bound [of b]] by (simp add: read_octet_def)

lemma to_digit_dot [simp]: "to_digit 10 CHR ''.'' = None"
  by (simp add: to_digit_def Let_def)

lemma parse_ip_show_ipv4: "parse_ip (show_ipv4 a) = Some (V4 a)"
proof -
  obtain x y z w where a: "a = (x, y, z, w)" by (cases a) auto
  have "read_ipv4_addr (show_ipv4 a) = Some (a, [])"
    using read_octet_show [of "[]" w]
    by (simp add: read_ipv4_addr_def show_ipv4_def a read_octet_show read_char_def)
  then show ?thesis by (simp add: parse_ip_def)
qed

lemma parse_port_show: "parse_port (show_nat (unat p)) = Some p"
proof -
  have "hd (show_nat (unat p)) \<noteq> CHR ''+''"
    using show_nat_no_sign (2) [of "unat p"] hd_in_set [of "show_nat (unat p)"] by fastforce
  moreover have "unat p < 2 ^ 16" using unsigned_less [of p] by simp
  ultimately show ?thesis by (simp add: parse_port_def parse_unsigned_def)
qed

section \<open>The header of the proxy is read back\<close>

definition graphic :: "char \<Rightarrow> bool" where
  "graphic c = (32 < (of_char c :: nat) \<and> (of_char c :: nat) < 127)"

definition proxy_line :: "string \<Rightarrow> string \<Rightarrow> string \<Rightarrow> u16 \<Rightarrow> u16 \<Rightarrow> string" where
  "proxy_line family src dst src_port dst_port =
     join_with '' '' [''PROXY'', family, src, dst, show_nat (unat src_port), show_nat (unat dst_port)]"

lemma show_nat_graphic: "list_all graphic (show_nat n)"
  using show_nat_digits by (fastforce simp: list_all_iff graphic_def of_char_digit_char)

lemma show_ipv4_graphic: "list_all graphic (show_ipv4 a)"
  by (cases a) (simp add: show_ipv4_def show_nat_graphic graphic_def)

lemma graphic_no_space: "list_all graphic s \<Longrightarrow> CHR '' '' \<notin> set s"
  by (auto simp: list_all_iff graphic_def)

lemma byte_of_less: "of_char c < (128 :: nat) \<Longrightarrow> byte_of c < 0x80"
  by (simp add: byte_of_def word_less_nat_alt unat_of_nat)

lemma as_bytes_lf: "10 \<in> set (as_bytes s) \<longleftrightarrow> CHR 0x0A \<in> set s"
proof -
  have "byte_of c = 10 \<longleftrightarrow> c = CHR 0x0A" for c
    using byte_of_inj [of c "CHR 0x0A"] by (auto simp: byte_of_def)
  then show ?thesis by (force simp: as_bytes_def)
qed

lemma printable_line:
  assumes "list_all (\<lambda>c. graphic c \<or> c = CHR '' '') s"
  shows "10 \<notin> set (as_bytes s) \<and> utf8_valid (as_bytes s)"
proof
  show "10 \<notin> set (as_bytes s)" using assms by (auto simp: as_bytes_lf list_all_iff graphic_def)
  show "utf8_valid (as_bytes s)"
    using assms by (intro utf8_valid_ascii) (auto simp: as_bytes_def list_all_iff graphic_def intro!: byte_of_less)
qed

lemma parse_v1_line:
  assumes f: "family = ''TCP4'' \<or> family = ''TCP6''" and g: "list_all graphic src" "list_all graphic dst"
  shows "parse_v1 (as_bytes (proxy_line family src dst sp dp) @ CRLF) =
    (case parse_ip src of None \<Rightarrow> Inl ''PROXY v1: invalid source IP'' | Some ip \<Rightarrow> Inr (Some (ip, sp)))"
proof -
  let ?l = "proxy_line family src dst sp dp"
  have fs: "CHR '' '' \<notin> set family" using f by auto
  have w: "split_on (CHR '' '') ?l = [''PROXY'', family, src, dst, show_nat (unat sp), show_nat (unat dp)]"
    using graphic_no_space [OF g (1)] graphic_no_space [OF g (2)] graphic_no_space [OF show_nat_graphic] fs
    by (simp add: proxy_line_def split_on_append [of _ "''PROXY''", simplified] split_on_append split_on_single)
  have "list_all (\<lambda>c. graphic c \<or> c = CHR '' '') ?l"
    using f g show_nat_graphic by (auto simp: proxy_line_def list_all_iff graphic_def)
  then have u: "from_utf8 (as_bytes ?l) = Some ?l" using printable_line from_utf8_as_bytes by blast
  have "suffix CRLF (as_bytes ?l @ CRLF)" by (simp add: CRLF_def)
  then show ?thesis
    using f u w by (simp add: parse_v1_def parse_port_show CRLF_def split: option.splits)
qed

lemma read_required_line:
  assumes f: "family = ''TCP4'' \<or> family = ''TCP6''" and g: "list_all graphic src" "list_all graphic dst"
    and ip: "parse_ip src = Some ip" and n: "length (proxy_line family src dst sp dp) \<le> 106"
  shows "read_required (as_bytes (proxy_line family src dst sp dp) @ CRLF @ rest) = (Inr (Some (ip, sp)), rest)"
proof -
  have "list_all (\<lambda>c. graphic c \<or> c = CHR '' '') (proxy_line family src dst sp dp)"
    using f g show_nat_graphic by (auto simp: proxy_line_def list_all_iff graphic_def)
  then have "10 \<notin> set (as_bytes (proxy_line family src dst sp dp))" using printable_line by blast
  then show ?thesis
    using read_header_line [of "as_bytes (proxy_line family src dst sp dp)" "[]" rest] n
      parse_v1_line [OF f g, of sp dp] ip by (simp add: read_required_def)
qed

text \<open>The limit is applied only after the terminator was looked for, so a line one byte longer than
  \<open>MAX_HEADER_LEN\<close> passes.\<close>

lemma header_over_limit_accepted:
  "read_header [] (replicate 106 65 @ CRLF) = (Inr (replicate 106 65 @ CRLF), []) \<and>
   length (replicate 106 (65 :: u8) @ CRLF) = MAX_HEADER_LEN + 1"
  using read_header_line [of "replicate 106 65" "[]" "[]"] by (simp add: CRLF_def MAX_HEADER_LEN_def)

lemma length_show_nat: "n < 10 ^ Suc k \<Longrightarrow> length (show_nat n) \<le> Suc k"
proof (induction k arbitrary: n)
  case (Suc k)
  then have "n div 10 < 10 ^ Suc k" by (simp add: div_less_iff_less_mult mult.commute)
  then show ?case using Suc.IH [of "n div 10"] by (subst show_nat.simps) simp
qed (subst show_nat.simps, simp)

lemma length_show_ipv4: "length (show_ipv4 a) \<le> 15"
proof -
  obtain x y z w where a: "a = (x, y, z, w)" by (cases a) auto
  have "length (show_nat (unat b)) \<le> 3" for b :: u8
    using length_show_nat [of "unat b" 2] byte_bound [of b] by simp
  from this [of x] this [of y] this [of z] this [of w] show ?thesis by (simp add: show_ipv4_def a)
qed

lemma proxy_line_length: "length (proxy_line ''TCP4'' (show_ipv4 a) (show_ipv4 b) sp dp) \<le> 106"
proof -
  have "length (show_nat (unat p)) \<le> 5" for p :: u16
  proof -
    have "unat p < 65536" using unsigned_less [of p] by simp
    then show ?thesis using length_show_nat [of "unat p" 4] by simp
  qed
  from this [of sp] this [of dp] length_show_ipv4 [of a] length_show_ipv4 [of b] show ?thesis
    by (simp add: proxy_line_def)
qed

section \<open>Properties\<close>

text \<open>A connection that arrives with the header line of the proxy is served with exactly the address and
  port the proxy wrote, and with exactly the bytes after the line left to read. Unless that address is a
  loopback one, no request header changes the client address the handlers see.\<close>

theorem proxied_client_address:
  "run_api_connection (as_bytes (proxy_line ''TCP4'' (show_ipv4 a) (show_ipv4 b) sp dp) @ CRLF @ rest) =
     Some ((V4 a, sp), rest) \<and>
   (fst a \<noteq> 127 \<longrightarrow> client_ip headers (V4 a, sp) = show_ipv4 a)"
proof -
  have "read_required (as_bytes (proxy_line ''TCP4'' (show_ipv4 a) (show_ipv4 b) sp dp) @ CRLF @ rest) =
      (Inr (Some (V4 a, sp)), rest)"
    by (rule read_required_line) (simp_all add: show_ipv4_graphic parse_ip_show_ipv4 proxy_line_length)
  then show ?thesis
    by (cases a) (simp add: run_api_connection_def client_ip_def is_loopback_def ip_to_string_def)
qed

theorem proxied_client_address_witness:
  "run_api_connection (as_bytes (proxy_line ''TCP4'' (show_ipv4 (203, 0, 113, 7)) (show_ipv4 (10, 0, 0, 1)) 51000 443)
     @ CRLF @ [22, 3, 1]) = Some ((V4 (203, 0, 113, 7), 51000), [22, 3, 1]) \<and>
   client_ip [(''x-forwarded-for'', ''9.9.9.9'')] (V4 (203, 0, 113, 7), 51000) = show_ipv4 (203, 0, 113, 7)"
  using proxied_client_address [of "(203, 0, 113, 7)" "(10, 0, 0, 1)" 51000 443 "[22, 3, 1]"
    "[(''x-forwarded-for'', ''9.9.9.9'')]"] by simp

end
