(* ===== verification/Mesh.thy ===== *)
theory Mesh
  imports Wire Auth
begin

text \<open>
  The identities of the service mesh (\<open>common/src/mtls/mod.rs\<close>), the rule of the inter-node
  forward listener and its preamble (\<open>tunneller/src/mesh/forward.rs\<close>), and the identity the Tenants
  mesh listener stamps on a connection (\<open>tenants/src/mesh.rs\<close>).

  Certificates are opaque. The record \<open>pki\<close> holds what the code takes from the X.509 and TLS libraries:
  the parsed subject alternative names of a certificate and the chain validation against the trust
  bundle.
\<close>

section \<open>SPIFFE identities\<close>

record spiffe_id =
  sp_trust_domain :: string
  sp_env :: string
  sp_scope :: string
  sp_service :: string

definition spiffe_parse :: "string \<Rightarrow> string + spiffe_id" where
  "spiffe_parse uri =
     (case strip_prefix ''spiffe://'' uri of
        None \<Rightarrow> Inl (''not a spiffe:// URI: '' @ uri)
      | Some rest \<Rightarrow>
          (let parts = split_on (CHR ''/'') rest in
           if length parts \<noteq> 4 \<or> list_ex (\<lambda>s. s = []) parts
           then Inl (''spiffe URI must be spiffe://<trust_domain>/<env>/<scope>/<service>: '' @ uri)
           else Inr \<lparr>sp_trust_domain = parts ! 0, sp_env = parts ! 1, sp_scope = parts ! 2, sp_service = parts ! 3\<rparr>))"

datatype general_name = URI string | OtherName

record 'c pki =
  x509_names :: "'c \<Rightarrow> string + general_name list option"
  chain_valid :: "'c \<Rightarrow> 'c list \<Rightarrow> bool"

fun first_uri :: "general_name list \<Rightarrow> string option" where
  "first_uri [] = None"
| "first_uri (URI u # _) = Some u"
| "first_uri (OtherName # ns) = first_uri ns"

definition from_cert :: "'c pki \<Rightarrow> 'c \<Rightarrow> string + spiffe_id" where
  "from_cert pki der =
     (case x509_names pki der of
        Inl e \<Rightarrow> Inl (''failed to parse peer certificate: '' @ e)
      | Inr None \<Rightarrow> Inl ''peer certificate has no SAN extension''
      | Inr (Some names) \<Rightarrow>
          (case first_uri names of
             None \<Rightarrow> Inl ''peer certificate has no URI SAN'' | Some uri \<Rightarrow> spiffe_parse uri))"

definition peer_spiffe_id :: "'c pki \<Rightarrow> 'c list \<Rightarrow> string + spiffe_id" where
  "peer_spiffe_id pki peer_certs =
     (case peer_certs of [] \<Rightarrow> Inl ''peer presented no certificates'' | leaf # _ \<Rightarrow> from_cert pki leaf)"

record expected_peer =
  ep_service :: string
  ep_scope :: string

definition verify_server_cert :: "'c pki \<Rightarrow> expected_peer \<Rightarrow> 'c \<Rightarrow> 'c list \<Rightarrow> string + unit" where
  "verify_server_cert pki expected end_entity intermediates =
     (if \<not> chain_valid pki end_entity intermediates then Inl ''invalid peer certificate''
      else case from_cert pki end_entity of
        Inl e \<Rightarrow> Inl (''peer SPIFFE id: '' @ e)
      | Inr i \<Rightarrow>
          if sp_service i \<noteq> ep_service expected \<or> sp_scope i \<noteq> ep_scope expected
          then Inl (''mesh peer identity mismatch: expected service='' @ ep_service expected @ ''/scope='' @
                    ep_scope expected @ '', got service='' @ sp_service i @ ''/scope='' @ sp_scope i)
          else Inr ())"

definition service_identity_of :: "spiffe_id \<Rightarrow> service_identity" where
  "service_identity_of i =
     \<lparr>si_trust_domain = sp_trust_domain i, si_env = sp_env i, si_scope = sp_scope i, si_service = sp_service i\<rparr>"

text \<open>The Tenants mesh listener: a peer whose chain validated in the handshake and whose leaf carries an id is
  served with that identity, every other connection is dropped.\<close>

definition mesh_identity :: "'c pki \<Rightarrow> 'c list \<Rightarrow> service_identity option" where
  "mesh_identity pki certs =
     (case certs of
        [] \<Rightarrow> None
      | leaf # chain \<Rightarrow>
          if \<not> chain_valid pki leaf chain then None
          else case peer_spiffe_id pki certs of Inl _ \<Rightarrow> None | Inr i \<Rightarrow> Some (service_identity_of i))"

section \<open>The forward listener\<close>

definition peer_allowed_on_forward :: "spiffe_id \<Rightarrow> string \<Rightarrow> bool" where
  "peer_allowed_on_forward peer own_scope = (sp_service peer = ''tunneller'' \<and> sp_scope peer = own_scope)"

definition forward_admits :: "'c pki \<Rightarrow> string \<Rightarrow> 'c list \<Rightarrow> bool" where
  "forward_admits pki own_scope certs =
     (case certs of
        [] \<Rightarrow> False
      | leaf # chain \<Rightarrow>
          if \<not> chain_valid pki leaf chain then False
          else case peer_spiffe_id pki certs of
                 Inl _ \<Rightarrow> False | Inr peer_id \<Rightarrow> peer_allowed_on_forward peer_id own_scope)"

definition MAX_SLUG_LEN :: nat where "MAX_SLUG_LEN = 64"

definition write_preamble :: "string \<Rightarrow> u16 \<Rightarrow> string + bytes" where
  "write_preamble slug dest_port =
     (if length (as_bytes slug) > MAX_SLUG_LEN
      then Inl (''slug too long for preamble: '' @ show_nat (length (as_bytes slug)) @ '' bytes'')
      else Inr (u16_to_be_bytes (of_nat (length (as_bytes slug))) @ as_bytes slug @ u16_to_be_bytes dest_port))"

definition read_exact :: "nat \<Rightarrow> bytes \<Rightarrow> (bytes \<times> bytes) option" where
  "read_exact n s = (if length s < n then None else Some (take n s, drop n s))"

definition read_preamble :: "bytes \<Rightarrow> (string + string \<times> u16) \<times> bytes" where
  "read_preamble s =
     (case read_exact 2 s of
        None \<Rightarrow> (Inl ''early eof'', [])
      | Some (len_buf, s) \<Rightarrow>
          (let len = unat (u16_from_be_bytes (len_buf ! 0) (len_buf ! 1)) in
           if len = 0 \<or> len > MAX_SLUG_LEN then (Inl (''preamble slug length out of bounds: '' @ show_nat len), s)
           else case read_exact len s of
             None \<Rightarrow> (Inl ''early eof'', [])
           | Some (slug, s) \<Rightarrow>
               (case read_exact 2 s of
                  None \<Rightarrow> (Inl ''early eof'', [])
                | Some (port_buf, s) \<Rightarrow>
                    (case from_utf8 slug of
                       None \<Rightarrow> (Inl ''preamble slug not UTF-8'', s)
                     | Some slug \<Rightarrow> (Inr (slug, u16_from_be_bytes (port_buf ! 0) (port_buf ! 1)), s)))))"

section \<open>Lemmas\<close>

definition spiffe_uri :: "spiffe_id \<Rightarrow> string" where
  "spiffe_uri i = ''spiffe://'' @ join_with ''/'' [sp_trust_domain i, sp_env i, sp_scope i, sp_service i]"

definition spiffe_segments :: "spiffe_id \<Rightarrow> string list" where
  "spiffe_segments i = [sp_trust_domain i, sp_env i, sp_scope i, sp_service i]"

lemma spiffe_parse_iff:
  "spiffe_parse uri = Inr i \<longleftrightarrow>
     uri = spiffe_uri i \<and> (\<forall>s \<in> set (spiffe_segments i). s \<noteq> [] \<and> CHR ''/'' \<notin> set s)"
proof
  assume a: "spiffe_parse uri = Inr i"
  then obtain rest where sp: "strip_prefix ''spiffe://'' uri = Some rest"
    by (cases "strip_prefix ''spiffe://'' uri") (simp_all add: spiffe_parse_def)
  then have r: "uri = ''spiffe://'' @ rest" by (simp only: strip_prefix_Some)
  let ?p = "split_on (CHR ''/'') rest"
  have l: "length ?p = 4" "\<not> list_ex (\<lambda>s. s = []) ?p"
      "i = \<lparr>sp_trust_domain = ?p ! 0, sp_env = ?p ! 1, sp_scope = ?p ! 2, sp_service = ?p ! 3\<rparr>"
    using a sp by (auto simp: spiffe_parse_def Let_def split: if_splits)
  from l (1) obtain p q u v where p: "?p = [p, q, u, v]"
    by (auto simp: numeral_eq_Suc length_Suc_conv)
  have "join_with ''/'' ?p = rest" by (rule join_split_on)
  moreover have "\<forall>s \<in> set ?p. CHR ''/'' \<notin> set s" using split_on_no_delim by blast
  ultimately show "uri = spiffe_uri i \<and> (\<forall>s \<in> set (spiffe_segments i). s \<noteq> [] \<and> CHR ''/'' \<notin> set s)"
    using l (2, 3) r p by (auto simp: spiffe_uri_def spiffe_segments_def)
next
  assume a: "uri = spiffe_uri i \<and> (\<forall>s \<in> set (spiffe_segments i). s \<noteq> [] \<and> CHR ''/'' \<notin> set s)"
  then have "split_on (CHR ''/'') (join_with ''/'' (spiffe_segments i)) = spiffe_segments i"
    by (simp add: spiffe_segments_def split_on_append split_on_single)
  moreover have "strip_prefix ''spiffe://'' (spiffe_uri i) = Some (join_with ''/'' (spiffe_segments i))"
    unfolding spiffe_uri_def spiffe_segments_def by (rule strip_prefix_append)
  ultimately show "spiffe_parse uri = Inr i"
    using a by (simp add: spiffe_parse_def) (simp add: spiffe_segments_def)
qed

lemma preamble_read_back:
  assumes "slug \<noteq> []" "utf8_valid (as_bytes slug)" "write_preamble slug port = Inr p"
  shows "read_preamble (p @ rest) = (Inr (slug, port), rest)"
proof -
  have n: "length slug \<le> 64" using assms (3) by (auto simp: write_preamble_def MAX_SLUG_LEN_def split: if_splits)
  obtain a b where ab: "u16_to_be_bytes (of_nat (length slug)) = [a, b]" "u16_from_be_bytes a b = of_nat (length slug)"
    by (rule u16_to_be_bytes_cases)
  obtain c d where cd: "u16_to_be_bytes port = [c, d]" "u16_from_be_bytes c d = port"
    by (rule u16_to_be_bytes_cases)
  have "p = a # b # as_bytes slug @ [c, d]"
    using assms (3) ab (1) cd (1) by (auto simp: write_preamble_def split: if_splits)
  then show ?thesis
    using assms (1, 2) n ab (2) cd (2)
    by (simp add: read_preamble_def read_exact_def MAX_SLUG_LEN_def from_utf8_as_bytes)
qed

end
