(* ===== verification/Tunnel_Registry.thy ===== *)
theory Tunnel_Registry
  imports Prelude "HOL-Library.AList"
begin

text \<open>
  The per-node tunnel registry (\<open>tunneller/src/tunnel/registry.rs\<close>): the map from slug to the active
  tunnel. A registration holds the receiving end of a bounded channel and a cancellation token, the
  entry in the map the sending end and the same token; both are references into the stores
  \<open>channels\<close> and \<open>tokens\<close> of the model, since the handler and the map share them. The generation counter is a
  \<open>u64\<close> that wraps.

  The lemmas show the store invariant, that the last registration of a slug is the one that
  receives, and that the cleanup of a superseded handler never removes its successor.
\<close>

section \<open>State\<close>

record 's forward_request =
  fr_stream :: 's
  fr_dest_port :: u16

datatype forward_result = Accepted | NotConnected | BufferFull

record 's channel =
  ch_buffer :: "'s forward_request list"
  ch_sender :: bool
  ch_receiver :: bool

record registration =
  rg_rx :: nat
  rg_abort :: nat
  rg_generation :: u64

record entry =
  en_tx :: nat
  en_abort :: nat
  en_generation :: u64

record 's tunnel_registry =
  by_slug :: "(string \<times> entry) list"
  next_gen :: u64
  channels :: "'s channel list"
  tokens :: "bool list"

definition registry_new :: "'s tunnel_registry" where
  "registry_new = \<lparr>by_slug = [], next_gen = 0, channels = [], tokens = []\<rparr>"

section \<open>Channels and tokens\<close>

definition CHANNEL_CAPACITY :: nat where "CHANNEL_CAPACITY = 64"

definition new_channel :: "'s channel" where
  "new_channel = \<lparr>ch_buffer = [], ch_sender = True, ch_receiver = True\<rparr>"

definition update_channel :: "nat \<Rightarrow> ('s channel \<Rightarrow> 's channel) \<Rightarrow> 's tunnel_registry \<Rightarrow> 's tunnel_registry" where
  "update_channel i f r = r\<lparr>channels := (channels r)[i := f (channels r ! i)]\<rparr>"

definition cancel_token :: "nat \<Rightarrow> 's tunnel_registry \<Rightarrow> 's tunnel_registry" where
  "cancel_token t r = r\<lparr>tokens := (tokens r)[t := True]\<rparr>"

definition is_cancelled :: "nat \<Rightarrow> 's tunnel_registry \<Rightarrow> bool" where
  "is_cancelled t r = (t < length (tokens r) \<and> tokens r ! t)"

definition drop_sender :: "nat \<Rightarrow> 's tunnel_registry \<Rightarrow> 's tunnel_registry" where
  "drop_sender i r = update_channel i (\<lambda>c. c\<lparr>ch_sender := False\<rparr>) r"

definition drop_receiver :: "nat \<Rightarrow> 's tunnel_registry \<Rightarrow> 's tunnel_registry" where
  "drop_receiver i r = update_channel i (\<lambda>c. c\<lparr>ch_receiver := False, ch_buffer := []\<rparr>) r"

definition try_send :: "nat \<Rightarrow> 's forward_request \<Rightarrow> 's tunnel_registry \<Rightarrow> forward_result \<times> 's tunnel_registry" where
  "try_send i req r =
     (let c = channels r ! i in
      if \<not> ch_receiver c then (NotConnected, r)
      else if length (ch_buffer c) \<ge> CHANNEL_CAPACITY then (BufferFull, r)
      else (Accepted, update_channel i (\<lambda>c. c\<lparr>ch_buffer := ch_buffer c @ [req]\<rparr>) r))"

section \<open>Operations\<close>

definition register :: "string \<Rightarrow> 's tunnel_registry \<Rightarrow> registration \<times> 's tunnel_registry" where
  "register slug r =
     (let gen = next_gen r;
          tx = length (channels r);
          abort = length (tokens r);
          old = map_of (by_slug r) slug;
          r = r\<lparr>next_gen := gen + 1, channels := channels r @ [new_channel], tokens := tokens r @ [False],
                by_slug := AList.update slug \<lparr>en_tx = tx, en_abort = abort, en_generation = gen\<rparr> (by_slug r)\<rparr>;
          r = (case old of None \<Rightarrow> r | Some e \<Rightarrow> drop_sender (en_tx e) (cancel_token (en_abort e) r)) in
      (\<lparr>rg_rx = tx, rg_abort = abort, rg_generation = gen\<rparr>, r))"

definition unregister :: "string \<Rightarrow> u64 \<Rightarrow> 's tunnel_registry \<Rightarrow> bool \<times> 's tunnel_registry" where
  "unregister slug gen r =
     (case map_of (by_slug r) slug of
        None \<Rightarrow> (False, r)
      | Some e \<Rightarrow>
          if en_generation e = gen
          then (True, drop_sender (en_tx e) (r\<lparr>by_slug := AList.delete slug (by_slug r)\<rparr>))
          else (False, r))"

definition abort :: "string \<Rightarrow> 's tunnel_registry \<Rightarrow> bool \<times> 's tunnel_registry" where
  "abort slug r =
     (case map_of (by_slug r) slug of
        None \<Rightarrow> (False, r)
      | Some e \<Rightarrow>
          (True, drop_sender (en_tx e) (cancel_token (en_abort e) (r\<lparr>by_slug := AList.delete slug (by_slug r)\<rparr>))))"

definition forward :: "string \<Rightarrow> 's forward_request \<Rightarrow> 's tunnel_registry \<Rightarrow> forward_result \<times> 's tunnel_registry" where
  "forward slug req r =
     (case map_of (by_slug r) slug of
        None \<Rightarrow> (NotConnected, r) | Some e \<Rightarrow> try_send (en_tx e) req r)"

definition is_connected :: "string \<Rightarrow> 's tunnel_registry \<Rightarrow> bool" where
  "is_connected slug r = (map_of (by_slug r) slug \<noteq> None)"

definition active_count :: "'s tunnel_registry \<Rightarrow> u64" where
  "active_count r = (if length (by_slug r) < 2 ^ 64 then of_nat (length (by_slug r)) else - 1)"

definition recv :: "nat \<Rightarrow> 's tunnel_registry \<Rightarrow> 's forward_request option \<times> 's tunnel_registry" where
  "recv i r =
     (case ch_buffer (channels r ! i) of
        [] \<Rightarrow> (None, r)
      | q # qs \<Rightarrow> (Some q, update_channel i (\<lambda>c. c\<lparr>ch_buffer := qs\<rparr>) r))"

section \<open>The store invariant\<close>

text \<open>
  Every entry refers to a channel and a token of its own, made together; the tokens of entries are not
  cancelled; the sending end of a channel is alive exactly while an entry holds it.
\<close>

definition entry_ok :: "'s tunnel_registry \<Rightarrow> entry \<Rightarrow> bool" where
  "entry_ok r e \<longleftrightarrow> en_abort e = en_tx e \<and> en_generation e = of_nat (en_tx e) \<and> en_tx e < length (channels r) \<and>
     \<not> tokens r ! en_tx e \<and> ch_sender (channels r ! en_tx e)"

definition registry_ok :: "'s tunnel_registry \<Rightarrow> bool" where
  "registry_ok r \<longleftrightarrow>
     distinct (map fst (by_slug r)) \<and> next_gen r = of_nat (length (channels r)) \<and>
     length (tokens r) = length (channels r) \<and>
     (\<forall>s e. map_of (by_slug r) s = Some e \<longrightarrow> entry_ok r e) \<and>
     (\<forall>s s' e e'. map_of (by_slug r) s = Some e \<longrightarrow> map_of (by_slug r) s' = Some e' \<longrightarrow> en_tx e = en_tx e' \<longrightarrow> s = s') \<and>
     (\<forall>i < length (channels r). ch_sender (channels r ! i) \<longrightarrow> (\<exists>s e. map_of (by_slug r) s = Some e \<and> en_tx e = i))"

lemma registry_new_ok: "registry_ok registry_new"
  by (simp add: registry_ok_def registry_new_def)

lemma drop_sender_simps [simp]:
  "by_slug (drop_sender i r) = by_slug r" "next_gen (drop_sender i r) = next_gen r"
  "tokens (drop_sender i r) = tokens r" "length (channels (drop_sender i r)) = length (channels r)"
  by (simp_all add: drop_sender_def update_channel_def)

lemma cancel_token_simps [simp]:
  "by_slug (cancel_token i r) = by_slug r" "next_gen (cancel_token i r) = next_gen r" "channels (cancel_token i r) = channels r"
  "tokens (cancel_token i r) = (tokens r)[i := True]"
  by (simp_all add: cancel_token_def)

lemma channels_drop_sender:
  "channels (drop_sender i r) = (channels r)[i := (channels r ! i)\<lparr>ch_sender := False\<rparr>]"
  by (simp add: drop_sender_def update_channel_def)

lemma map_of_update: "map_of (AList.update k v al) = (map_of al)(k \<mapsto> v)"
  by (simp add: update_conv')

lemma map_of_delete: "map_of (AList.delete k al) = (map_of al)(k := None)"
  by (simp add: delete_conv')

lemma registry_okD:
  assumes "registry_ok r"
  shows "distinct (map fst (by_slug r))" "next_gen r = of_nat (length (channels r))"
    "length (tokens r) = length (channels r)"
    "map_of (by_slug r) s = Some e \<Longrightarrow> entry_ok r e"
    "map_of (by_slug r) s = Some e \<Longrightarrow> map_of (by_slug r) s' = Some e' \<Longrightarrow> en_tx e = en_tx e' \<Longrightarrow> s = s'"
    "i < length (channels r) \<Longrightarrow> ch_sender (channels r ! i) \<Longrightarrow> \<exists>s e. map_of (by_slug r) s = Some e \<and> en_tx e = i"
  using assms unfolding registry_ok_def by blast+

lemma registry_okI:
  assumes "distinct (map fst (by_slug r))" "next_gen r = of_nat (length (channels r))"
    "length (tokens r) = length (channels r)"
    "\<And>s e. map_of (by_slug r) s = Some e \<Longrightarrow> entry_ok r e"
    "\<And>s s' e e'. map_of (by_slug r) s = Some e \<Longrightarrow> map_of (by_slug r) s' = Some e' \<Longrightarrow> en_tx e = en_tx e' \<Longrightarrow> s = s'"
    "\<And>i. i < length (channels r) \<Longrightarrow> ch_sender (channels r ! i) \<Longrightarrow> \<exists>s e. map_of (by_slug r) s = Some e \<and> en_tx e = i"
  shows "registry_ok r"
  unfolding registry_ok_def using assms by blast

lemma registry_remove_ok:
  assumes ok: "registry_ok r" and e: "map_of (by_slug r) slug = Some e"
    and q: "distinct (map fst (by_slug q))" "map_of (by_slug q) = (map_of (by_slug r))(slug := None)"
      "next_gen q = next_gen r" "length (tokens q) = length (tokens r)"
      "\<And>i. i \<noteq> en_tx e \<Longrightarrow> tokens q ! i = tokens r ! i"
      "channels q = (channels r)[en_tx e := (channels r ! en_tx e)\<lparr>ch_sender := False\<rparr>]"
  shows "registry_ok q"
proof -
  note d = registry_okD [OF ok]
  have other: "en_tx f \<noteq> en_tx e" if "map_of (by_slug q) s = Some f" for s f
    using that d (5) [OF e, of s f] q (2) by (auto split: if_splits)
  have ent: "entry_ok q f" if f: "map_of (by_slug q) s = Some f" for s f
  proof -
    have "map_of (by_slug r) s = Some f" using f q (2) by (auto split: if_splits)
    then show ?thesis using d (4) [of s f] other [OF f] q (5, 6) by (simp add: entry_ok_def)
  qed
  have sender: "\<exists>s f. map_of (by_slug q) s = Some f \<and> en_tx f = i"
    if i: "i < length (channels q)" "ch_sender (channels q ! i)" for i
  proof -
    have "i \<noteq> en_tx e" using i q (6) by auto
    then have "ch_sender (channels r ! i)" "i < length (channels r)" using i q (6) by auto
    then obtain s f where f: "map_of (by_slug r) s = Some f" "en_tx f = i" using d (6) by blast
    then have "s \<noteq> slug" using e \<open>i \<noteq> en_tx e\<close> by auto
    then show ?thesis using f q (2) by (intro exI [of _ s] exI [of _ f]) simp
  qed
  have inj: "s = s'" if "map_of (by_slug q) s = Some f" "map_of (by_slug q) s' = Some f'" "en_tx f = en_tx f'" for s s' f f'
    using that q (2) d (5) [of s f s' f'] by (auto split: if_splits)
  show ?thesis
    by (rule registry_okI) ((rule q (1) | erule (2) inj | erule ent | erule (1) sender | (use q d (2, 3) in simp))+)
qed

lemma unregister_ok: "registry_ok r \<Longrightarrow> registry_ok (snd (unregister slug gen r))"
  using registry_okD (1) [of r]
  by (auto simp: unregister_def channels_drop_sender map_of_delete distinct_delete split: option.splits
      intro: registry_remove_ok)

lemma abort_ok: "registry_ok r \<Longrightarrow> registry_ok (snd (abort slug r))"
proof -
  assume ok: "registry_ok r"
  show ?thesis
  proof (cases "map_of (by_slug r) slug")
    case None then show ?thesis using ok by (simp add: abort_def)
  next
    case (Some e)
    have "en_abort e = en_tx e" using registry_okD (4) [OF ok Some] by (simp add: entry_ok_def)
    then show ?thesis
      using Some registry_okD (1) [OF ok]
      by (auto simp: abort_def channels_drop_sender map_of_delete distinct_delete intro!: registry_remove_ok [OF ok Some])
  qed
qed

text \<open>A registration displaces the old entry and adds one of its own.\<close>

lemma register_displaces:
  assumes ok: "registry_ok r"
  shows "map_of (by_slug (snd (register slug r))) =
      (map_of (by_slug r))(slug \<mapsto> \<lparr>en_tx = length (channels r), en_abort = length (channels r),
        en_generation = of_nat (length (channels r))\<rparr>)"
    and "length (channels (snd (register slug r))) = Suc (length (channels r))"
    and "i < length (channels r) \<Longrightarrow> channels (snd (register slug r)) ! i = channels (snd (abort slug r)) ! i"
    and "i < length (channels r) \<Longrightarrow> tokens (snd (register slug r)) ! i = tokens (snd (abort slug r)) ! i"
    and "channels (snd (register slug r)) ! length (channels r) = new_channel"
    and "\<not> tokens (snd (register slug r)) ! length (channels r)"
proof -
  note d = registry_okD [OF ok]
  have e: "en_tx e < length (channels r) \<and> en_abort e = en_tx e" if "map_of (by_slug r) slug = Some e" for e
    using d (4) [OF that] by (simp add: entry_ok_def)
  show "map_of (by_slug (snd (register slug r))) =
      (map_of (by_slug r))(slug \<mapsto> \<lparr>en_tx = length (channels r), en_abort = length (channels r),
        en_generation = of_nat (length (channels r))\<rparr>)"
    using d (2, 3) by (simp add: register_def Let_def map_of_update split: option.splits)
  show "length (channels (snd (register slug r))) = Suc (length (channels r))"
    by (simp add: register_def Let_def split: option.splits)
  show "channels (snd (register slug r)) ! i = channels (snd (abort slug r)) ! i" if "i < length (channels r)"
    using that e by (auto simp: register_def abort_def Let_def channels_drop_sender nth_append nth_list_update list_update_append split: option.splits)
  show "tokens (snd (register slug r)) ! i = tokens (snd (abort slug r)) ! i" if "i < length (channels r)"
    using that e d (3) by (auto simp: register_def abort_def Let_def nth_append nth_list_update list_update_append split: option.splits)
  show "channels (snd (register slug r)) ! length (channels r) = new_channel"
    using e by (auto simp: register_def Let_def channels_drop_sender nth_append nth_list_update split: option.splits)
  show "\<not> tokens (snd (register slug r)) ! length (channels r)"
    using e d (3) by (auto simp: register_def Let_def nth_append nth_list_update split: option.splits)
qed

lemma register_ok: 
  assumes ok: "registry_ok r" shows "registry_ok (snd (register slug r))"
proof -
  let ?q = "snd (register slug r)" and ?a = "snd (abort slug r)" and ?n = "length (channels r)"
  note m = register_displaces [OF ok, where slug = slug]
  note d = registry_okD [OF abort_ok [OF ok, of slug]]
  have am: "map_of (by_slug ?a) = (map_of (by_slug r))(slug := None)"
    by (auto simp: abort_def map_of_delete split: option.splits)
  have an: "length (channels ?a) = ?n" by (simp add: abort_def split: option.splits)
  have ent: "entry_ok ?q f" if "map_of (by_slug ?q) s = Some f" for s f
  proof (cases "s = slug")
    case True
    then show ?thesis using that m by (auto simp: entry_ok_def new_channel_def)
  next
    case False
    then have "map_of (by_slug ?a) s = Some f" using that m (1) am by simp
    then have "entry_ok ?a f" by (rule d (4))
    then show ?thesis using m (2-4) an by (simp add: entry_ok_def)
  qed
  have inj: "s = s'" if "map_of (by_slug ?q) s = Some f" "map_of (by_slug ?q) s' = Some f'" "en_tx f = en_tx f'" for s s' f f'
  proof -
    have lt: "en_tx g < ?n" if "map_of (by_slug ?q) t = Some g" "t \<noteq> slug" for t g
      using d (4) [of t g] that m (1) am an by (simp add: entry_ok_def)
    show ?thesis
      using that lt [of s f] lt [of s' f'] d (5) [of s f s' f'] m (1) am by (cases "s = slug"; cases "s' = slug") auto
  qed
  have sender: "\<exists>s f. map_of (by_slug ?q) s = Some f \<and> en_tx f = i"
    if i: "i < length (channels ?q)" "ch_sender (channels ?q ! i)" for i
  proof (cases "i = ?n")
    case True then show ?thesis using m (1) by (intro exI [of _ slug]) simp
  next
    case False
    then have "i < ?n" using i m (2) by simp
    then obtain s f where f: "map_of (by_slug ?a) s = Some f" "en_tx f = i" using d (6) [of i] i m (3) an by auto
    then have "s \<noteq> slug" using am by auto
    then show ?thesis using f am m (1) by (intro exI [of _ s] exI [of _ f]) simp
  qed
  have "distinct (map fst (by_slug ?q))" "next_gen ?q = of_nat (Suc ?n)" "length (tokens ?q) = Suc ?n"
    using registry_okD (1-3) [OF ok]
    by (auto simp: register_def Let_def distinct_update split: option.splits)
  then show ?thesis
    by (intro registry_okI) ((assumption | erule (2) inj | erule ent | erule (1) sender | (use m (2) in simp))+)
qed

lemma update_channel_simps [simp]:
  "by_slug (update_channel i f r) = by_slug r" "next_gen (update_channel i f r) = next_gen r"
  "tokens (update_channel i f r) = tokens r" "length (channels (update_channel i f r)) = length (channels r)"
  by (simp_all add: update_channel_def)

lemma update_channel_nth:
  "j < length (channels r) \<Longrightarrow> channels (update_channel i f r) ! j = (if j = i then f (channels r ! i) else channels r ! j)"
  by (simp add: update_channel_def nth_list_update)

lemma update_channel_ok:
  assumes ok: "registry_ok r" and f: "\<And>c. ch_sender (f c) = ch_sender c"
  shows "registry_ok (update_channel i f r)"
proof -
  note d = registry_okD [OF ok]
  have c: "ch_sender (channels (update_channel i f r) ! j) = ch_sender (channels r ! j)" if "j < length (channels r)" for j
    using that f by (simp add: update_channel_nth)
  show ?thesis
  proof (rule registry_okI)
    fix s e assume "map_of (by_slug (update_channel i f r)) s = Some e"
    then have "entry_ok r e" using d (4) by simp
    then show "entry_ok (update_channel i f r) e" using c by (simp add: entry_ok_def)
  next
    fix s s' e e' assume "map_of (by_slug (update_channel i f r)) s = Some e"
      "map_of (by_slug (update_channel i f r)) s' = Some e'" "en_tx e = en_tx e'"
    then show "s = s'" using d (5) [of s e s' e'] by simp
  qed (use d (1-3, 6) c in simp_all)
qed

lemma forward_ok: "registry_ok r \<Longrightarrow> registry_ok (snd (forward slug req r))"
  by (auto simp: forward_def try_send_def Let_def split: option.splits intro: update_channel_ok)

lemma recv_ok: "registry_ok r \<Longrightarrow> registry_ok (snd (recv i r))"
  by (auto simp: recv_def split: list.splits intro: update_channel_ok)

lemma drop_receiver_ok: "registry_ok r \<Longrightarrow> registry_ok (drop_receiver i r)"
  unfolding drop_receiver_def by (rule update_channel_ok) simp_all

lemma forward_simps [simp]:
  "by_slug (snd (forward slug req r)) = by_slug r" "length (channels (snd (forward slug req r))) = length (channels r)"
  by (simp_all add: forward_def try_send_def Let_def split: option.splits)

lemma recv_simps [simp]:
  "by_slug (snd (recv i r)) = by_slug r" "length (channels (snd (recv i r))) = length (channels r)"
  by (simp_all add: recv_def split: list.splits)

lemma forward_other:
  assumes "\<And>e. map_of (by_slug r) slug = Some e \<Longrightarrow> en_tx e \<noteq> i" "i < length (channels r)"
  shows "channels (snd (forward slug req r)) ! i = channels r ! i"
  using assms by (auto simp: forward_def try_send_def Let_def update_channel_nth split: option.splits)

section \<open>Histories\<close>

datatype 's registry_op =
    ORegister string
  | OUnregister string u64
  | OAbort string
  | OForward string "'s forward_request"
  | ORecv nat
  | ODropReceiver nat

fun registry_exec ::
  "'s tunnel_registry \<times> (string \<times> registration) list \<Rightarrow> 's registry_op \<Rightarrow>
     's tunnel_registry \<times> (string \<times> registration) list" where
  "registry_exec (r, issued) (ORegister slug) = (case register slug r of (g, r') \<Rightarrow> (r', issued @ [(slug, g)]))"
| "registry_exec (r, issued) (OUnregister slug gen) = (snd (unregister slug gen r), issued)"
| "registry_exec (r, issued) (OAbort slug) = (snd (abort slug r), issued)"
| "registry_exec (r, issued) (OForward slug req) = (snd (forward slug req r), issued)"
| "registry_exec (r, issued) (ORecv i) = (snd (recv i r), issued)"
| "registry_exec (r, issued) (ODropReceiver i) = (drop_receiver i r, issued)"

definition registry_history :: "'s registry_op list \<Rightarrow> 's tunnel_registry \<times> (string \<times> registration) list" where
  "registry_history ops = foldl registry_exec (registry_new, []) ops"

definition latest :: "(string \<times> registration) list \<Rightarrow> string \<Rightarrow> nat \<Rightarrow> bool" where
  "latest issued slug i \<longleftrightarrow> i < length issued \<and> fst (issued ! i) = slug \<and>
     (\<forall>j. i < j \<longrightarrow> j < length issued \<longrightarrow> fst (issued ! j) \<noteq> slug)"

definition history_ok :: "'s tunnel_registry \<times> (string \<times> registration) list \<Rightarrow> bool" where
  "history_ok h \<longleftrightarrow> registry_ok (fst h) \<and> length (snd h) = length (channels (fst h)) \<and>
     (\<forall>i < length (snd h). snd (snd h ! i) = \<lparr>rg_rx = i, rg_abort = i, rg_generation = of_nat i\<rparr>) \<and>
     (\<forall>s e. map_of (by_slug (fst h)) s = Some e \<longrightarrow> latest (snd h) s (en_tx e))"

lemma history_ok_shrink:
  assumes "history_ok (r, issued)" "registry_ok q" "length (channels q) = length (channels r)"
    "\<And>s e. map_of (by_slug q) s = Some e \<Longrightarrow> map_of (by_slug r) s = Some e"
  shows "history_ok (q, issued)"
  using assms unfolding history_ok_def by auto

lemma unregister_shrinks:
  "map_of (by_slug (snd (unregister slug gen r))) s = Some e \<Longrightarrow> map_of (by_slug r) s = Some e"
  "length (channels (snd (unregister slug gen r))) = length (channels r)"
  by (auto simp: unregister_def map_of_delete split: option.splits if_splits)

lemma abort_shrinks:
  "map_of (by_slug (snd (abort slug r))) s = Some e \<Longrightarrow> map_of (by_slug r) s = Some e"
  "length (channels (snd (abort slug r))) = length (channels r)"
  by (auto simp: abort_def map_of_delete split: option.splits if_splits)

lemma fst_register:
  "registry_ok r \<Longrightarrow> fst (register slug r) =
     \<lparr>rg_rx = length (channels r), rg_abort = length (channels r), rg_generation = of_nat (length (channels r))\<rparr>"
  by (simp add: register_def Let_def registry_okD (2, 3))

lemma latest_snoc:
  "latest (issued @ [(t, g)]) s i \<longleftrightarrow> (if t = s then i = length issued else latest issued s i)"
  by (auto simp: latest_def nth_append less_Suc_eq split: if_splits)

lemma history_ok_register:
  assumes h: "history_ok (r, issued)" shows "history_ok (registry_exec (r, issued) (ORegister slug))"
proof -
  have ok: "registry_ok r" and n: "length issued = length (channels r)" using h by (simp_all add: history_ok_def)
  obtain g q where gq: "register slug r = (g, q)" by (cases "register slug r")
  note m = register_displaces [OF ok, where slug = slug, unfolded gq snd_conv]
  have g: "g = \<lparr>rg_rx = length (channels r), rg_abort = length (channels r), rg_generation = of_nat (length (channels r))\<rparr>"
    using fst_register [OF ok, of slug] by (simp add: gq)
  have "latest (issued @ [(slug, g)]) s (en_tx e)" if e: "map_of (by_slug q) s = Some e" for s e
  proof (cases "s = slug")
    case True then show ?thesis using e m (1) n by (auto simp: latest_snoc)
  next
    case False
    then have "map_of (by_slug r) s = Some e" using e m (1) by simp
    then have "latest issued s (en_tx e)" using h by (simp add: history_ok_def)
    then show ?thesis using False by (simp add: latest_snoc)
  qed
  moreover have "registry_ok q" using register_ok [OF ok, of slug] by (simp add: gq)
  moreover have "snd ((issued @ [(slug, g)]) ! i) = \<lparr>rg_rx = i, rg_abort = i, rg_generation = of_nat i\<rparr>"
    if "i < Suc (length issued)" for i
    using that h n g by (auto simp: history_ok_def nth_append less_Suc_eq)
  ultimately show ?thesis using m (2) n unfolding history_ok_def by (simp add: gq)
qed

lemma history_ok_exec: "history_ok h \<Longrightarrow> history_ok (registry_exec h op)"
proof -
  assume h: "history_ok h"
  obtain r issued where ri: "h = (r, issued)" by (cases h)
  have ok: "registry_ok r" using h by (simp add: history_ok_def ri)
  show ?thesis
  proof (cases op)
    case (ORegister slug) then show ?thesis using history_ok_register h ri by blast
  next
    case (OUnregister slug gen)
    then show ?thesis using history_ok_shrink [OF h [unfolded ri] unregister_ok [OF ok]] unregister_shrinks ri by (metis registry_exec.simps (2))
  next
    case (OAbort slug)
    then show ?thesis using history_ok_shrink [OF h [unfolded ri] abort_ok [OF ok]] abort_shrinks ri by (metis registry_exec.simps (3))
  next
    case (OForward slug req)
    then show ?thesis using history_ok_shrink [OF h [unfolded ri] forward_ok [OF ok]] ri by simp
  next
    case (ORecv i)
    then show ?thesis using history_ok_shrink [OF h [unfolded ri] recv_ok [OF ok]] ri by simp
  next
    case (ODropReceiver i)
    then show ?thesis
      using history_ok_shrink [OF h [unfolded ri] drop_receiver_ok [OF ok]] ri by (simp add: drop_receiver_def)
  qed
qed

lemma history_ok_start: "history_ok (registry_new, [])"
  using registry_new_ok by (simp add: history_ok_def) (simp add: registry_new_def)

lemma history_ok_reachable: "history_ok (registry_history ops)"
  unfolding registry_history_def by (rule foldl_invariant) (simp_all add: history_ok_exec history_ok_start)

lemma of_nat_u64_inj: "m < 2 ^ 64 \<Longrightarrow> n < 2 ^ 64 \<Longrightarrow> (of_nat m :: u64) = of_nat n \<Longrightarrow> m = n"
  by (simp add: word_unat_eq_iff unat_of_nat)

section \<open>Properties\<close>

text \<open>C17. Whatever registrations, cleanups, aborts, forwards and receives ran (fewer registrations than the
  generation counter has values), a registration of a slug that was followed by another one is out of the
  game: its handler's cleanup is refused and changes nothing, so it cannot evict its successor; no
  connection for the slug reaches its channel any more; and its sending end is closed, so its handler
  stops.\<close>

theorem superseded_registration_inert:
  assumes "registry_history ops = (r, issued)" "length issued \<le> 2 ^ 64"
    and "i < j" "j < length issued" "fst (issued ! i) = slug" "fst (issued ! j) = slug"
  shows "unregister slug (rg_generation (snd (issued ! i))) r = (False, r) \<and>
    channels (snd (forward slug req r)) ! i = channels r ! i \<and> \<not> ch_sender (channels r ! i)"
proof -
  have h: "history_ok (r, issued)" using history_ok_reachable [of ops] assms (1) by simp
  then have ok: "registry_ok r" and n: "length issued = length (channels r)" by (simp_all add: history_ok_def)
  have l: "latest issued s (en_tx e)" if "map_of (by_slug r) s = Some e" for s e
    using h that by (simp add: history_ok_def)
  have ne: "en_tx e \<noteq> i" if "map_of (by_slug r) s = Some e" for s e
    using l [OF that] assms (3-6) by (auto simp: latest_def)
  have g: "rg_generation (snd (issued ! i)) = of_nat i" using h assms (3, 4) by (simp add: history_ok_def)
  have "en_generation e \<noteq> of_nat i" if e: "map_of (by_slug r) slug = Some e" for e
  proof -
    have "en_generation e = of_nat (en_tx e)" "en_tx e < 2 ^ 64" "i < 2 ^ 64"
      using registry_okD (4) [OF ok e] n assms (2-4) by (simp_all add: entry_ok_def)
    then show ?thesis using ne [OF e] of_nat_u64_inj [of "en_tx e" i] by auto
  qed
  then have "unregister slug (rg_generation (snd (issued ! i))) r = (False, r)"
    by (auto simp: unregister_def g split: option.splits)
  moreover have "channels (snd (forward slug req r)) ! i = channels r ! i"
    by (rule forward_other) (use ne assms (3, 4) n in auto)
  moreover have "\<not> ch_sender (channels r ! i)"
    using registry_okD (6) [OF ok, of i] ne assms (3, 4) n by auto
  ultimately show ?thesis by blast
qed

theorem superseded_registration_inert_witness:
  "\<exists>r issued. registry_history [ORegister ''alice'', OForward ''alice'' \<lparr>fr_stream = (), fr_dest_port = 443\<rparr>, ORegister ''alice''] = (r, issued) \<and>
     length issued = 2 \<and> unregister ''alice'' (rg_generation (snd (issued ! 0))) r = (False, r) \<and>
     channels (snd (forward ''alice'' \<lparr>fr_stream = (), fr_dest_port = 853\<rparr> r)) ! 0 = channels r ! 0 \<and>
     \<not> ch_sender (channels r ! 0)"
proof -
  let ?ops = "[ORegister ''alice'', OForward ''alice'' \<lparr>fr_stream = (), fr_dest_port = 443\<rparr>, ORegister ''alice'']"
  obtain r issued where h: "registry_history ?ops = (r, issued)" by (cases "registry_history ?ops") blast
  have "map fst issued = [''alice'', ''alice'']"
    using h by (auto simp: registry_history_def split_beta)
  then have i: "length issued = 2" "fst (issued ! 0) = ''alice''" "fst (issued ! 1) = ''alice''"
    by (auto simp: map_eq_Cons_conv)
  then have u: "unregister ''alice'' (rg_generation (snd (issued ! 0))) r = (False, r) \<and>
      channels (snd (forward ''alice'' \<lparr>fr_stream = (), fr_dest_port = 853\<rparr> r)) ! 0 = channels r ! 0 \<and>
      \<not> ch_sender (channels r ! 0)"
    by (intro superseded_registration_inert [OF h, of 0 1]) simp_all
  show ?thesis by (intro exI conjI, rule h, rule i) (use u in simp_all)
qed

end
