(* ===== verification/Tunnel_Handler.thy ===== *)
theory Tunnel_Handler
  imports Wire Tunnel_Registry
begin

text \<open>
  The multiplexer of one reverse tunnel (\<open>tunneller/src/tunnel/handler.rs\<close>): the frame encoders, the
  dispatch of a frame from the Pi, and the loop of \<open>run\<close> with one definition per arm of its \<open>select!\<close>. The three hash
  maps are association lists. What a step does to the outside (a frame to the Pi, a stream
  spawned, written or dropped) is the list of its effects; \<open>ws_ok\<close> says whether the WebSocket task still
  takes frames.

  The lemmas show that the two pending maps stay in step and bounded, that entries expire, and that
  the bytes of a frame only ever reach the connection whose number the frame carries.
\<close>

section \<open>Frames\<close>

definition FRAME_CONNECT :: u8 where "FRAME_CONNECT = 1"
definition FRAME_READY :: u8 where "FRAME_READY = 2"
definition FRAME_DATA :: u8 where "FRAME_DATA = 3"
definition FRAME_CLOSE :: u8 where "FRAME_CLOSE = 4"
definition FRAME_PING :: u8 where "FRAME_PING = 5"
definition FRAME_PONG :: u8 where "FRAME_PONG = 6"

lemmas frame_types =
  FRAME_CONNECT_def FRAME_READY_def FRAME_DATA_def FRAME_CLOSE_def FRAME_PING_def FRAME_PONG_def

definition MAX_PENDING :: nat where "MAX_PENDING = 256"

definition PENDING_TIMEOUT :: int where "PENDING_TIMEOUT = secs 10"

definition encode_connect :: "u32 \<Rightarrow> u16 \<Rightarrow> bytes" where
  "encode_connect conn_id dest_port = FRAME_CONNECT # u32_to_be_bytes conn_id @ u16_to_be_bytes dest_port"

definition encode_data :: "u32 \<Rightarrow> bytes \<Rightarrow> bytes" where
  "encode_data conn_id data = FRAME_DATA # u32_to_be_bytes conn_id @ data"

definition encode_close :: "u32 \<Rightarrow> bytes" where
  "encode_close conn_id = FRAME_CLOSE # u32_to_be_bytes conn_id"

definition encode_pong :: bytes where
  "encode_pong = FRAME_PONG # u32_to_be_bytes 0"

section \<open>State and effects\<close>

record 's handler =
  h_next_id :: u32
  h_active :: "(u32 \<times> 's) list"
  h_pending :: "(u32 \<times> 's) list"
  h_deadlines :: "(u32 \<times> instant) list"

definition handler_start :: "'s handler" where
  "handler_start = \<lparr>h_next_id = 0, h_active = [], h_pending = [], h_deadlines = []\<rparr>"

datatype 's tunnel_effect =
    ToPi bytes
  | Spawn u32 's
  | Deliver u32 's bytes
  | CloseWriter u32 's
  | DropStream 's

definition send_pi :: "bool \<Rightarrow> bytes \<Rightarrow> 's tunnel_effect list" where
  "send_pi ws_ok frame = (if ws_ok then [ToPi frame] else [])"

definition close_writer :: "u32 \<Rightarrow> 's handler \<Rightarrow> 's tunnel_effect list" where
  "close_writer conn_id h = (case map_of (h_active h) conn_id of None \<Rightarrow> [] | Some s \<Rightarrow> [CloseWriter conn_id s])"

section \<open>The arms of the loop\<close>

definition handle_pi_frame :: "bool \<Rightarrow> bytes \<Rightarrow> 's handler \<Rightarrow> 's handler \<times> 's tunnel_effect list" where
  "handle_pi_frame ws_ok data h =
     (if length data < 5 then (h, [])
      else
        let frame_type = data ! 0;
            conn_id = u32_from_be_bytes (data ! 1) (data ! 2) (data ! 3) (data ! 4) in
        if frame_type = FRAME_READY
        then let h1 = h\<lparr>h_deadlines := AList.delete conn_id (h_deadlines h)\<rparr> in
             case map_of (h_pending h1) conn_id of
               None \<Rightarrow> (h1, [])
             | Some stream \<Rightarrow>
                 (h1\<lparr>h_pending := AList.delete conn_id (h_pending h1),
                     h_active := AList.update conn_id stream (h_active h1)\<rparr>,
                  close_writer conn_id h @ [Spawn conn_id stream])
        else if frame_type = FRAME_DATA
        then (h, if length data > 5
                 then (case map_of (h_active h) conn_id of
                         None \<Rightarrow> [] | Some s \<Rightarrow> [Deliver conn_id s (drop 5 data)])
                 else [])
        else if frame_type = FRAME_CLOSE
        then (h\<lparr>h_active := AList.delete conn_id (h_active h)\<rparr>, close_writer conn_id h)
        else if frame_type = FRAME_PING \<and> conn_id = 0 then (h, send_pi ws_ok encode_pong)
        else (h, []))"

definition accept_inbound ::
  "bool \<Rightarrow> instant \<Rightarrow> 's forward_request \<Rightarrow> 's handler \<Rightarrow> 's handler \<times> 's tunnel_effect list" where
  "accept_inbound ws_ok now req h =
     (let conn_id = h_next_id h;
          h1 = h\<lparr>h_next_id := conn_id + 1\<rparr>;
          (h2, displaced) =
            (case map_of (h_pending h1) conn_id of
               None \<Rightarrow> (h1, [])
             | Some s \<Rightarrow> (h1\<lparr>h_pending := AList.delete conn_id (h_pending h1),
                             h_deadlines := AList.delete conn_id (h_deadlines h1)\<rparr>, [DropStream s])) in
      if length (h_pending h2) \<ge> MAX_PENDING then (h2, displaced @ [DropStream (fr_stream req)])
      else if ws_ok
      then (h2\<lparr>h_pending := AList.update conn_id (fr_stream req) (h_pending h2),
               h_deadlines := AList.update conn_id (now + PENDING_TIMEOUT) (h_deadlines h2)\<rparr>,
            displaced @ [ToPi (encode_connect conn_id (fr_dest_port req))])
      else (h2, displaced @ [DropStream (fr_stream req)]))"

definition stream_output :: "bool \<Rightarrow> u32 \<Rightarrow> bytes \<Rightarrow> 's handler \<Rightarrow> 's handler \<times> 's tunnel_effect list" where
  "stream_output ws_ok conn_id data h =
     (if data = []
      then (h\<lparr>h_active := AList.delete conn_id (h_active h)\<rparr>,
            send_pi ws_ok (encode_close conn_id) @ close_writer conn_id h)
      else (h, send_pi ws_ok (encode_data conn_id data)))"

definition cleanup :: "instant \<Rightarrow> 's handler \<Rightarrow> 's handler \<times> 's tunnel_effect list" where
  "cleanup now h =
     (let expired = map fst (filter (\<lambda>(_, deadline). deadline \<le> now) (h_deadlines h)) in
      (h\<lparr>h_pending := filter (\<lambda>(i, _). i \<notin> set expired) (h_pending h),
         h_deadlines := filter (\<lambda>(i, _). i \<notin> set expired) (h_deadlines h)\<rparr>,
       map (\<lambda>(_, s). DropStream s) (filter (\<lambda>(i, _). i \<in> set expired) (h_pending h))))"

datatype 's tunnel_event =
    Aborted
  | FromPi "bytes option"
  | Inbound "'s forward_request option"
  | StreamOut "(u32 \<times> bytes) option"
  | CleanupTick

fun handler_step ::
  "bool \<Rightarrow> instant \<Rightarrow> 's tunnel_event \<Rightarrow> 's handler \<Rightarrow> ('s handler \<times> 's tunnel_effect list) option" where
  "handler_step ws_ok now Aborted h = None"
| "handler_step ws_ok now (FromPi None) h = None"
| "handler_step ws_ok now (FromPi (Some data)) h = Some (handle_pi_frame ws_ok data h)"
| "handler_step ws_ok now (Inbound None) h = None"
| "handler_step ws_ok now (Inbound (Some req)) h = Some (accept_inbound ws_ok now req h)"
| "handler_step ws_ok now (StreamOut None) h = None"
| "handler_step ws_ok now (StreamOut (Some (conn_id, data))) h = Some (stream_output ws_ok conn_id data h)"
| "handler_step ws_ok now CleanupTick h = Some (cleanup now h)"

fun handler_loop ::
  "(bool \<times> instant \<times> 's tunnel_event) list \<Rightarrow> 's handler \<times> 's tunnel_effect list \<Rightarrow> 's handler \<times> 's tunnel_effect list" where
  "handler_loop [] st = st"
| "handler_loop ((ws_ok, now, ev) # evs) st =
     (case handler_step ws_ok now ev (fst st) of
        None \<Rightarrow> st | Some (h, effs) \<Rightarrow> handler_loop evs (h, snd st @ effs))"

section \<open>The socket tasks\<close>

datatype ws_result = WsIdle | WsBinary bytes | WsClose | WsEnd | WsError | WsOther

fun drive_ws_recv :: "bool \<Rightarrow> ws_result \<Rightarrow> bool \<times> bytes list" where
  "drive_ws_recv main_open WsIdle = (False, [])"
| "drive_ws_recv main_open (WsBinary data) = (if main_open then (True, [data]) else (False, []))"
| "drive_ws_recv main_open WsClose = (False, [])"
| "drive_ws_recv main_open WsEnd = (False, [])"
| "drive_ws_recv main_open WsError = (False, [])"
| "drive_ws_recv main_open WsOther = (True, [])"

fun stream_reader :: "u32 \<Rightarrow> bytes option list \<Rightarrow> (u32 \<times> bytes) list" where
  "stream_reader conn_id [] = []"
| "stream_reader conn_id (None # rs) = [(conn_id, [])]"
| "stream_reader conn_id (Some d # rs) =
     (if d = [] then [(conn_id, [])] else (conn_id, d) # stream_reader conn_id rs)"

section \<open>Invariants\<close>

definition handler_ok :: "'s handler \<Rightarrow> bool" where
  "handler_ok h \<longleftrightarrow> distinct (map fst (h_pending h)) \<and> distinct (map fst (h_active h)) \<and>
     fst ` set (h_pending h) = fst ` set (h_deadlines h) \<and> length (h_pending h) \<le> MAX_PENDING"

definition from_requests :: "'s forward_request list \<Rightarrow> u32 \<Rightarrow> 's \<Rightarrow> bool" where
  "from_requests reqs i s \<longleftrightarrow> (\<exists>k < length reqs. i = of_nat k \<and> s = fr_stream (reqs ! k))"

definition origin_ok :: "'s forward_request list \<Rightarrow> 's handler \<Rightarrow> bool" where
  "origin_ok reqs h \<longleftrightarrow> h_next_id h = of_nat (length reqs) \<and>
     (\<forall>i s. (i, s) \<in> set (h_pending h) \<or> (i, s) \<in> set (h_active h) \<longrightarrow> from_requests reqs i s)"

lemma set_alist_update: "x \<in> set (AList.update k v al) \<Longrightarrow> x = (k, v) \<or> x \<in> set al"
  by (induction al) (auto split: if_splits)

lemma set_alist_delete: "set (AList.delete k al) = {x \<in> set al. fst x \<noteq> k}"
  by (auto simp: AList.delete_eq)

lemma length_alist_update: "length (AList.update k v al) \<le> Suc (length al)"
  by (induction al) auto

lemma length_alist_delete: "length (AList.delete k al) \<le> length al"
  by (simp add: AList.delete_eq)

lemma alist_keys_delete: "fst ` set (AList.delete k al) = fst ` set al - {k}"
  by (auto simp: set_alist_delete)

lemma handle_pi_frame_elim:
  obtains "handle_pi_frame ws_ok data h = (h, [])"
  | i where "map_of (h_pending h) i = None"
      "handle_pi_frame ws_ok data h = (h\<lparr>h_deadlines := AList.delete i (h_deadlines h)\<rparr>, [])"
  | i s where "map_of (h_pending h) i = Some s"
      "handle_pi_frame ws_ok data h =
         (h\<lparr>h_deadlines := AList.delete i (h_deadlines h), h_pending := AList.delete i (h_pending h),
            h_active := AList.update i s (h_active h)\<rparr>, close_writer i h @ [Spawn i s])"
  | i s where "map_of (h_active h) i = Some s" "handle_pi_frame ws_ok data h = (h, [Deliver i s (drop 5 data)])"
      "data ! 0 = FRAME_DATA" "i = u32_from_be_bytes (data ! 1) (data ! 2) (data ! 3) (data ! 4)" "length data > 5"
  | i where "handle_pi_frame ws_ok data h = (h\<lparr>h_active := AList.delete i (h_active h)\<rparr>, close_writer i h)"
  | "handle_pi_frame ws_ok data h = (h, send_pi ws_ok encode_pong)"
proof -
  define i where "i = u32_from_be_bytes (data ! 1) (data ! 2) (data ! 3) (data ! 4)"
  note d = handle_pi_frame_def [of ws_ok data h, unfolded Let_def, folded i_def]
  consider "length data < 5" | "\<not> length data < 5" "data ! 0 = FRAME_READY"
    | "\<not> length data < 5" "data ! 0 = FRAME_DATA" | "\<not> length data < 5" "data ! 0 = FRAME_CLOSE"
    | "\<not> length data < 5" "data ! 0 \<notin> {FRAME_READY, FRAME_DATA, FRAME_CLOSE}" by blast
  then show thesis
  proof cases
    case 1 then show thesis by (intro that (1)) (simp add: d)
  next
    case 2
    show thesis
    proof (cases "map_of (h_pending h) i")
      case None then show thesis using 2 by (intro that (2) [of i]) (simp_all add: d)
    next
      case (Some s) then show thesis using 2 by (intro that (3) [of i s]) (simp_all add: d)
    qed
  next
    case 3
    then have ne: "data ! 0 \<noteq> FRAME_READY" by (simp add: frame_types)
    show thesis
    proof (cases "length data > 5 \<and> map_of (h_active h) i \<noteq> None")
      case True
      then obtain s where s: "map_of (h_active h) i = Some s" by blast
      show thesis using 3 ne True s by (intro that (4) [of i s]) (simp_all add: d i_def)
    next
      case False then show thesis using 3 ne by (intro that (1)) (auto simp: d split: option.splits)
    qed
  next
    case 4
    then have "data ! 0 \<noteq> FRAME_READY" "data ! 0 \<noteq> FRAME_DATA" by (simp_all add: frame_types)
    then show thesis using 4 by (intro that (5) [of i]) (simp add: d)
  next
    case 5
    show thesis
    proof (cases "data ! 0 = FRAME_PING \<and> i = 0")
      case True then show thesis using 5 by (intro that (6)) (simp add: d)
    next
      case False then show thesis using 5 by (intro that (1)) (auto simp: d)
    qed
  qed
qed

lemma handle_pi_frame_ok: "handler_ok h \<Longrightarrow> handler_ok (fst (handle_pi_frame ws_ok data h))"
proof -
  assume ok: "handler_ok h"
  show ?thesis
  proof (cases rule: handle_pi_frame_elim [of ws_ok data h])
    case (2 i)
    then have "AList.delete i (h_deadlines h) = h_deadlines h"
      using ok by (simp add: handler_ok_def map_of_eq_None_iff delete_id)
    then show ?thesis using ok by (simp add: 2 (2))
  next
    case (3 i s)
    then show ?thesis
      using ok length_alist_delete [of i "h_pending h"]
      by (simp add: handler_ok_def alist_keys_delete distinct_delete distinct_update)
  qed (use ok in \<open>simp_all add: handler_ok_def distinct_delete\<close>)
qed

lemma accept_inbound_ok:
  assumes ok: "handler_ok h" shows "handler_ok (fst (accept_inbound ws_ok now req h))"
proof -
  define g where "g = (case map_of (h_pending h) (h_next_id h) of None \<Rightarrow> h
    | Some s \<Rightarrow> h\<lparr>h_pending := AList.delete (h_next_id h) (h_pending h), h_deadlines := AList.delete (h_next_id h) (h_deadlines h)\<rparr>)"
  have g: "handler_ok g"
    using ok length_alist_delete [of "h_next_id h" "h_pending h"]
    by (auto simp: g_def handler_ok_def alist_keys_delete distinct_delete split: option.splits)
  have "fst (accept_inbound ws_ok now req h) =
      (if length (h_pending g) \<ge> MAX_PENDING \<or> \<not> ws_ok then g\<lparr>h_next_id := h_next_id h + 1\<rparr>
       else g\<lparr>h_next_id := h_next_id h + 1, h_pending := AList.update (h_next_id h) (fr_stream req) (h_pending g),
              h_deadlines := AList.update (h_next_id h) (now + PENDING_TIMEOUT) (h_deadlines g)\<rparr>)"
    by (simp add: accept_inbound_def g_def Let_def split: option.splits)
  then show ?thesis
    using g length_alist_update [of "h_next_id h" "fr_stream req" "h_pending g"]
    by (auto simp: handler_ok_def dom_update distinct_update not_le)
qed

lemma cleanup_ok: "handler_ok h \<Longrightarrow> handler_ok (fst (cleanup now h))"
proof -
  assume ok: "handler_ok h"
  let ?x = "map fst (filter (\<lambda>(_, deadline). deadline \<le> now) (h_deadlines h))"
  have keys: "fst ` set (filter (\<lambda>(i, _). i \<notin> set ?x) al) = fst ` set al - set ?x" for al :: "(u32 \<times> 'x) list"
    by force
  have "length (filter (\<lambda>(i, _). i \<notin> set ?x) (h_pending h)) \<le> MAX_PENDING"
    using ok by (auto simp: handler_ok_def intro: le_trans [OF length_filter_le])
  then show ?thesis
    using ok keys [of "h_pending h"] keys [of "h_deadlines h"]
    by (simp add: cleanup_def Let_def handler_ok_def distinct_map_filter)
qed

lemma stream_output_ok: "handler_ok h \<Longrightarrow> handler_ok (fst (stream_output ws_ok conn_id data h))"
  by (simp add: stream_output_def handler_ok_def distinct_delete)

lemma handler_step_elim:
  assumes "handler_step ws_ok now ev h = Some r"
  obtains data where "ev = FromPi (Some data)" "r = handle_pi_frame ws_ok data h"
  | req where "ev = Inbound (Some req)" "r = accept_inbound ws_ok now req h"
  | conn_id data where "ev = StreamOut (Some (conn_id, data))" "r = stream_output ws_ok conn_id data h"
  | "ev = CleanupTick" "r = cleanup now h"
  using assms by (cases "(ws_ok, now, ev, h)" rule: handler_step.cases) auto

lemma handler_step_ok: "handler_ok h \<Longrightarrow> handler_step ws_ok now ev h = Some r \<Longrightarrow> handler_ok (fst r)"
  by (erule handler_step_elim)
    (simp_all add: handle_pi_frame_ok accept_inbound_ok stream_output_ok cleanup_ok)

text \<open>The requests a history accepted, in order, and the origin of everything the maps hold.\<close>

fun inbound_requests :: "(bool \<times> instant \<times> 's tunnel_event) list \<Rightarrow> 's forward_request list" where
  "inbound_requests [] = []"
| "inbound_requests ((_, _, ev) # evs) =
     (case ev of
        Inbound (Some req) \<Rightarrow> req # inbound_requests evs
      | FromPi (Some _) \<Rightarrow> inbound_requests evs
      | StreamOut (Some _) \<Rightarrow> inbound_requests evs
      | CleanupTick \<Rightarrow> inbound_requests evs
      | _ \<Rightarrow> [])"

definition effect_ok :: "'s forward_request list \<Rightarrow> 's tunnel_effect \<Rightarrow> bool" where
  "effect_ok reqs e \<longleftrightarrow>
     (case e of
        ToPi f \<Rightarrow> f \<noteq> [] \<and> (hd f = FRAME_CONNECT \<longrightarrow>
          (\<exists>k < length reqs. f = encode_connect (of_nat k) (fr_dest_port (reqs ! k))))
      | Spawn i s \<Rightarrow> from_requests reqs i s
      | Deliver i s _ \<Rightarrow> from_requests reqs i s
      | CloseWriter i s \<Rightarrow> from_requests reqs i s
      | DropStream s \<Rightarrow> s \<in> fr_stream ` set reqs)"

lemma from_requests_mono: "from_requests reqs i s \<Longrightarrow> from_requests (reqs @ rs) i s"
  unfolding from_requests_def by (metis length_append nth_append trans_less_add1)

lemma from_requests_stream: "from_requests reqs i s \<Longrightarrow> s \<in> fr_stream ` set reqs"
  by (auto simp: from_requests_def)

lemma effect_ok_mono: "effect_ok reqs e \<Longrightarrow> effect_ok (reqs @ rs) e"
proof (cases e)
  case (ToPi f)
  assume "effect_ok reqs e"
  then show ?thesis
    using ToPi by (auto simp: effect_ok_def) (metis length_append nth_append trans_less_add1)
qed (auto simp: effect_ok_def from_requests_mono)

lemma origin_okD:
  assumes "origin_ok reqs h"
  shows "map_of (h_active h) i = Some s \<Longrightarrow> from_requests reqs i s"
    and "map_of (h_pending h) i = Some s \<Longrightarrow> from_requests reqs i s"
  using assms by (auto simp: origin_ok_def dest: map_of_SomeD)

lemma close_writer_effects: "origin_ok reqs h \<Longrightarrow> e \<in> set (close_writer i h) \<Longrightarrow> effect_ok reqs e"
  by (auto simp: close_writer_def effect_ok_def origin_okD split: option.splits)

lemma send_pi_effects: "e \<in> set (send_pi ws_ok f) \<Longrightarrow> f \<noteq> [] \<Longrightarrow> hd f \<noteq> FRAME_CONNECT \<Longrightarrow> effect_ok reqs e"
  by (auto simp: send_pi_def effect_ok_def split: if_splits)

lemma origin_okI:
  "h_next_id h = of_nat (length reqs) \<Longrightarrow> (\<And>i s. (i, s) \<in> set (h_pending h) \<Longrightarrow> from_requests reqs i s) \<Longrightarrow>
    (\<And>i s. (i, s) \<in> set (h_active h) \<Longrightarrow> from_requests reqs i s) \<Longrightarrow> origin_ok reqs h"
  by (auto simp: origin_ok_def)

lemma origin_ok_sub:
  assumes "origin_ok reqs h" "h_next_id g = h_next_id h" "set (h_pending g) \<subseteq> set (h_pending h)"
    and "\<And>i s. (i, s) \<in> set (h_active g) \<Longrightarrow> (i, s) \<in> set (h_active h) \<or> from_requests reqs i s"
  shows "origin_ok reqs g"
proof (rule origin_okI)
  note o = assms (1) [unfolded origin_ok_def]
  show "h_next_id g = of_nat (length reqs)" using o assms (2) by simp
  show "from_requests reqs i s" if "(i, s) \<in> set (h_pending g)" for i s
    using o subsetD [OF assms (3) that] by blast
  show "from_requests reqs i s" if "(i, s) \<in> set (h_active g)" for i s
    using o assms (4) [OF that] by blast
qed

lemma pong_effects: "e \<in> set (send_pi ws_ok encode_pong) \<Longrightarrow> effect_ok reqs e"
  by (erule send_pi_effects) (simp_all add: encode_pong_def frame_types)

lemma handle_pi_frame_origin:
  assumes o: "origin_ok reqs h"
  shows "origin_ok reqs (fst (handle_pi_frame ws_ok data h)) \<and> (\<forall>e \<in> set (snd (handle_pi_frame ws_ok data h)). effect_ok reqs e)"
proof (cases rule: handle_pi_frame_elim [of ws_ok data h])
  case (3 i s)
  have s: "from_requests reqs i s" using origin_okD (2) [OF o 3 (1)] .
  have "origin_ok reqs (fst (handle_pi_frame ws_ok data h))"
    by (rule origin_ok_sub [OF o]) (use s in \<open>auto simp: 3 (2) set_alist_delete dest!: set_alist_update\<close>)
  moreover have "effect_ok reqs (Spawn i s)" using s by (simp add: effect_ok_def)
  ultimately show ?thesis using close_writer_effects [OF o] by (auto simp: 3 (2))
next
  case (4 i s)
  then show ?thesis using o origin_okD (1) [OF o 4 (1)] by (simp add: effect_ok_def)
next
  case (5 i)
  have "origin_ok reqs (fst (handle_pi_frame ws_ok data h))"
    by (rule origin_ok_sub [OF o]) (auto simp: 5 set_alist_delete)
  then show ?thesis using close_writer_effects [OF o] by (auto simp: 5)
qed (use o pong_effects in \<open>auto intro: origin_ok_sub [OF o]\<close>)

lemma stream_output_origin:
  assumes o: "origin_ok reqs h"
  shows "origin_ok reqs (fst (stream_output ws_ok i data h)) \<and> (\<forall>e \<in> set (snd (stream_output ws_ok i data h)). effect_ok reqs e)"
proof
  show "origin_ok reqs (fst (stream_output ws_ok i data h))"
    by (rule origin_ok_sub [OF o]) (auto simp: stream_output_def set_alist_delete split: if_splits)
  have c: "effect_ok reqs e" if "e \<in> set (send_pi ws_ok (encode_close i))" for e
    using that by (rule send_pi_effects) (simp_all add: encode_close_def frame_types)
  have d: "effect_ok reqs e" if "e \<in> set (send_pi ws_ok (encode_data i data))" for e
    using that by (rule send_pi_effects) (simp_all add: encode_data_def frame_types)
  show "\<forall>e \<in> set (snd (stream_output ws_ok i data h)). effect_ok reqs e"
    using close_writer_effects [OF o] c d by (auto simp: stream_output_def)
qed

lemma cleanup_origin:
  assumes o: "origin_ok reqs h"
  shows "origin_ok reqs (fst (cleanup now h)) \<and> (\<forall>e \<in> set (snd (cleanup now h)). effect_ok reqs e)"
proof
  show "origin_ok reqs (fst (cleanup now h))"
    by (rule origin_ok_sub [OF o]) (auto simp: cleanup_def Let_def)
  have "effect_ok reqs (DropStream s)" if "(i, s) \<in> set (h_pending h)" for i s
    using o that from_requests_stream [of reqs i s] by (auto simp: origin_ok_def effect_ok_def)
  then show "\<forall>e \<in> set (snd (cleanup now h)). effect_ok reqs e"
    by (auto simp: cleanup_def Let_def)
qed

lemma accept_inbound_origin:
  assumes o: "origin_ok reqs h"
  shows "origin_ok (reqs @ [req]) (fst (accept_inbound ws_ok now req h)) \<and>
    (\<forall>e \<in> set (snd (accept_inbound ws_ok now req h)). effect_ok (reqs @ [req]) e)"
proof -
  let ?i = "h_next_id h" and ?rs = "reqs @ [req]"
  have i: "?i = of_nat (length reqs)" using o by (simp add: origin_ok_def)
  define g where "g = (case map_of (h_pending h) ?i of None \<Rightarrow> h
    | Some s \<Rightarrow> h\<lparr>h_pending := AList.delete ?i (h_pending h), h_deadlines := AList.delete ?i (h_deadlines h)\<rparr>)"
  define d where "d = (case map_of (h_pending h) ?i of None \<Rightarrow> [] | Some s \<Rightarrow> [DropStream s])"
  have eq: "accept_inbound ws_ok now req h =
      (if length (h_pending g) \<ge> MAX_PENDING \<or> \<not> ws_ok
       then (g\<lparr>h_next_id := ?i + 1\<rparr>, d @ [DropStream (fr_stream req)])
       else (g\<lparr>h_next_id := ?i + 1, h_pending := AList.update ?i (fr_stream req) (h_pending g),
              h_deadlines := AList.update ?i (now + PENDING_TIMEOUT) (h_deadlines g)\<rparr>,
             d @ [ToPi (encode_connect ?i (fr_dest_port req))]))"
    by (simp add: accept_inbound_def g_def d_def Let_def split: option.splits)
  have sub: "set (h_pending g) \<subseteq> set (h_pending h)" "h_active g = h_active h"
    by (auto simp: g_def set_alist_delete split: option.splits)
  have new: "from_requests ?rs ?i (fr_stream req)"
    unfolding from_requests_def i by (intro exI [of _ "length reqs"]) simp
  have old: "from_requests ?rs j s" if "(j, s) \<in> set (h_pending h) \<or> (j, s) \<in> set (h_active h)" for j s
    by (rule from_requests_mono) (use o that in \<open>auto simp: origin_ok_def\<close>)
  have p: "from_requests ?rs j s" if "(j, s) \<in> set (AList.update ?i (fr_stream req) (h_pending g))" for j s
    using set_alist_update [OF that] new old sub by auto
  have "origin_ok ?rs (fst (accept_inbound ws_ok now req h))"
    unfolding eq by (rule origin_okI) (use i p old sub in \<open>auto split: if_splits\<close>)
  moreover have "effect_ok ?rs e" if "e \<in> set d" for e
    using that origin_okD (2) [OF o] from_requests_stream by (force simp: d_def effect_ok_def split: option.splits)
  moreover have "effect_ok ?rs (ToPi (encode_connect ?i (fr_dest_port req)))"
    unfolding effect_ok_def i by (auto simp: encode_connect_def intro!: exI [of _ "length reqs"])
  moreover have "effect_ok ?rs (DropStream (fr_stream req))" by (simp add: effect_ok_def)
  ultimately show ?thesis unfolding eq by auto
qed

lemma handler_loop_origin:
  assumes "origin_ok reqs (fst st)" "\<forall>e \<in> set (snd st). effect_ok reqs e"
  shows "origin_ok (reqs @ inbound_requests evs) (fst (handler_loop evs st)) \<and>
    (\<forall>e \<in> set (snd (handler_loop evs st)). effect_ok (reqs @ inbound_requests evs) e)"
  using assms
proof (induction evs arbitrary: reqs st)
  case (Cons ev evs)
  obtain ws_ok now ev' where ev: "ev = (ws_ok, now, ev')" by (cases ev)
  show ?case
  proof (cases "handler_step ws_ok now ev' (fst st)")
    case None
    then have "inbound_requests (ev # evs) = []"
      by (cases "(ws_ok, now, ev', fst st)" rule: handler_step.cases) (auto simp: ev)
    then show ?thesis using None Cons.prems by (simp add: ev)
  next
    case (Some r)
    define new where "new = (case ev' of Inbound (Some q) \<Rightarrow> [q] | _ \<Rightarrow> [])"
    have "origin_ok (reqs @ new) (fst r) \<and> (\<forall>e \<in> set (snd r). effect_ok (reqs @ new) e)"
      using Some Cons.prems (1)
      by (cases rule: handler_step_elim)
        (simp_all add: new_def handle_pi_frame_origin accept_inbound_origin stream_output_origin cleanup_origin)
    moreover have "\<forall>e \<in> set (snd st). effect_ok (reqs @ new) e" using Cons.prems (2) effect_ok_mono by blast
    moreover have "inbound_requests (ev # evs) = new @ inbound_requests evs"
      using Some by (cases rule: handler_step_elim) (simp_all add: ev new_def)
    ultimately show ?thesis
      using Cons.IH [of "reqs @ new" "(fst r, snd st @ snd r)"] Some by (cases r) (auto simp: ev)
  qed
qed simp

lemma handler_loop_ok: "handler_ok (fst st) \<Longrightarrow> handler_ok (fst (handler_loop evs st))"
proof (induction evs arbitrary: st)
  case (Cons ev evs)
  obtain ws_ok now ev' where ev: "ev = (ws_ok, now, ev')" by (cases ev)
  show ?case
  proof (cases "handler_step ws_ok now ev' (fst st)")
    case (Some r)
    then have "handler_ok (fst r)" using handler_step_ok Cons.prems by blast
    then show ?thesis using Cons.IH [of "(fst r, snd st @ snd r)"] Some by (cases r) (simp add: ev)
  qed (use Cons.prems in \<open>simp add: ev\<close>)
qed simp

lemma handler_start_ok: "handler_ok handler_start" "origin_ok [] handler_start"
  by (simp_all add: handler_ok_def origin_ok_def handler_start_def)

lemma from_requests_unat:
  assumes "from_requests reqs i s" "length reqs \<le> 2 ^ 32"
  shows "unat i < length reqs \<and> s = fr_stream (reqs ! unat i)"
proof -
  obtain k where k: "k < length reqs" "i = of_nat k" "s = fr_stream (reqs ! k)"
    using assms (1) by (auto simp: from_requests_def)
  then have "unat i = k" using assms (2) by (simp add: unat_of_nat)
  then show ?thesis using k by simp
qed

lemma data_frame_shape:
  assumes "data ! 0 = FRAME_DATA" "length data > 5"
  shows "data = encode_data (u32_from_be_bytes (data ! 1) (data ! 2) (data ! 3) (data ! 4)) (drop 5 data)"
proof -
  obtain a b c d e r where "data = a # b # c # d # e # r"
    using assms (2) by (auto simp: numeral_eq_Suc Suc_le_length_iff dest!: less_imp_le_nat)
  then show ?thesis using assms (1) by (simp add: encode_data_def u32_from_to_be_bytes)
qed

text \<open>Only pending entries are looked for when the counter comes round: a connection that is still
  active keeps its number while a new one is announced under it.\<close>

lemma active_conn_id_reused:
  assumes "map_of (h_active h) (h_next_id h) = Some s" "map_of (h_pending h) (h_next_id h) = None"
    and "length (h_pending h) < MAX_PENDING"
  shows "ToPi (encode_connect (h_next_id h) (fr_dest_port req)) \<in> set (snd (accept_inbound True now req h)) \<and>
    map_of (h_active (fst (accept_inbound True now req h))) (h_next_id h) = Some s"
  using assms by (simp add: accept_inbound_def Let_def)

section \<open>Properties\<close>

text \<open>C16. After any sequence of frames, inbound connections, stream output and clean-ups (up to \<open>2 ^ 32\<close> accepted
  connections), the payload of the next frame from the Pi is written to a connection only when the frame is
  the data frame with that connection's number, and the number is the position at which the connection was accepted;
  every \<open>CONNECT\<close> sent before announced the connection of that position with its own port. So the bytes of one
  visitor never reach another.\<close>

theorem tunnel_streams_isolated:
  assumes "handler_loop evs (handler_start, []) = (h, effs)" "length (inbound_requests evs) \<le> 2 ^ 32"
  shows "(\<forall>i s d. Deliver i s d \<in> set (snd (handle_pi_frame ws_ok frame h)) \<longrightarrow>
      frame = encode_data i d \<and> unat i < length (inbound_requests evs) \<and> s = fr_stream (inbound_requests evs ! unat i)) \<and>
    (\<forall>f. ToPi f \<in> set effs \<and> hd f = FRAME_CONNECT \<longrightarrow>
      (\<exists>k < length (inbound_requests evs). f = encode_connect (of_nat k) (fr_dest_port (inbound_requests evs ! k))))"
proof -
  let ?reqs = "inbound_requests evs"
  have o: "origin_ok ?reqs h" and e: "\<forall>x \<in> set effs. effect_ok ?reqs x"
    using handler_loop_origin [of "[]" "(handler_start, [])" evs] assms (1) by (simp_all add: handler_start_ok)
  have "frame = encode_data i d \<and> unat i < length ?reqs \<and> s = fr_stream (?reqs ! unat i)"
    if d: "Deliver i s d \<in> set (snd (handle_pi_frame ws_ok frame h))" for i s d
  proof -
    have r: "from_requests ?reqs i s"
      using d handle_pi_frame_origin [OF o, of ws_ok frame] by (auto simp: effect_ok_def dest!: bspec)
    moreover have "frame = encode_data i d"
      using d data_frame_shape [of frame]
      by (cases rule: handle_pi_frame_elim [of ws_ok frame h])
        (auto simp: close_writer_def send_pi_def split: option.splits if_splits)
    ultimately show ?thesis using from_requests_unat [OF r assms (2)] by simp
  qed
  moreover have "\<exists>k < length ?reqs. f = encode_connect (of_nat k) (fr_dest_port (?reqs ! k))"
    if "ToPi f \<in> set effs" "hd f = FRAME_CONNECT" for f
    using e that by (auto simp: effect_ok_def dest!: bspec)
  ultimately show ?thesis by blast
qed

definition ex_events :: "(bool \<times> instant \<times> nat tunnel_event) list" where
  "ex_events = [(True, 0, Inbound (Some \<lparr>fr_stream = 7, fr_dest_port = 443\<rparr>)),
     (True, 1, FromPi (Some (FRAME_READY # u32_to_be_bytes 0)))]"

lemma ex_events_run:
  "handler_loop ex_events (handler_start, []) =
     (\<lparr>h_next_id = 1, h_active = [(0, 7)], h_pending = [], h_deadlines = []\<rparr>,
      [ToPi (encode_connect 0 443), Spawn 0 7])"
  by (simp add: ex_events_def handler_start_def accept_inbound_def handle_pi_frame_def close_writer_def MAX_PENDING_def
      u32_to_be_bytes_def u32_from_be_bytes_def frame_types)

theorem tunnel_streams_isolated_witness:
  "length (inbound_requests ex_events) = 1 \<and>
   Deliver 0 7 [9, 9] \<in> set (snd (handle_pi_frame True (encode_data 0 [9, 9]) (fst (handler_loop ex_events (handler_start, []))))) \<and>
   fr_stream (inbound_requests ex_events ! 0) = 7"
proof -
  have d: "Deliver 0 7 [9, 9] \<in> set (snd (handle_pi_frame True (encode_data 0 [9, 9]) (fst (handler_loop ex_events (handler_start, [])))))"
    by (simp add: ex_events_run handle_pi_frame_def encode_data_def u32_to_be_bytes_def u32_from_be_bytes_def frame_types)
  have n: "length (inbound_requests ex_events) \<le> 2 ^ 32" by (simp add: ex_events_def)
  have "(7 :: nat) = fr_stream (inbound_requests ex_events ! unat (0 :: u32))"
    using tunnel_streams_isolated [OF prod.collapse [symmetric] n, of True "encode_data 0 [9, 9]"] d by blast
  then show ?thesis using d by (simp add: ex_events_def)
qed

text \<open>Whatever happens on a tunnel, at most 256 connections wait for the Pi, each of them has a deadline,
  and after a clean-up none is left whose deadline has passed.\<close>

theorem pending_bounded:
  "length (h_pending (fst (handler_loop evs (handler_start, [])))) \<le> 256 \<and>
   fst ` set (h_pending (fst (handler_loop evs (handler_start, [])))) =
     fst ` set (h_deadlines (fst (handler_loop evs (handler_start, [])))) \<and>
   (\<forall>(i, deadline) \<in> set (h_deadlines (fst (cleanup now (fst (handler_loop evs (handler_start, [])))))). now < deadline)"
proof -
  have "handler_ok (fst (handler_loop evs (handler_start, [])))"
    using handler_loop_ok [of "(handler_start, [])" evs] by (simp add: handler_start_ok)
  moreover have "\<forall>(i, deadline) \<in> set (h_deadlines (fst (cleanup now h))). now < deadline" for h :: "'a handler"
    by (force simp: cleanup_def Let_def)
  ultimately show ?thesis by (simp add: handler_ok_def MAX_PENDING_def)
qed

theorem pending_bounded_witness:
  "h_deadlines (fst (cleanup 5 (fst (handler_loop (take 1 ex_events) (handler_start, []))))) = [(0, secs 10)] \<and>
   5 < secs 10 \<and> length (h_pending (fst (handler_loop (take 1 ex_events) (handler_start, [])))) \<le> 256"
proof -
  have d: "h_deadlines (fst (cleanup 5 (fst (handler_loop (take 1 ex_events) (handler_start, []))))) = [(0, secs 10)]"
    by (simp add: ex_events_def handler_start_def accept_inbound_def cleanup_def MAX_PENDING_def PENDING_TIMEOUT_def secs_def)
  show ?thesis using pending_bounded [of "take 1 ex_events" 5] unfolding d by simp
qed

end
