(* ===== verification/Tunneller.thy ===== *)
theory Tunneller
  imports Sni Proxy_Protocol Mesh Tunnel_Handler Tenants_Api
begin

text \<open>
  The Tunneller service around the registry and the handler: the regional \<open>tunnel_routes\<close> table
  (\<open>tunneller/src/repository/routes.rs\<close>), the router and the inter-node forward (\<open>router/mod.rs\<close>,
  \<open>mesh/forward.rs\<close>), the routing of a client connection (\<open>sni/mod.rs\<close>), the tunnel endpoint
  (\<open>api/tunnel.rs\<close>), the end of a tunnel (\<open>tunnel/handler.rs\<close>) and the two reapers (\<open>reconcile.rs\<close>). A region is
  the table and one registry per node address. \<open>up\<close> says whether the database answers; the record
  \<open>mesh_link\<close> holds what a dial depends on, the record \<open>resolver\<close> the two reads of the Tenants service,
  with \<open>tenants_resolver\<close> the client over the handlers of that service.

  The locale \<open>owned_rows\<close> states the ownership contract of the routing table.
\<close>

section \<open>The routes table\<close>

record tunnel_route =
  tr_slug :: string
  tr_node_addr :: string
  tr_network_id :: string
  tr_tenant_id :: string
  tr_last_seen :: instant

definition db_down :: string where "db_down = ''database unavailable''"

definition route_upsert ::
  "bool \<Rightarrow> instant \<Rightarrow> string \<Rightarrow> string \<Rightarrow> string \<Rightarrow> string \<Rightarrow> tunnel_route list \<Rightarrow> (string + unit) \<times> tunnel_route list" where
  "route_upsert up now slug node_addr network_id tenant_id t =
     (if \<not> up then (Inl db_down, t)
      else if sql_exists (\<lambda>r. tr_slug r = slug) t
      then (Inr (), sql_update (\<lambda>r. tr_slug r = slug)
              (\<lambda>r. r\<lparr>tr_node_addr := node_addr, tr_network_id := network_id, tr_tenant_id := tenant_id, tr_last_seen := now\<rparr>) t)
      else (Inr (), t @ [\<lparr>tr_slug = slug, tr_node_addr = node_addr, tr_network_id = network_id, tr_tenant_id = tenant_id,
                          tr_last_seen = now\<rparr>]))"

definition route_delete :: "bool \<Rightarrow> string \<Rightarrow> string \<Rightarrow> tunnel_route list \<Rightarrow> (string + bool) \<times> tunnel_route list" where
  "route_delete up slug node_addr t =
     (let p = (\<lambda>r. tr_slug r = slug \<and> tr_node_addr r = node_addr) in
      if \<not> up then (Inl db_down, t) else (Inr (sql_exists p t), sql_delete p t))"

definition route_find_by_slug :: "bool \<Rightarrow> string \<Rightarrow> tunnel_route list \<Rightarrow> string + tunnel_route option" where
  "route_find_by_slug up slug t = (if \<not> up then Inl db_down else Inr (find (\<lambda>r. tr_slug r = slug) t))"

definition route_list_owned :: "bool \<Rightarrow> string \<Rightarrow> tunnel_route list \<Rightarrow> string + tunnel_route list" where
  "route_list_owned up node_addr t =
     (if \<not> up then Inl db_down else Inr (sort_key tr_slug (filter (\<lambda>r. tr_node_addr r = node_addr) t)))"

definition route_touch :: "bool \<Rightarrow> instant \<Rightarrow> string \<Rightarrow> string \<Rightarrow> tunnel_route list \<Rightarrow> (string + bool) \<times> tunnel_route list" where
  "route_touch up now slug node_addr t =
     (let p = (\<lambda>r. tr_slug r = slug \<and> tr_node_addr r = node_addr) in
      if \<not> up then (Inl db_down, t) else (Inr (sql_exists p t), sql_update p (\<lambda>r. r\<lparr>tr_last_seen := now\<rparr>) t))"

definition route_reap_expired :: "bool \<Rightarrow> instant \<Rightarrow> tunnel_route list \<Rightarrow> (string + nat) \<times> tunnel_route list" where
  "route_reap_expired up cutoff t =
     (let p = (\<lambda>r. tr_last_seen r < cutoff) in
      if \<not> up then (Inl db_down, t) else (Inr (sql_count p t), sql_delete p t))"

section \<open>A region\<close>

datatype 's tunnel_stream = LocalStream 's | MeshStream 's

record 's tunnel_region =
  rg_routes :: "tunnel_route list"
  rg_nodes :: "string \<Rightarrow> 's tunnel_stream tunnel_registry"

record 'c mesh_link =
  lk_pki :: "'c pki"
  lk_reachable :: "string \<Rightarrow> string \<Rightarrow> bool"
  lk_certs :: "string \<Rightarrow> 'c list"
  lk_scope :: "string \<Rightarrow> string"

definition on_node ::
  "string \<Rightarrow> ('s tunnel_stream tunnel_registry \<Rightarrow> 's tunnel_stream tunnel_registry) \<Rightarrow> 's tunnel_region \<Rightarrow> 's tunnel_region" where
  "on_node n f g = g\<lparr>rg_nodes := (rg_nodes g)(n := f (rg_nodes g n))\<rparr>"

definition handle_forward :: "bytes \<Rightarrow> 's \<Rightarrow> 's tunnel_stream tunnel_registry \<Rightarrow> 's tunnel_stream tunnel_registry" where
  "handle_forward tls client r =
     (case read_preamble tls of
        (Inl _, _) \<Rightarrow> r
      | (Inr (slug, dest_port), _) \<Rightarrow>
          snd (forward slug \<lparr>fr_stream = MeshStream client, fr_dest_port = dest_port\<rparr> r))"

definition serve_forward_connection ::
  "'c pki \<Rightarrow> string \<Rightarrow> 'c list \<Rightarrow> bytes \<Rightarrow> 's \<Rightarrow> 's tunnel_stream tunnel_registry \<Rightarrow> 's tunnel_stream tunnel_registry" where
  "serve_forward_connection pki own_scope certs tls client r =
     (if forward_admits pki own_scope certs then handle_forward tls client r else r)"

definition mtls_forward ::
  "'c mesh_link \<Rightarrow> string \<Rightarrow> string \<Rightarrow> string \<Rightarrow> u16 \<Rightarrow> 's \<Rightarrow> 's tunnel_region \<Rightarrow> (string + unit) \<times> 's tunnel_region" where
  "mtls_forward lk self node_addr slug dest_port client g =
     (if \<not> lk_reachable lk self node_addr then (Inl ''connection refused'', g)
      else case lk_certs lk node_addr of
        [] \<Rightarrow> (Inl ''no certificate presented'', g)
      | leaf # intermediates \<Rightarrow>
          (case verify_server_cert (lk_pki lk) \<lparr>ep_service = ''tunneller'', ep_scope = lk_scope lk self\<rparr> leaf intermediates of
             Inl e \<Rightarrow> (Inl e, g)
           | Inr _ \<Rightarrow>
               (case write_preamble slug dest_port of
                  Inl e \<Rightarrow> (Inl e, g)
                | Inr preamble \<Rightarrow>
                    (Inr (), on_node node_addr
                       (serve_forward_connection (lk_pki lk) (lk_scope lk node_addr) (lk_certs lk self) preamble client) g))))"

definition local_router_route ::
  "bool \<Rightarrow> 'c mesh_link \<Rightarrow> string \<Rightarrow> string \<Rightarrow> 's \<Rightarrow> u16 \<Rightarrow> 's tunnel_region \<Rightarrow> 's tunnel_region" where
  "local_router_route up lk self slug stream dest_port g =
     (if is_connected slug (rg_nodes g self)
      then on_node self (\<lambda>r. snd (forward slug \<lparr>fr_stream = LocalStream stream, fr_dest_port = dest_port\<rparr> r)) g
      else case route_find_by_slug up slug (rg_routes g) of
        Inr (Some route) \<Rightarrow>
          if tr_node_addr route \<noteq> self
          then snd (mtls_forward lk self (tr_node_addr route) slug dest_port stream g) else g
      | Inr None \<Rightarrow> g
      | Inl _ \<Rightarrow> g)"

datatype demux_outcome = Handled | Failed string | Panicked

definition sni_route ::
  "bool \<Rightarrow> 'c mesh_link \<Rightarrow> string \<Rightarrow> string \<Rightarrow> bytes \<Rightarrow> 's \<Rightarrow> u16 \<Rightarrow> 's tunnel_region \<Rightarrow> demux_outcome \<times> 's tunnel_region" where
  "sni_route up lk self subdomain_dot_suffix received stream dest_port g =
     (case read_required received of
        (Inl e, _) \<Rightarrow> (Failed e, g)
      | (Inr _, rest) \<Rightarrow>
          (case parse_sni (take PEEK_SIZE rest) of
             None \<Rightarrow> (Panicked, g)
           | Some None \<Rightarrow> (Handled, g)
           | Some (Some host) \<Rightarrow>
               (case extract_slug host subdomain_dot_suffix of
                  Some slug \<Rightarrow> (Handled, local_router_route up lk self slug stream dest_port g)
                | None \<Rightarrow> (Handled, g))))"

section \<open>Opening and ending a tunnel\<close>

record resolver =
  rv_network :: "string \<Rightarrow> string + network_view option"
  rv_tenant :: "string \<Rightarrow> string + tenant_view option"

definition get_resource :: "api_error + 'v \<Rightarrow> string + 'v option" where
  "get_resource resp =
     (case resp of
        Inr v \<Rightarrow> Inr (Some v)
      | Inl e \<Rightarrow> if fst (into_response e) = 404 then Inr None
                 else Inl (''Tenants GET returned '' @ show_nat (fst (into_response e))))"

definition tenants_resolver :: "authority \<Rightarrow> resolver" where
  "tenants_resolver w =
     \<lparr>rv_network = (\<lambda>i. get_resource (get_network i w)), rv_tenant = (\<lambda>i. get_resource (get_tenant i w))\<rparr>"

definition sub_inactive :: "tenant_view \<Rightarrow> bool" where
  "sub_inactive t = (case tv_subscription t of None \<Rightarrow> True | Some s \<Rightarrow> \<not> subscription_view_is_active s)"

definition tunnel_connect :: "resolver \<Rightarrow> caller \<Rightarrow> api_error + string \<times> string \<times> string" where
  "tunnel_connect rv caller =
     (case caller of
        DaemonCaller d \<Rightarrow>
          (case dc_network d of
             None \<Rightarrow> Inl (Forbidden ''a network-scoped token is required'')
           | Some network_id \<Rightarrow>
               (case rv_network rv network_id of
                  Inl e \<Rightarrow> Inl (Internal e)
                | Inr None \<Rightarrow> Inl (Forbidden ''network not found'')
                | Inr (Some network) \<Rightarrow>
                    if nv_provisioning_state network = Deprovisioning
                    then Inl (Forbidden ''network is deprovisioning'')
                    else (case rv_tenant rv (nv_tenant_id network) of
                            Inl e \<Rightarrow> Inl (Internal e)
                          | Inr None \<Rightarrow> Inl (Forbidden ''tenant not found'')
                          | Inr (Some tenant) \<Rightarrow>
                              if sub_inactive tenant then Inl (Forbidden ''tenant subscription is not active'')
                              else Inr (nv_slug network, network_id, nv_tenant_id network))))
      | _ \<Rightarrow> Inl (Forbidden ''daemon credential required''))"

definition tunnel_upgraded ::
  "bool \<Rightarrow> instant \<Rightarrow> string \<Rightarrow> string \<times> string \<times> string \<Rightarrow> 's tunnel_region \<Rightarrow> registration option \<times> 's tunnel_region" where
  "tunnel_upgraded up now self target g =
     (case target of (slug, network_id, tenant_id) \<Rightarrow>
        (case route_upsert up now slug self network_id tenant_id (rg_routes g) of
           (Inl e, _) \<Rightarrow> (None, g)
         | (Inr _, t) \<Rightarrow>
             (case register slug (rg_nodes g self) of
                (reg, r) \<Rightarrow> (Some reg, on_node self (\<lambda>_. r) (g\<lparr>rg_routes := t\<rparr>)))))"

definition run_exit :: "bool \<Rightarrow> string \<Rightarrow> string \<Rightarrow> registration \<Rightarrow> 's tunnel_region \<Rightarrow> 's tunnel_region" where
  "run_exit up self slug reg g =
     (case unregister slug (rg_generation reg) (rg_nodes g self) of
        (still_owned, r) \<Rightarrow>
          let g = on_node self (\<lambda>_. r) g;
              g = (if still_owned \<and> \<not> is_cancelled (rg_abort reg) r
                   then g\<lparr>rg_routes := snd (route_delete up slug self (rg_routes g))\<rparr> else g) in
          on_node self (drop_receiver (rg_rx reg)) g)"

section \<open>Reapers\<close>

definition should_abort :: "network_view option \<Rightarrow> tenant_view option \<Rightarrow> bool" where
  "should_abort network tenant =
     (case network of
        None \<Rightarrow> True
      | Some n \<Rightarrow>
          if nv_provisioning_state n = Deprovisioning then True
          else (case tenant of None \<Rightarrow> True | Some t \<Rightarrow> sub_inactive t))"

definition abort_reaper_row ::
  "(string \<Rightarrow> bool) \<Rightarrow> instant \<Rightarrow> resolver \<Rightarrow> string \<Rightarrow> 's tunnel_region \<Rightarrow> tunnel_route \<Rightarrow> 's tunnel_region" where
  "abort_reaper_row up now rv self g row =
     (case rv_network rv (tr_network_id row) of
        Inl e \<Rightarrow> g
      | Inr network \<Rightarrow>
          (case rv_tenant rv (tr_tenant_id row) of
             Inl e \<Rightarrow> g
           | Inr tenant \<Rightarrow>
               if should_abort network tenant
               then let g = on_node self (\<lambda>r. snd (abort (tr_slug row) r)) g in
                    g\<lparr>rg_routes := snd (route_delete (up (tr_slug row)) (tr_slug row) self (rg_routes g))\<rparr>
               else g\<lparr>rg_routes := snd (route_touch (up (tr_slug row)) now (tr_slug row) self (rg_routes g))\<rparr>))"

definition abort_reaper_tick ::
  "bool \<Rightarrow> (string \<Rightarrow> bool) \<Rightarrow> instant \<Rightarrow> resolver \<Rightarrow> string \<Rightarrow> 's tunnel_region \<Rightarrow> 's tunnel_region" where
  "abort_reaper_tick list_up up now rv self g =
     (case route_list_owned list_up self (rg_routes g) of
        Inl e \<Rightarrow> g | Inr rows \<Rightarrow> foldl (abort_reaper_row up now rv self) g rows)"

definition duration_from_std :: "int \<Rightarrow> int" where
  "duration_from_std ttl = (if ttl \<le> (2 ^ 63 - 1) * 1000000 then ttl else 0)"

definition ttl_reaper_tick :: "bool \<Rightarrow> instant \<Rightarrow> int \<Rightarrow> 's tunnel_region \<Rightarrow> 's tunnel_region" where
  "ttl_reaper_tick up now ttl g =
     g\<lparr>rg_routes := snd (route_reap_expired up (now - duration_from_std ttl) (rg_routes g))\<rparr>"

end
