(* ===== verification/Tunneller_Props.thy ===== *)
theory Tunneller_Props
  imports Tunneller
begin

text \<open>
  Properties of the Tunneller service. The routing table keeps its ownership contract (locale
  \<open>owned_rows\<close>); a client connection reaches at most the tunnel registered under the slug of its server
  name, on whichever node that tunnel lives, and does reach it when the route, the peer and the channel
  allow; the endpoint admits exactly the entitled daemons; one pass of the abort reaper tears down exactly
  the decommissioned tunnels of the node. The last section shows the interleaving that leaves a live tunnel
  without a route.
\<close>

section \<open>The ownership contract of the routes\<close>

text \<open>A claim makes its node the owner; a release by anyone but the owner changes nothing.\<close>

locale owned_rows =
  fixes wf :: "'t \<Rightarrow> bool"
    and owner :: "string \<Rightarrow> 't \<Rightarrow> string option"
    and claim :: "string \<Rightarrow> string \<Rightarrow> 't \<Rightarrow> 't"
    and release :: "string \<Rightarrow> string \<Rightarrow> 't \<Rightarrow> 't"
  assumes claim_wf: "wf t \<Longrightarrow> wf (claim slug node t)"
    and release_wf: "wf t \<Longrightarrow> wf (release slug node t)"
    and claim_owner: "wf t \<Longrightarrow> owner s (claim slug node t) = (if s = slug then Some node else owner s t)"
    and release_owner: "wf t \<Longrightarrow>
      owner s (release slug node t) = (if s = slug \<and> owner slug t = Some node then None else owner s t)"
begin

text \<open>What the other nodes do after a claim: they release anything and claim other slugs.\<close>

fun foreign_step :: "string \<Rightarrow> string \<Rightarrow> 't \<Rightarrow> bool \<times> string \<times> string \<Rightarrow> 't" where
  "foreign_step slug node t (True, s, n) = (if s \<noteq> slug then claim s n t else t)"
| "foreign_step slug node t (False, s, n) = (if n \<noteq> node then release s n t else t)"

lemma foreign_step_keeps:
  "wf t \<and> owner slug t = Some node \<Longrightarrow> wf (foreign_step slug node t x) \<and> owner slug (foreign_step slug node t x) = Some node"
  by (cases "(slug, node, t, x)" rule: foreign_step.cases)
    (auto simp: claim_wf release_wf claim_owner release_owner)

lemma claim_survives:
  assumes "wf t" shows "owner slug (foldl (foreign_step slug node) (claim slug node t) xs) = Some node"
proof -
  have "wf (claim slug node t) \<and> owner slug (claim slug node t) = Some node"
    using assms by (simp add: claim_wf claim_owner)
  then have "wf (foldl (foreign_step slug node) (claim slug node t) xs) \<and>
      owner slug (foldl (foreign_step slug node) (claim slug node t) xs) = Some node"
    by (rule foldl_invariant) (rule foreign_step_keeps)
  then show ?thesis by blast
qed

end

definition routes_wf :: "tunnel_route list \<Rightarrow> bool" where
  "routes_wf t = distinct (map tr_slug t)"

definition route_owner :: "string \<Rightarrow> tunnel_route list \<Rightarrow> string option" where
  "route_owner slug t = map_option tr_node_addr (find (\<lambda>r. tr_slug r = slug) t)"

lemma route_upsert_wf: "routes_wf t \<Longrightarrow> routes_wf (snd (route_upsert up now slug node net ten t))"
  by (auto simp: routes_wf_def route_upsert_def map_key_update sql_exists_iff)

lemma route_delete_wf: "routes_wf t \<Longrightarrow> routes_wf (snd (route_delete up slug node t))"
  by (simp add: routes_wf_def route_delete_def Let_def distinct_key_delete)

lemma route_touch_wf: "routes_wf t \<Longrightarrow> routes_wf (snd (route_touch up now slug node t))"
  by (simp add: routes_wf_def route_touch_def Let_def map_key_update)

lemma find_slug_upsert:
  "find (\<lambda>r. tr_slug r = s) (snd (route_upsert True now slug node net ten t)) =
     (if s = slug then Some \<lparr>tr_slug = slug, tr_node_addr = node, tr_network_id = net, tr_tenant_id = ten, tr_last_seen = now\<rparr>
      else find (\<lambda>r. tr_slug r = s) t)"
proof (cases "sql_exists (\<lambda>r. tr_slug r = slug) t")
  case False
  then have "find (\<lambda>r. tr_slug r = slug) t = None" by (simp add: find_None_exists)
  then show ?thesis using False by (simp add: route_upsert_def find_append split: option.splits)
next
  case True
  let ?f = "\<lambda>r. r\<lparr>tr_node_addr := node, tr_network_id := net, tr_tenant_id := ten, tr_last_seen := now\<rparr>"
  have u: "find (\<lambda>r. tr_slug r = s) (sql_update (\<lambda>r. tr_slug r = slug) ?f t) =
      map_option (\<lambda>r. if tr_slug r = slug then ?f r else r) (find (\<lambda>r. tr_slug r = s) t)"
    by (rule find_sql_update_keep) simp
  show ?thesis
  proof (cases "find (\<lambda>r. tr_slug r = s) t")
    case None
    then have "s \<noteq> slug" using True by (auto simp: find_None_exists)
    then show ?thesis using True u None by (simp add: route_upsert_def)
  next
    case (Some q)
    then have q: "tr_slug q = s" using find_Some_D [OF Some] by simp
    then have "?f q = \<lparr>tr_slug = s, tr_node_addr = node, tr_network_id = net, tr_tenant_id = ten, tr_last_seen = now\<rparr>"
      by (cases q) simp
    then show ?thesis using True u Some q by (simp add: route_upsert_def)
  qed
qed

lemma find_slug_delete:
  assumes "routes_wf t"
  shows "find (\<lambda>r. tr_slug r = s) (snd (route_delete True slug node t)) =
    (if s = slug \<and> route_owner slug t = Some node then None else find (\<lambda>r. tr_slug r = s) t)"
proof (cases "s = slug \<and> route_owner slug t = Some node")
  case True
  then obtain q where q: "find (\<lambda>r. tr_slug r = slug) t = Some q" "tr_node_addr q = node"
    by (auto simp: route_owner_def)
  have "r = q" if "r \<in> set t" "tr_slug r = slug" for r
    using distinct_key_find [of tr_slug t r slug] assms that q (1) by (simp add: routes_wf_def)
  then show ?thesis using True q (2) by (auto simp: route_delete_def Let_def find_None_exists sql_exists_iff)
next
  case False
  have "\<not> (tr_slug r = slug \<and> tr_node_addr r = node)" if "r \<in> set t" "tr_slug r = s" for r
    using False that distinct_key_find [of tr_slug t r s] assms by (auto simp: routes_wf_def route_owner_def)
  then have "find (\<lambda>r. tr_slug r = s) (sql_delete (\<lambda>r. tr_slug r = slug \<and> tr_node_addr r = node) t) = find (\<lambda>r. tr_slug r = s) t"
    by (rule find_sql_delete_other)
  then show ?thesis using False by (auto simp: route_delete_def Let_def)
qed

lemma find_slug_touch:
  "find (\<lambda>r. tr_slug r = s) (snd (route_touch True now slug node t)) =
     map_option (\<lambda>r. if tr_slug r = slug \<and> tr_node_addr r = node then r\<lparr>tr_last_seen := now\<rparr> else r)
       (find (\<lambda>r. tr_slug r = s) t)"
  unfolding route_touch_def Let_def by (simp add: find_sql_update_keep)

interpretation routes: owned_rows routes_wf route_owner
  "\<lambda>slug node t. snd (route_upsert True now slug node net ten t)" "\<lambda>slug node t. snd (route_delete True slug node t)"
  for now net ten
  by unfold_locales
    (auto simp: route_upsert_wf route_delete_wf route_owner_def find_slug_upsert find_slug_delete)

section \<open>Where a connection can end up\<close>

text \<open>\<open>g'\<close> is \<open>g\<close> but for at most one request, for this stream and port, appended to a channel that is
  registered under \<open>slug\<close>.\<close>

definition received_by ::
  "'s tunnel_stream forward_request \<Rightarrow> string \<Rightarrow> 's tunnel_stream tunnel_registry \<Rightarrow> 's tunnel_stream tunnel_registry \<Rightarrow> bool" where
  "received_by req slug r r' \<longleftrightarrow>
     r' = r \<or> (\<exists>e. map_of (by_slug r) slug = Some e \<and>
       r' = update_channel (en_tx e) (\<lambda>c. c\<lparr>ch_buffer := ch_buffer c @ [req]\<rparr>) r)"

definition delivered_to :: "string \<Rightarrow> 's \<Rightarrow> u16 \<Rightarrow> 's tunnel_region \<Rightarrow> 's tunnel_region \<Rightarrow> bool" where
  "delivered_to slug stream port g g' \<longleftrightarrow>
     rg_routes g' = rg_routes g \<and>
     (\<exists>n st. st \<in> {LocalStream stream, MeshStream stream} \<and> (\<forall>m. m \<noteq> n \<longrightarrow> rg_nodes g' m = rg_nodes g m) \<and>
        received_by \<lparr>fr_stream = st, fr_dest_port = port\<rparr> slug (rg_nodes g n) (rg_nodes g' n))"

lemma forward_received: "received_by req slug r (snd (forward slug req r))"
  by (auto simp: received_by_def forward_def try_send_def Let_def split: option.splits)

lemma on_node_simps [simp]:
  "rg_routes (on_node n f g) = rg_routes g" "rg_nodes (on_node n f g) = (rg_nodes g)(n := f (rg_nodes g n))"
  by (simp_all add: on_node_def)

lemma delivered_same: "delivered_to slug stream port g g"
  by (auto simp: delivered_to_def received_by_def intro: exI [of _ "[]"])

lemma delivered_on_node:
  "received_by \<lparr>fr_stream = st, fr_dest_port = port\<rparr> slug (rg_nodes g n) (f (rg_nodes g n)) \<Longrightarrow>
    st \<in> {LocalStream stream, MeshStream stream} \<Longrightarrow> delivered_to slug stream port g (on_node n f g)"
  unfolding delivered_to_def by (intro conjI exI [of _ n] exI [of _ st]) simp_all

lemma received_same: "received_by req slug r r"
  by (simp add: received_by_def)

lemma name_char_ascii: "name_char c \<Longrightarrow> byte_of c < 0x80"
proof -
  assume "name_char c"
  then have "of_char c < (128 :: nat)" by (auto simp: name_char_def less_eq_char_def)
  then show ?thesis by (rule byte_of_less)
qed

lemma is_valid_name_utf8: "is_valid_name s \<Longrightarrow> utf8_valid (as_bytes s)"
  by (intro utf8_valid_ascii) (auto simp: as_bytes_def list_all_iff intro!: name_char_ascii dest: is_valid_name_chars)

lemma valid_name_preamble:
  assumes "is_valid_name slug"
  shows "\<exists>p. write_preamble slug port = Inr p \<and> (\<forall>rest. read_preamble (p @ rest) = (Inr (slug, port), rest))"
proof -
  have l: "3 \<le> length slug" "length slug \<le> 32" using is_valid_name_length [OF assms] by simp_all
  then obtain p where p: "write_preamble slug port = Inr p" by (simp add: write_preamble_def MAX_SLUG_LEN_def)
  have "slug \<noteq> []" using l by auto
  then show ?thesis using p preamble_read_back [OF _ is_valid_name_utf8 [OF assms] p] by blast
qed

lemma handle_forward_valid:
  "is_valid_name slug \<Longrightarrow> write_preamble slug port = Inr p \<Longrightarrow>
    handle_forward p client r = snd (forward slug \<lparr>fr_stream = MeshStream client, fr_dest_port = port\<rparr> r)"
  using valid_name_preamble [of slug port] by (auto simp: handle_forward_def dest: spec [of _ "[]"])

lemma mtls_forward_delivered:
  assumes v: "is_valid_name slug" shows "delivered_to slug client port g (snd (mtls_forward lk self node slug port client g))"
proof -
  have "delivered_to slug client port g (on_node node (serve_forward_connection pki scope certs p client) g)"
    if "write_preamble slug port = Inr p" for pki scope certs p
    by (rule delivered_on_node [where st = "MeshStream client"])
      (simp_all add: serve_forward_connection_def handle_forward_valid [OF v that] forward_received received_same)
  then show ?thesis
    by (auto simp: mtls_forward_def delivered_same split: list.splits sum.splits)
qed

lemma local_router_delivered:
  assumes "is_valid_name slug" shows "delivered_to slug stream port g (local_router_route up lk self slug stream port g)"
proof -
  have "delivered_to slug stream port g
      (on_node self (\<lambda>r. snd (forward slug \<lparr>fr_stream = LocalStream stream, fr_dest_port = port\<rparr> r)) g)"
    by (rule delivered_on_node [where st = "LocalStream stream"]) (simp_all add: forward_received)
  then show ?thesis
    using mtls_forward_delivered [OF assms] delivered_same
    by (auto simp: local_router_route_def split: sum.splits option.splits)
qed

section \<open>One pass of the abort reaper\<close>

definition route_at :: "string \<Rightarrow> 's tunnel_region \<Rightarrow> tunnel_route option" where
  "route_at slug g = find (\<lambda>r. tr_slug r = slug) (rg_routes g)"

definition tunnel_at :: "string \<Rightarrow> string \<Rightarrow> 's tunnel_region \<Rightarrow> entry option" where
  "tunnel_at n slug g = map_of (by_slug (rg_nodes g n)) slug"

text \<open>The verdict on a row: \<open>None\<close> when a read of the Tenants service failed.\<close>

definition reaper_verdict :: "resolver \<Rightarrow> tunnel_route \<Rightarrow> bool option" where
  "reaper_verdict rv row =
     (case (rv_network rv (tr_network_id row), rv_tenant rv (tr_tenant_id row)) of
        (Inr network, Inr tenant) \<Rightarrow> Some (should_abort network tenant) | _ \<Rightarrow> None)"

lemma abort_map: "map_of (by_slug (snd (abort slug r))) = (map_of (by_slug r))(slug := None)"
  by (auto simp: abort_def Tunnel_Registry.map_of_delete split: option.splits)

lemma abort_reaper_row_eq:
  "abort_reaper_row (\<lambda>_. True) now rv self g row =
     (case reaper_verdict rv row of
        None \<Rightarrow> g
      | Some True \<Rightarrow> (on_node self (\<lambda>r. snd (abort (tr_slug row) r)) g)
          \<lparr>rg_routes := snd (route_delete True (tr_slug row) self (rg_routes g))\<rparr>
      | Some False \<Rightarrow> g\<lparr>rg_routes := snd (route_touch True now (tr_slug row) self (rg_routes g))\<rparr>)"
  by (simp add: abort_reaper_row_def reaper_verdict_def Let_def split: sum.splits)

definition region_ok :: "string \<Rightarrow> 's tunnel_region \<Rightarrow> bool" where
  "region_ok self g \<longleftrightarrow> routes_wf (rg_routes g) \<and> registry_ok (rg_nodes g self)"

lemma abort_reaper_row_region_ok:
  "region_ok self g \<Longrightarrow> region_ok self (abort_reaper_row (\<lambda>_. True) now rv self g row)"
  by (auto simp: abort_reaper_row_eq region_ok_def route_delete_wf route_touch_wf abort_ok split: option.splits bool.splits)

lemma abort_reaper_row_other:
  assumes "region_ok self g" "s \<noteq> tr_slug row"
  shows "route_at s (abort_reaper_row (\<lambda>_. True) now rv self g row) = route_at s g"
    and "tunnel_at self s (abort_reaper_row (\<lambda>_. True) now rv self g row) = tunnel_at self s g"
proof -
  have k: "map_option (\<lambda>r. if tr_slug r = tr_slug row \<and> tr_node_addr r = self then r\<lparr>tr_last_seen := now\<rparr> else r)
      (find (\<lambda>r. tr_slug r = s) t) = find (\<lambda>r. tr_slug r = s) t" for t
    using assms (2) by (cases "find (\<lambda>r. tr_slug r = s) t") (auto dest: find_Some_D)
  show "route_at s (abort_reaper_row (\<lambda>_. True) now rv self g row) = route_at s g"
    using assms by (auto simp: abort_reaper_row_eq route_at_def region_ok_def find_slug_delete find_slug_touch k
        split: option.splits bool.splits)
  show "tunnel_at self s (abort_reaper_row (\<lambda>_. True) now rv self g row) = tunnel_at self s g"
    using assms (2) by (auto simp: abort_reaper_row_eq tunnel_at_def abort_map split: option.splits bool.splits)
qed

lemma nth_update_True: "xs ! i \<Longrightarrow> xs[j := True] ! i"
  by (cases "i = j"; cases "i < length xs") (auto simp: list_update_beyond)

lemma abort_tokens_mono:
  "is_cancelled i r \<Longrightarrow> is_cancelled i (snd (abort slug r))"
  by (auto simp: is_cancelled_def abort_def nth_update_True split: option.splits)

lemma abort_cancels:
  "registry_ok r \<Longrightarrow> map_of (by_slug r) slug = Some e \<Longrightarrow> is_cancelled (en_abort e) (snd (abort slug r))"
  using registry_okD (3) [of r] registry_okD (4) [of r slug e] by (auto simp: is_cancelled_def abort_def entry_ok_def)

lemma abort_reaper_row_cancel_mono:
  "is_cancelled i (rg_nodes g self) \<Longrightarrow> is_cancelled i (rg_nodes (abort_reaper_row (\<lambda>_. True) now rv self g row) self)"
  by (auto simp: abort_reaper_row_eq abort_tokens_mono split: option.splits bool.splits)

lemma abort_reaper_rows_other:
  assumes "region_ok self g" "s \<notin> tr_slug ` set rows"
  shows "region_ok self (foldl (abort_reaper_row (\<lambda>_. True) now rv self) g rows) \<and>
    route_at s (foldl (abort_reaper_row (\<lambda>_. True) now rv self) g rows) = route_at s g \<and>
    tunnel_at self s (foldl (abort_reaper_row (\<lambda>_. True) now rv self) g rows) = tunnel_at self s g \<and>
    (\<forall>i. is_cancelled i (rg_nodes g self) \<longrightarrow> is_cancelled i (rg_nodes (foldl (abort_reaper_row (\<lambda>_. True) now rv self) g rows) self))"
  using assms
proof (induction rows arbitrary: g)
  case (Cons row rows)
  let ?g = "abort_reaper_row (\<lambda>_. True) now rv self g row"
  have "s \<noteq> tr_slug row" "s \<notin> tr_slug ` set rows" using Cons.prems by auto
  then show ?case
    using Cons.IH [of ?g] abort_reaper_row_region_ok [OF Cons.prems (1), of now rv row]
      abort_reaper_row_other [OF Cons.prems (1), of s row now rv] abort_reaper_row_cancel_mono [of _ g self now rv row]
    by auto
qed simp

lemma owned_rows_distinct:
  assumes "routes_wf t" "route_list_owned True self t = Inr rows"
  shows "distinct (map tr_slug rows)" "r \<in> set rows \<longleftrightarrow> r \<in> set t \<and> tr_node_addr r = self"
proof -
  have r: "rows = sort_key tr_slug (filter (\<lambda>r. tr_node_addr r = self) t)"
    using assms (2) by (simp add: route_list_owned_def)
  have "distinct (map tr_slug (filter (\<lambda>r. tr_node_addr r = self) t))"
    using assms (1) by (simp add: routes_wf_def distinct_map_filter)
  then show "distinct (map tr_slug rows)" by (simp add: r distinct_map)
  show "r \<in> set rows \<longleftrightarrow> r \<in> set t \<and> tr_node_addr r = self" by (auto simp: r)
qed

lemma abort_reaper_tick_owned:
  fixes g :: "'s tunnel_region"
  assumes ok: "region_ok self g" and row: "route_at slug g = Some row" "tr_node_addr row = self"
  obtains a :: "'s tunnel_region" where "region_ok self a" "route_at slug a = Some row" "tunnel_at self slug a = tunnel_at self slug g"
    "route_at slug (abort_reaper_tick True (\<lambda>_. True) now rv self g) =
       route_at slug (abort_reaper_row (\<lambda>_. True) now rv self a row)"
    "tunnel_at self slug (abort_reaper_tick True (\<lambda>_. True) now rv self g) =
       tunnel_at self slug (abort_reaper_row (\<lambda>_. True) now rv self a row)"
    "\<And>i. is_cancelled i (rg_nodes (abort_reaper_row (\<lambda>_. True) now rv self a row) self) \<Longrightarrow>
       is_cancelled i (rg_nodes (abort_reaper_tick True (\<lambda>_. True) now rv self g) self)"
proof -
  let ?F = "foldl (abort_reaper_row (\<lambda>_. True) now rv self)"
  obtain rows where rows: "route_list_owned True self (rg_routes g) = Inr rows" by (simp add: route_list_owned_def)
  have wf: "routes_wf (rg_routes g)" using ok by (simp add: region_ok_def)
  have s: "tr_slug row = slug" "row \<in> set (rg_routes g)"
    using row (1) find_Some_D by (fastforce simp: route_at_def)+
  then have "row \<in> set rows" using owned_rows_distinct (2) [OF wf rows] row (2) by simp
  then obtain xs ys where xy: "rows = xs @ row # ys" by (meson split_list)
  have n: "slug \<notin> tr_slug ` set xs" "slug \<notin> tr_slug ` set ys"
    using owned_rows_distinct (1) [OF wf rows] s (1) by (auto simp: xy)
  note before = abort_reaper_rows_other [OF ok n (1), of now rv]
  define a where "a = ?F g xs"
  have a: "region_ok self a" "route_at slug a = Some row" "tunnel_at self slug a = tunnel_at self slug g"
    using before row (1) by (simp_all add: a_def)
  note after = abort_reaper_rows_other [OF abort_reaper_row_region_ok [OF a (1), of now rv row] n (2), of now rv]
  have "abort_reaper_tick True (\<lambda>_. True) now rv self g = ?F (abort_reaper_row (\<lambda>_. True) now rv self a row) ys"
    by (simp add: abort_reaper_tick_def rows xy a_def)
  then show thesis using that [of a] a after by simp
qed

lemma abort_reaper_tick_foreign:
  assumes ok: "region_ok self g" and "\<And>row. route_at slug g = Some row \<Longrightarrow> tr_node_addr row \<noteq> self"
  shows "route_at slug (abort_reaper_tick True (\<lambda>_. True) now rv self g) = route_at slug g \<and>
    tunnel_at self slug (abort_reaper_tick True (\<lambda>_. True) now rv self g) = tunnel_at self slug g"
proof -
  obtain rows where rows: "route_list_owned True self (rg_routes g) = Inr rows" by (simp add: route_list_owned_def)
  have wf: "routes_wf (rg_routes g)" using ok by (simp add: region_ok_def)
  have "slug \<notin> tr_slug ` set rows"
  proof
    assume "slug \<in> tr_slug ` set rows"
    then obtain r where r: "r \<in> set (rg_routes g)" "tr_slug r = slug" "tr_node_addr r = self"
      using owned_rows_distinct (2) [OF wf rows] by auto
    then have "route_at slug g = Some r"
      using wf distinct_key_find [of tr_slug "rg_routes g" r slug] by (simp add: route_at_def routes_wf_def)
    then show False using assms (2) r (3) by blast
  qed
  then show ?thesis using abort_reaper_rows_other [OF ok, of slug rows now rv] by (simp add: abort_reaper_tick_def rows)
qed

section \<open>Properties\<close>

text \<open>C3. Whatever bytes a client sends to the demultiplexer, it does not panic, the routing table is untouched
  and at most one request is queued, for this connection and port; and then on a channel registered under
  the slug of the server name the client itself sent, on this node or on another one. No connection is
  ever spliced into a tunnel of another slug.\<close>

theorem passthrough_isolated:
  assumes "sni_route up lk self parent received stream port g = (res, g')"
  shows "res \<noteq> Panicked \<and>
    (g' = g \<or>
     (\<exists>host slug. parse_sni (take PEEK_SIZE (snd (read_required received))) = Some (Some host) \<and>
        extract_slug host parent = Some slug \<and> delivered_to slug stream port g g'))"
proof (cases "read_required received")
  case (Pair hd rest)
  show ?thesis
  proof (cases hd)
    case (Inl e)
    then show ?thesis using assms Pair by (auto simp: sni_route_def)
  next
    case (Inr addr)
    obtain r where r: "parse_sni (take PEEK_SIZE rest) = Some r" using parse_sni_total by blast
    show ?thesis
    proof (cases "\<exists>host slug. r = Some host \<and> extract_slug host parent = Some slug")
      case True
      then obtain host slug where h: "r = Some host" "extract_slug host parent = Some slug" by blast
      then have "is_valid_name slug" by (simp add: extract_slug_iff)
      then show ?thesis
        using assms Pair Inr r h local_router_delivered [of slug stream port g up lk self] by (auto simp: sni_route_def)
    next
      case False
      then show ?thesis using assms Pair Inr r by (auto simp: sni_route_def split: option.splits)
    qed
  qed
qed

definition node_certified :: "'c mesh_link \<Rightarrow> string \<Rightarrow> string \<Rightarrow> bool" where
  "node_certified lk scope n \<longleftrightarrow> lk_scope lk n = scope \<and>
     (\<exists>leaf chain i. lk_certs lk n = leaf # chain \<and> chain_valid (lk_pki lk) leaf chain \<and>
        from_cert (lk_pki lk) leaf = Inr i \<and> sp_service i = ''tunneller'' \<and> sp_scope i = scope)"

lemma node_certified_admitted: "node_certified lk scope n \<Longrightarrow> forward_admits (lk_pki lk) scope (lk_certs lk n)"
  by (auto simp: node_certified_def forward_admits_def peer_spiffe_id_def peer_allowed_on_forward_def)

lemma node_certified_verified:
  "node_certified lk scope n \<Longrightarrow> \<exists>leaf chain. lk_certs lk n = leaf # chain \<and>
     verify_server_cert (lk_pki lk) \<lparr>ep_service = ''tunneller'', ep_scope = scope\<rparr> leaf chain = Inr ()"
  unfolding node_certified_def by (elim conjE exE, intro exI conjI, assumption) (simp add: verify_server_cert_def)

lemma mtls_forward_between_certified:
  assumes "is_valid_name slug" "lk_reachable lk self node" "node_certified lk scope self" "node_certified lk scope node"
  shows "mtls_forward lk self node slug port client g =
    (Inr (), on_node node (\<lambda>r. snd (forward slug \<lparr>fr_stream = MeshStream client, fr_dest_port = port\<rparr> r)) g)"
proof -
  obtain leaf chain where v: "lk_certs lk node = leaf # chain"
      "verify_server_cert (lk_pki lk) \<lparr>ep_service = ''tunneller'', ep_scope = scope\<rparr> leaf chain = Inr ()"
    using node_certified_verified [OF assms (4)] by blast
  obtain p where p: "write_preamble slug port = Inr p" using valid_name_preamble [OF assms (1)] by blast
  have "serve_forward_connection (lk_pki lk) scope (lk_certs lk self) p client =
      (\<lambda>r. snd (forward slug \<lparr>fr_stream = MeshStream client, fr_dest_port = port\<rparr> r))"
    using node_certified_admitted [OF assms (3)] handle_forward_valid [OF assms (1) p]
    by (intro ext) (simp add: serve_forward_connection_def)
  moreover have "lk_scope lk self = scope" "lk_scope lk node = scope"
    using assms (3, 4) by (simp_all add: node_certified_def)
  ultimately show ?thesis using assms (2) v p by (simp add: mtls_forward_def)
qed


definition ex_link :: "string mesh_link" where
  "ex_link = \<lparr>lk_pki = \<lparr>x509_names = (\<lambda>u. Inr (Some [URI u])), chain_valid = (\<lambda>_ _. True)\<rparr>, lk_reachable = (\<lambda>_ _. True),
     lk_certs = (\<lambda>_. [''spiffe://w/p/eu/tunneller'']), lk_scope = (\<lambda>_. ''eu'')\<rparr>"

definition ex_tunnels :: "nat tunnel_region" where
  "ex_tunnels = \<lparr>rg_routes = [\<lparr>tr_slug = ''alice'', tr_node_addr = ''n2'', tr_network_id = ''net1'', tr_tenant_id = ''t1'', tr_last_seen = 0\<rparr>],
     rg_nodes = (\<lambda>_. registry_new)(''n2'' := snd (register ''alice'' registry_new))\<rparr>"

lemma ex_link_certified: "node_certified ex_link ''eu'' n"
proof -
  let ?i = "\<lparr>sp_trust_domain = ''w'', sp_env = ''p'', sp_scope = ''eu'', sp_service = ''tunneller''\<rparr>"
  have "spiffe_parse ''spiffe://w/p/eu/tunneller'' = Inr ?i"
    by (simp add: spiffe_parse_iff spiffe_uri_def spiffe_segments_def)
  then show ?thesis
    unfolding node_certified_def
    by (intro conjI exI [of _ "''spiffe://w/p/eu/tunneller''"] exI [of _ "[]"] exI [of _ ?i])
      (simp_all add: ex_link_def from_cert_def)
qed

lemma ex_name_valid: "is_valid_name ''alice''"
  by (simp add: is_valid_name_def name_char_def RESERVED_NAMES_def starts_with_def ends_with_def less_eq_char_def)

lemma ex_slug: "extract_slug ''box.alice.my.dev'' ''.my.dev'' = Some ''alice''"
  unfolding extract_slug_iff using ex_name_valid by (auto intro: exI [of _ "''box''"])


theorem passthrough_isolated_witness:
  "\<exists>res g'. sni_route True ex_link ''n1'' ''.my.dev'' [1, 2, 3] (42 :: nat) 443 ex_tunnels = (res, g') \<and> res \<noteq> Panicked \<and> g' = ex_tunnels"
proof -
  obtain res g' where s: "sni_route True ex_link ''n1'' ''.my.dev'' [1, 2, 3] (42 :: nat) 443 ex_tunnels = (res, g')"
    by (cases "sni_route True ex_link ''n1'' ''.my.dev'' [1, 2, 3] (42 :: nat) 443 ex_tunnels") blast
  have "fst (read_required [1, 2, 3]) = Inl ''early eof''"
    by (simp add: read_required_def CRLF_def MAX_HEADER_LEN_def Let_def suffix_def)
  then have "g' = ex_tunnels" using s by (auto simp: sni_route_def split: prod.splits)
  then show ?thesis using passthrough_isolated [OF s] s by blast
qed

text \<open>The tunnel endpoint, reading the Tenants service, opens a tunnel exactly for a daemon whose token is scoped to a
  network that exists and is not being deprovisioned and whose tenant exists and has a live subscription; the
  tunnel is then the one of that network's slug.\<close>

theorem tunnel_connect_entitled:
  "tunnel_connect (tenants_resolver w) caller = Inr (slug, nid, tid) \<longleftrightarrow>
     (\<exists>d n. caller = DaemonCaller d \<and> dc_network d = Some nid \<and> network_find_by_id nid (adb w) = Some n \<and>
        n_provisioning_state n \<noteq> Deprovisioning \<and> n_slug n = slug \<and> n_tenant_id n = tid \<and>
        tenant_find_by_id tid (adb w) \<noteq> None \<and> find_current tid (adb w) \<noteq> None)"
proof -
  have net: "rv_network (tenants_resolver w) i = Inr (map_option network_view_of (network_find_by_id i (adb w)))" for i
    by (simp add: tenants_resolver_def get_resource_def get_network_def find_network_def split: option.splits)
  have ten: "rv_tenant (tenants_resolver w) i = Inr (map_option (\<lambda>t. tenant_view_of t (port_current i w)) (tenant_find_by_id i (adb w)))" for i
    by (simp add: tenants_resolver_def get_resource_def get_tenant_def find_tenant_def split: option.splits)
  have "s_status s \<noteq> Canceled" if "find_current i (adb w) = Some s" for i s
    using find_Some_D [OF that [unfolded find_current_def]] by (simp add: live_of_def sub_live_def)
  then have sub: "sub_inactive (tenant_view_of t (port_current i w)) \<longleftrightarrow> find_current i (adb w) = None" for t i
    by (auto simp: sub_inactive_def tenant_view_of_def port_current_def subscription_view_is_active_def
        subscription_view_of_def split: option.splits)
  show ?thesis
    by (cases caller)
      (auto simp: tunnel_connect_def net ten sub network_view_of_def split: option.splits if_splits)
qed

text \<open>One pass of the abort reaper on a node decides every row of the table exactly as specified: a row of
  another node, or one whose reads failed, is untouched and the tunnel stays; a row of this node whose network or
  subscription is gone is deleted, the tunnel unregistered and its handler told to stop; any other row of this node
  gets a new heartbeat and its tunnel stays.\<close>

theorem abort_reaper_tick_exact:
  fixes g :: "'s tunnel_region"
  assumes ok: "region_ok self g" and row: "route_at slug g = Some row"
    and g': "g' = abort_reaper_tick True (\<lambda>_. True) now rv self g"
  shows "if tr_node_addr row \<noteq> self \<or> reaper_verdict rv row = None
     then route_at slug g' = Some row \<and> tunnel_at self slug g' = tunnel_at self slug g
     else if reaper_verdict rv row = Some True
     then route_at slug g' = None \<and> tunnel_at self slug g' = None \<and>
       (\<forall>e. tunnel_at self slug g = Some e \<longrightarrow> is_cancelled (en_abort e) (rg_nodes g' self))
     else route_at slug g' = Some (row\<lparr>tr_last_seen := now\<rparr>) \<and> tunnel_at self slug g' = tunnel_at self slug g"
proof (cases "tr_node_addr row = self")
  case False
  then show ?thesis using abort_reaper_tick_foreign [OF ok, of slug now rv] row unfolding g' by simp
next
  case own: True
  have s: "tr_slug row = slug" using row find_Some_D by (fastforce simp: route_at_def)
  obtain a :: "'s tunnel_region" where a: "region_ok self a"
    "route_at slug a = Some row" "tunnel_at self slug a = tunnel_at self slug g"
    "route_at slug g' = route_at slug (abort_reaper_row (\<lambda>_. True) now rv self a row)"
    "tunnel_at self slug g' = tunnel_at self slug (abort_reaper_row (\<lambda>_. True) now rv self a row)"
    "\<And>i. is_cancelled i (rg_nodes (abort_reaper_row (\<lambda>_. True) now rv self a row) self) \<Longrightarrow> is_cancelled i (rg_nodes g' self)"
    by (rule abort_reaper_tick_owned [OF ok row own, of now rv, folded g']) (rule that)
  have wf: "routes_wf (rg_routes a)" "registry_ok (rg_nodes a self)" using a (1) by (simp_all add: region_ok_def)
  consider "reaper_verdict rv row = None" | "reaper_verdict rv row = Some True" | "reaper_verdict rv row = Some False" by fastforce
  then show ?thesis
  proof cases
    case 1 then show ?thesis using a (2-5) own by (simp add: abort_reaper_row_eq)
  next
    case 2
    have "route_owner slug (rg_routes a) = Some self" using a (2) own by (simp add: route_owner_def route_at_def)
    then have "route_at slug g' = None" "tunnel_at self slug g' = None"
      using a (4, 5) 2 s wf by (simp_all add: abort_reaper_row_eq find_slug_delete route_at_def tunnel_at_def abort_map)
    moreover have "is_cancelled (en_abort e) (rg_nodes g' self)" if "tunnel_at self slug g = Some e" for e
      using a (3, 6) that 2 s abort_cancels [OF wf (2), of slug e] by (simp add: abort_reaper_row_eq tunnel_at_def)
    ultimately show ?thesis using 2 own by simp
  next
    case 3
    then show ?thesis
      using a (2-5) own s by (simp add: abort_reaper_row_eq route_at_def find_slug_touch tunnel_at_def)
  qed
qed

definition ex_gone :: resolver where
  "ex_gone = \<lparr>rv_network = (\<lambda>_. Inr None), rv_tenant = (\<lambda>_. Inr None)\<rparr>"

lemma ex_tunnels_ok: "region_ok ''n2'' ex_tunnels"
  using register_ok [OF registry_new_ok] by (simp add: region_ok_def ex_tunnels_def routes_wf_def)

theorem abort_reaper_tick_exact_witness:
  "route_at ''alice'' (abort_reaper_tick True (\<lambda>_. True) 9 ex_gone ''n2'' ex_tunnels) = None \<and>
   is_cancelled 0 (rg_nodes (abort_reaper_tick True (\<lambda>_. True) 9 ex_gone ''n2'' ex_tunnels) ''n2'')"
proof -
  let ?row = "\<lparr>tr_slug = ''alice'', tr_node_addr = ''n2'', tr_network_id = ''net1'', tr_tenant_id = ''t1'', tr_last_seen = 0\<rparr>"
  have r: "route_at ''alice'' ex_tunnels = Some ?row" by (simp add: route_at_def ex_tunnels_def)
  have e: "tunnel_at ''n2'' ''alice'' ex_tunnels = Some \<lparr>en_tx = 0, en_abort = 0, en_generation = 0\<rparr>"
    by (simp add: tunnel_at_def ex_tunnels_def register_def registry_new_def Let_def)
  have v: "reaper_verdict ex_gone ?row = Some True" by (simp add: reaper_verdict_def ex_gone_def should_abort_def)
  show ?thesis using abort_reaper_tick_exact [OF ex_tunnels_ok r refl, where now = 9 and rv = ex_gone] e v by simp
qed

lemma abort_reaper_tick_region_ok:
  "region_ok self g \<Longrightarrow> region_ok self (abort_reaper_tick True (\<lambda>_. True) now rv self g)"
  unfolding abort_reaper_tick_def
  by (auto split: sum.splits intro!: foldl_invariant [where I = "region_ok self"] abort_reaper_row_region_ok)

definition reaper_passes :: "string \<Rightarrow> 's tunnel_region \<Rightarrow> (instant \<times> resolver) list \<Rightarrow> 's tunnel_region" where
  "reaper_passes self = foldl (\<lambda>g (now, rv). abort_reaper_tick True (\<lambda>_. True) now rv self g)"

lemma abort_reaper_ticks_unrouted:
  assumes "region_ok self g" "route_at slug g = None"
  shows "route_at slug (reaper_passes self g ticks) = None \<and>
    tunnel_at self slug (reaper_passes self g ticks) = tunnel_at self slug g"
  using assms
proof (induction ticks arbitrary: g)
  case (Cons x ticks)
  obtain now rv where x: "x = (now, rv)" by (cases x)
  show ?case
    using Cons.IH [OF abort_reaper_tick_region_ok [OF Cons.prems (1), of now rv]]
      abort_reaper_tick_foreign [OF Cons.prems (1), of slug now rv] Cons.prems (2) by (simp add: x reaper_passes_def)
qed (simp add: reaper_passes_def)

text \<open>The interleaving of a reconnect with the clean exit of the previous handler: the new connection claims the
  row, the old handler then finds itself still registered, unregisters and deletes the row (its guard compares the
  node only), and the new connection registers.\<close>

definition reconnect_race ::
  "instant \<Rightarrow> instant \<Rightarrow> string \<Rightarrow> string \<times> string \<times> string \<Rightarrow> 's tunnel_region" where
  "reconnect_race now now' self target =
     (case tunnel_upgraded True now self target \<lparr>rg_routes = [], rg_nodes = (\<lambda>_. registry_new)\<rparr> of
        (Some reg, g1) \<Rightarrow>
          let g2 = g1\<lparr>rg_routes := snd (route_upsert True now' (fst target) self (fst (snd target)) (snd (snd target)) (rg_routes g1))\<rparr>;
              g3 = run_exit True self (fst target) reg g2 in
          on_node self (\<lambda>r. snd (register (fst target) r)) g3
      | (None, g1) \<Rightarrow> g1)"

lemma reconnect_race_result:
  "route_at slug (reconnect_race now now' self (slug, net, ten) :: 's tunnel_region) = None"
  "is_connected slug (rg_nodes (reconnect_race now now' self (slug, net, ten) :: 's tunnel_region) self)"
  by (simp_all add: reconnect_race_def tunnel_upgraded_def route_upsert_def run_exit_def unregister_def register_def
      registry_new_def drop_sender_def drop_receiver_def update_channel_def is_cancelled_def route_delete_def route_at_def
      is_connected_def Let_def on_node_def new_channel_def split: option.splits)

lemma reconnect_race_ok: "region_ok self (reconnect_race now now' self target :: 's tunnel_region)"
proof -
  let ?g = "reconnect_race now now' self target :: 's tunnel_region"
  obtain slug net ten where t: "target = (slug, net, ten)" by (cases target)
  have r: "registry_ok (snd (register slug registry_new) :: 's tunnel_stream tunnel_registry)" using register_ok [OF registry_new_ok] .
  have "rg_routes ?g = []"
    by (simp add: t reconnect_race_def tunnel_upgraded_def route_upsert_def run_exit_def unregister_def register_def
        registry_new_def drop_sender_def drop_receiver_def update_channel_def is_cancelled_def route_delete_def
        Let_def on_node_def new_channel_def split: option.splits)
  moreover have "rg_nodes ?g self =
      snd (register slug (drop_receiver 0 (snd (unregister slug 0 (snd (register slug registry_new))))))"
    by (simp add: t reconnect_race_def tunnel_upgraded_def route_upsert_def run_exit_def unregister_def register_def
        registry_new_def drop_sender_def drop_receiver_def update_channel_def is_cancelled_def Let_def on_node_def)
  ultimately show ?thesis
    using r by (simp add: region_ok_def routes_wf_def register_ok drop_receiver_ok unregister_ok)
qed

text \<open>C39. After that interleaving the daemon's tunnel is registered on the node but the region has no route to it. No
  later pass of the node's reaper brings the route back, since a heartbeat only updates existing rows, and none of
  them tears the tunnel down either, whatever becomes of the network and the subscription, since the reaper only
  looks at rows.\<close>

theorem reconnect_race_orphans_tunnel:
  "route_at slug (reaper_passes self (reconnect_race now now' self (slug, net, ten) :: 's tunnel_region) ticks) = None \<and>
   is_connected slug (rg_nodes (reaper_passes self (reconnect_race now now' self (slug, net, ten) :: 's tunnel_region) ticks) self)"
proof -
  let ?g = "reconnect_race now now' self (slug, net, ten) :: 's tunnel_region"
  have "is_connected slug (rg_nodes ?g self)" by (rule reconnect_race_result (2))
  moreover have "route_at slug (reaper_passes self ?g ticks) = None \<and> tunnel_at self slug (reaper_passes self ?g ticks) = tunnel_at self slug ?g"
    by (rule abort_reaper_ticks_unrouted [OF reconnect_race_ok reconnect_race_result (1)])
  ultimately show ?thesis by (simp add: is_connected_def tunnel_at_def)
qed

end
