(* ===== verification/Rotation.thy ===== *)
theory Rotation
  imports Mesh
begin

text \<open>
  The TLS material of a mesh service and its rotation (\<open>common/src/mtls/mod.rs\<close>, \<open>tunneller/src/mesh/forward.rs\<close>,
  the \<open>main.rs\<close> of the deployables): the configurations built from the leaf, key and bundle files, the
  holders that swap them, the watcher that compares file contents, and the set-up of a Tunneller node.
  PEM parsing, rustls' own checks, reqwest and SHA-256 are the fields of \<open>tls_libs\<close>. A pass over the files is
  the function from a path to what reading it gives at that moment.

  The locale \<open>hot_reload\<close> is the contract of a holder: a reload that fails changes nothing, one that succeeds
  swaps the material, and the pinned peer stays. The three holders of the code interpret it. The
  theorems: whatever happens to the files, a node only ever talks to the peers it pinned at boot, under
  anchors it once read in full; a rotation that is seen in full takes effect; and a reload that fails
  is not tried again while the files stay as they are.
\<close>

section \<open>Building the configurations\<close>

record ('c, 'k) tls_libs =
  lib_pem_certs :: "bytes \<Rightarrow> (string + 'c) list"
  lib_pem_key :: "bytes \<Rightarrow> string + 'k option"
  lib_anchor :: "'c \<Rightarrow> string + unit"
  lib_client_verifier :: "'c list \<Rightarrow> string + unit"
  lib_single_cert :: "'c list \<Rightarrow> 'k \<Rightarrow> string + unit"
  lib_client_auth :: "'c list \<Rightarrow> 'k \<Rightarrow> string + unit"
  lib_provider :: bool
  lib_http_client :: "string + unit"
  lib_names :: "'c \<Rightarrow> string + general_name list option"
  lib_anchored :: "'c list \<Rightarrow> 'c \<Rightarrow> 'c list \<Rightarrow> bool"
  lib_sha256 :: "bytes \<Rightarrow> bytes"

definition bind_result :: "'e + 'a \<Rightarrow> ('a \<Rightarrow> 'e + 'b) \<Rightarrow> 'e + 'b" where
  "bind_result r f = (case r of Inl e \<Rightarrow> Inl e | Inr x \<Rightarrow> f x)"

definition map_err :: "('e \<Rightarrow> 'f) \<Rightarrow> 'e + 'a \<Rightarrow> 'f + 'a" where
  "map_err f r = (case r of Inl e \<Rightarrow> Inl (f e) | Inr x \<Rightarrow> Inr x)"

definition ok_or :: "'e \<Rightarrow> 'a option \<Rightarrow> 'e + 'a" where
  "ok_or e x = (case x of None \<Rightarrow> Inl e | Some y \<Rightarrow> Inr y)"

fun collect_results :: "('e + 'a) list \<Rightarrow> 'e + 'a list" where
  "collect_results [] = Inr []"
| "collect_results (r # rs) = bind_result r (\<lambda>x. bind_result (collect_results rs) (\<lambda>xs. Inr (x # xs)))"

fun add_anchors :: "('c, 'k) tls_libs \<Rightarrow> 'c list \<Rightarrow> string + unit" where
  "add_anchors lib [] = Inr ()"
| "add_anchors lib (c # cs) =
     bind_result (map_err (\<lambda>e. ''invalid trust bundle certificate: '' @ e) (lib_anchor lib c)) (\<lambda>_. add_anchors lib cs)"

definition root_store_from_pem :: "('c, 'k) tls_libs \<Rightarrow> bytes \<Rightarrow> string + 'c list" where
  "root_store_from_pem lib pem =
     bind_result (map_err (\<lambda>e. ''failed to parse trust bundle PEM: '' @ e) (collect_results (lib_pem_certs lib pem))) (\<lambda>certs.
       if certs = [] then Inl ''trust bundle PEM contained no certificates''
       else bind_result (add_anchors lib certs) (\<lambda>_. Inr certs))"

definition client_verifier_from_pem :: "('c, 'k) tls_libs \<Rightarrow> bytes \<Rightarrow> string + 'c list" where
  "client_verifier_from_pem lib trust_bundle_pem =
     bind_result (root_store_from_pem lib trust_bundle_pem) (\<lambda>roots.
       bind_result (map_err (\<lambda>e. ''failed to build mTLS client verifier: '' @ e) (lib_client_verifier lib roots))
         (\<lambda>_. Inr roots))"

record ('c, 'k) server_config =
  sc_roots :: "'c list"
  sc_certs :: "'c list"
  sc_key :: 'k

definition server_config_from_pem :: "('c, 'k) tls_libs \<Rightarrow> bytes \<Rightarrow> bytes \<Rightarrow> bytes \<Rightarrow> string + ('c, 'k) server_config" where
  "server_config_from_pem lib cert_pem key_pem bundle_pem =
     bind_result (client_verifier_from_pem lib bundle_pem) (\<lambda>roots.
     bind_result (map_err (\<lambda>e. ''failed to parse server certificate PEM: '' @ e) (collect_results (lib_pem_certs lib cert_pem))) (\<lambda>certs.
     if certs = [] then Inl ''mesh server certificate PEM contained no certificates''
     else bind_result (map_err (\<lambda>e. ''failed to parse server key PEM: '' @ e) (lib_pem_key lib key_pem)) (\<lambda>k.
     bind_result (ok_or ''server key PEM contained no private key'' k) (\<lambda>k.
     bind_result (map_err (\<lambda>e. ''failed to build mesh server config: '' @ e) (lib_single_cert lib certs k)) (\<lambda>_.
     Inr \<lparr>sc_roots = roots, sc_certs = certs, sc_key = k\<rparr>)))))"

definition pki_of :: "('c, 'k) tls_libs \<Rightarrow> 'c list \<Rightarrow> 'c pki" where
  "pki_of lib anchors = \<lparr>x509_names = lib_names lib, chain_valid = lib_anchored lib anchors\<rparr>"

definition own_spiffe_id :: "('c, 'k) tls_libs \<Rightarrow> bytes \<Rightarrow> string + spiffe_id" where
  "own_spiffe_id lib leaf_cert_pem =
     (case lib_pem_certs lib leaf_cert_pem of
        [] \<Rightarrow> Inl ''leaf certificate PEM contained no certificates''
      | r # _ \<Rightarrow> bind_result (map_err (\<lambda>e. ''failed to parse leaf certificate PEM: '' @ e) r) (from_cert (pki_of lib [])))"

record ('c, 'k) client_config =
  cc_roots :: "'c list"
  cc_expected :: expected_peer
  cc_certs :: "'c list"
  cc_key :: 'k

definition client_config_from_pem ::
  "('c, 'k) tls_libs \<Rightarrow> expected_peer \<Rightarrow> bytes \<Rightarrow> bytes \<Rightarrow> bytes \<Rightarrow> string + ('c, 'k) client_config" where
  "client_config_from_pem lib expected cert_pem key_pem bundle_pem =
     bind_result (root_store_from_pem lib bundle_pem) (\<lambda>roots.
     if \<not> lib_provider lib then Inl ''no default rustls crypto provider installed''
     else bind_result (map_err (\<lambda>e. ''failed to parse mesh leaf certificate PEM: '' @ e) (collect_results (lib_pem_certs lib cert_pem))) (\<lambda>certs.
     if certs = [] then Inl ''mesh leaf certificate PEM contained no certificates''
     else bind_result (map_err (\<lambda>e. ''failed to parse mesh leaf key PEM: '' @ e) (lib_pem_key lib key_pem)) (\<lambda>k.
     bind_result (ok_or ''mesh leaf key PEM contained no private key'' k) (\<lambda>k.
     bind_result (map_err (\<lambda>e. ''failed to build mesh client config: '' @ e) (lib_client_auth lib certs k)) (\<lambda>_.
     Inr \<lparr>cc_roots = roots, cc_expected = expected, cc_certs = certs, cc_key = k\<rparr>)))))"

definition mesh_client ::
  "('c, 'k) tls_libs \<Rightarrow> expected_peer \<Rightarrow> bytes \<Rightarrow> bytes \<Rightarrow> bytes \<Rightarrow> string + ('c, 'k) client_config" where
  "mesh_client lib expected leaf key bundle =
     bind_result (client_config_from_pem lib expected leaf key bundle) (\<lambda>config.
       bind_result (map_err (\<lambda>e. ''failed to build mTLS reqwest client: '' @ e) (lib_http_client lib)) (\<lambda>_. Inr config))"

section \<open>The holders\<close>

record ('c, 'k) mesh_client_holder =
  mc_client :: "('c, 'k) client_config"
  mc_expected :: expected_peer

definition mesh_client_new ::
  "('c, 'k) tls_libs \<Rightarrow> bytes \<Rightarrow> bytes \<Rightarrow> bytes \<Rightarrow> expected_peer \<Rightarrow> string + ('c, 'k) mesh_client_holder" where
  "mesh_client_new lib leaf key bundle expected =
     bind_result (mesh_client lib expected leaf key bundle) (\<lambda>c. Inr \<lparr>mc_client = c, mc_expected = expected\<rparr>)"

definition mesh_client_reload ::
  "('c, 'k) tls_libs \<Rightarrow> bytes \<Rightarrow> bytes \<Rightarrow> bytes \<Rightarrow> ('c, 'k) mesh_client_holder
    \<Rightarrow> (string + unit) \<times> ('c, 'k) mesh_client_holder" where
  "mesh_client_reload lib leaf key bundle h =
     (case mesh_client lib (mc_expected h) leaf key bundle of
        Inl e \<Rightarrow> (Inl e, h) | Inr c \<Rightarrow> (Inr (), h\<lparr>mc_client := c\<rparr>))"

record ('c, 'k) reloadable_server_config =
  rs_config :: "('c, 'k) server_config"

definition server_new ::
  "('c, 'k) tls_libs \<Rightarrow> bytes \<Rightarrow> bytes \<Rightarrow> bytes \<Rightarrow> string + ('c, 'k) reloadable_server_config" where
  "server_new lib leaf key bundle =
     bind_result (server_config_from_pem lib leaf key bundle) (\<lambda>c. Inr \<lparr>rs_config = c\<rparr>)"

definition server_reload ::
  "('c, 'k) tls_libs \<Rightarrow> bytes \<Rightarrow> bytes \<Rightarrow> bytes \<Rightarrow> ('c, 'k) reloadable_server_config
    \<Rightarrow> (string + unit) \<times> ('c, 'k) reloadable_server_config" where
  "server_reload lib leaf key bundle h =
     (case server_config_from_pem lib leaf key bundle of
        Inl e \<Rightarrow> (Inl e, h) | Inr c \<Rightarrow> (Inr (), h\<lparr>rs_config := c\<rparr>))"

record ('c, 'k) mtls_forwarder =
  fw_connector :: "('c, 'k) client_config"
  fw_expected :: expected_peer

definition build_connector ::
  "('c, 'k) tls_libs \<Rightarrow> bytes \<Rightarrow> bytes \<Rightarrow> bytes \<Rightarrow> expected_peer \<Rightarrow> string + ('c, 'k) client_config" where
  "build_connector lib leaf key bundle expected = client_config_from_pem lib expected leaf key bundle"

definition forwarder_new ::
  "('c, 'k) tls_libs \<Rightarrow> bytes \<Rightarrow> bytes \<Rightarrow> bytes \<Rightarrow> expected_peer \<Rightarrow> string + ('c, 'k) mtls_forwarder" where
  "forwarder_new lib leaf key bundle expected =
     bind_result (build_connector lib leaf key bundle expected) (\<lambda>c. Inr \<lparr>fw_connector = c, fw_expected = expected\<rparr>)"

definition forwarder_reload ::
  "('c, 'k) tls_libs \<Rightarrow> bytes \<Rightarrow> bytes \<Rightarrow> bytes \<Rightarrow> ('c, 'k) mtls_forwarder
    \<Rightarrow> (string + unit) \<times> ('c, 'k) mtls_forwarder" where
  "forwarder_reload lib leaf key bundle h =
     (case build_connector lib leaf key bundle (fw_expected h) of
        Inl e \<Rightarrow> (Inl e, h) | Inr c \<Rightarrow> (Inr (), h\<lparr>fw_connector := c\<rparr>))"

section \<open>The watcher\<close>

type_synonym file_pass = "string \<Rightarrow> string + bytes"

definition u64_to_le_bytes :: "u64 \<Rightarrow> bytes" where
  "u64_to_le_bytes n = map (\<lambda>i. ucast (drop_bit (8 * i) n)) [0..<8]"

definition read_or_default :: "file_pass \<Rightarrow> string \<Rightarrow> bytes" where
  "read_or_default read p = (case read p of Inl _ \<Rightarrow> [] | Inr bs \<Rightarrow> bs)"

definition files_digest :: "(bytes \<Rightarrow> bytes) \<Rightarrow> string list \<Rightarrow> file_pass \<Rightarrow> bytes" where
  "files_digest sha paths read =
     sha (concat (map (\<lambda>p. let bs = read_or_default read p in u64_to_le_bytes (of_nat (length bs)) @ bs) paths))"

datatype watch_event =
    WatchError string
  | FilesTouched file_pass file_pass

fun watch_step ::
  "(bytes \<Rightarrow> bytes) \<Rightarrow> string list \<Rightarrow> (file_pass \<Rightarrow> 's \<Rightarrow> 's) \<Rightarrow> watch_event \<Rightarrow> bytes \<times> 's \<Rightarrow> bytes \<times> 's" where
  "watch_step sha paths on_change (WatchError e) (last_digest, s) = (last_digest, s)"
| "watch_step sha paths on_change (FilesTouched digested reread) (last_digest, s) =
     (let digest = files_digest sha paths digested in
      if digest \<noteq> last_digest then (digest, on_change reread s) else (last_digest, s))"

definition watch_run ::
  "(bytes \<Rightarrow> bytes) \<Rightarrow> string list \<Rightarrow> (file_pass \<Rightarrow> 's \<Rightarrow> 's) \<Rightarrow> watch_event list \<Rightarrow> bytes \<times> 's \<Rightarrow> bytes \<times> 's" where
  "watch_run sha paths on_change evs st = fold (watch_step sha paths on_change) evs st"

record mesh_paths =
  leaf_cert_path :: string
  leaf_key_path :: string
  trust_bundle_path :: string

definition watched :: "mesh_paths \<Rightarrow> string list" where
  "watched ps = [leaf_cert_path ps, leaf_key_path ps, trust_bundle_path ps]"

definition read_three :: "mesh_paths \<Rightarrow> file_pass \<Rightarrow> (bytes \<times> bytes \<times> bytes) option" where
  "read_three ps read =
     (case (read (leaf_cert_path ps), read (leaf_key_path ps), read (trust_bundle_path ps)) of
        (Inr leaf, Inr key, Inr bundle) \<Rightarrow> Some (leaf, key, bundle)
      | _ \<Rightarrow> None)"

text \<open>The closures the three deployables pass to the watcher.\<close>

definition on_change_of ::
  "mesh_paths \<Rightarrow> (bytes \<Rightarrow> bytes \<Rightarrow> bytes \<Rightarrow> 'h \<Rightarrow> (string + unit) \<times> 'h) \<Rightarrow> file_pass \<Rightarrow> 'h \<Rightarrow> 'h" where
  "on_change_of ps reload read h =
     (case read_three ps read of None \<Rightarrow> h | Some (leaf, key, bundle) \<Rightarrow> snd (reload leaf key bundle h))"

definition tenants_on_change ::
  "('c, 'k) tls_libs \<Rightarrow> mesh_paths \<Rightarrow> file_pass \<Rightarrow> ('c, 'k) reloadable_server_config \<Rightarrow> ('c, 'k) reloadable_server_config" where
  "tenants_on_change lib ps = on_change_of ps (server_reload lib)"

definition ddns_on_change ::
  "('c, 'k) tls_libs \<Rightarrow> mesh_paths \<Rightarrow> file_pass \<Rightarrow> ('c, 'k) mesh_client_holder \<Rightarrow> ('c, 'k) mesh_client_holder" where
  "ddns_on_change lib ps = on_change_of ps (mesh_client_reload lib)"

record ('c, 'k) mesh_setup =
  ms_client :: "('c, 'k) mesh_client_holder"
  ms_forwarder :: "('c, 'k) mtls_forwarder"
  ms_server :: "('c, 'k) reloadable_server_config"

definition tunneller_on_change ::
  "('c, 'k) tls_libs \<Rightarrow> mesh_paths \<Rightarrow> file_pass \<Rightarrow> ('c, 'k) mesh_setup \<Rightarrow> ('c, 'k) mesh_setup" where
  "tunneller_on_change lib ps =
     on_change_of ps (\<lambda>leaf key bundle m.
       (Inr (), m\<lparr>ms_client := snd (mesh_client_reload lib leaf key bundle (ms_client m)),
                  ms_forwarder := snd (forwarder_reload lib leaf key bundle (ms_forwarder m)),
                  ms_server := snd (server_reload lib leaf key bundle (ms_server m))\<rparr>))"

text \<open>\<open>setup_mesh\<close> up to the arming of the watcher, which starts from the digest of what it then reads.\<close>

definition setup_mesh ::
  "('c, 'k) tls_libs \<Rightarrow> mesh_paths \<Rightarrow> file_pass \<Rightarrow> string + ('c, 'k) mesh_setup \<times> spiffe_id" where
  "setup_mesh lib ps read =
     bind_result (map_err (\<lambda>e. ''read mesh leaf at '' @ leaf_cert_path ps @ '': '' @ e) (read (leaf_cert_path ps))) (\<lambda>leaf.
     bind_result (map_err (\<lambda>e. ''read mesh key at '' @ leaf_key_path ps @ '': '' @ e) (read (leaf_key_path ps))) (\<lambda>key.
     bind_result (map_err (\<lambda>e. ''read trust bundle at '' @ trust_bundle_path ps @ '': '' @ e) (read (trust_bundle_path ps))) (\<lambda>bundle.
     bind_result (own_spiffe_id lib leaf) (\<lambda>own_id.
     bind_result (mesh_client_new lib leaf key bundle \<lparr>ep_service = ''tenants'', ep_scope = ''global''\<rparr>) (\<lambda>client.
     bind_result (forwarder_new lib leaf key bundle \<lparr>ep_service = ''tunneller'', ep_scope = sp_scope own_id\<rparr>) (\<lambda>fwd.
     bind_result (server_new lib leaf key bundle) (\<lambda>server.
     Inr (\<lparr>ms_client = client, ms_forwarder = fwd, ms_server = server\<rparr>, own_id))))))))"

section \<open>The contract of a holder\<close>

fun rereads :: "watch_event list \<Rightarrow> file_pass list" where
  "rereads [] = []"
| "rereads (WatchError e # evs) = rereads evs"
| "rereads (FilesTouched digested reread # evs) = reread # rereads evs"

fun sees :: "file_pass \<Rightarrow> watch_event \<Rightarrow> bool" where
  "sees f (WatchError e) = True"
| "sees f (FilesTouched digested reread) = (digested = f)"

lemma watch_run_simps [simp]:
  "watch_run sha paths g [] st = st"
  "watch_run sha paths g (ev # evs) st = watch_run sha paths g evs (watch_step sha paths g ev st)"
  "watch_run sha paths g (evs @ evs') st = watch_run sha paths g evs' (watch_run sha paths g evs st)"
  by (simp_all add: watch_run_def)

lemma watch_settled:
  assumes "list_all (sees f) evs"
  shows "watch_run sha paths g evs (files_digest sha paths f, s) = (files_digest sha paths f, s)"
  using assms
proof (induction evs)
  case (Cons ev evs)
  then show ?case by (cases ev) (simp_all add: Let_def)
qed simp

lemma watch_run_project:
  assumes "\<And>read s. proj (g read s) = h read (proj s)"
  shows "proj (snd (watch_run sha paths g evs (d, s))) = snd (watch_run sha paths h evs (d, proj s))"
proof (induction evs arbitrary: d s)
  case (Cons ev evs)
  then show ?case by (cases ev) (simp_all add: Let_def assms)
qed simp

locale hot_reload =
  fixes build :: "'p \<Rightarrow> bytes \<Rightarrow> bytes \<Rightarrow> bytes \<Rightarrow> string + 'm"
    and reload :: "bytes \<Rightarrow> bytes \<Rightarrow> bytes \<Rightarrow> 'h \<Rightarrow> (string + unit) \<times> 'h"
    and material :: "'h \<Rightarrow> 'm"
    and pin :: "'h \<Rightarrow> 'p"
  assumes reload_ok: "build (pin h) l k b = Inr m \<Longrightarrow> material (snd (reload l k b h)) = m"
    and reload_err: "build (pin h) l k b = Inl e \<Longrightarrow> snd (reload l k b h) = h"
    and reload_pin: "pin (snd (reload l k b h)) = pin h"
begin

lemma on_change_pin: "pin (on_change_of ps reload read h) = pin h"
  by (simp add: on_change_of_def reload_pin split: option.split prod.split)

lemma on_change_material:
  "material (on_change_of ps reload read h) = material h \<or>
   (\<exists>l k b. read_three ps read = Some (l, k, b) \<and> build (pin h) l k b = Inr (material (on_change_of ps reload read h)))"
proof (cases "read_three ps read")
  case (Some t)
  obtain l k b where t: "t = (l, k, b)" by (cases t)
  show ?thesis
  proof (cases "build (pin h) l k b")
    case (Inr m)
    then show ?thesis using Some t by (simp add: on_change_of_def reload_ok)
  qed (simp add: on_change_of_def Some t reload_err)
qed (simp add: on_change_of_def)

lemma run_pin: "pin (snd (watch_run sha paths (on_change_of ps reload) evs (d, h))) = pin h"
proof (induction evs arbitrary: d h)
  case (Cons ev evs)
  then show ?case by (cases ev) (simp_all add: Let_def on_change_pin)
qed simp

lemma run_material:
  "material (snd (watch_run sha paths (on_change_of ps reload) evs (d, h))) = material h \<or>
   (\<exists>read \<in> set (rereads evs). \<exists>l k b. read_three ps read = Some (l, k, b) \<and>
      build (pin h) l k b = Inr (material (snd (watch_run sha paths (on_change_of ps reload) evs (d, h)))))"
proof (induction evs arbitrary: d h)
  case (Cons ev evs)
  show ?case
  proof (cases ev)
    case (FilesTouched digested read)
    show ?thesis
    proof (cases "files_digest sha paths digested = d")
      case True
      then show ?thesis using Cons [of d h] FilesTouched by auto
    next
      case False
      let ?h = "on_change_of ps reload read h"
      show ?thesis
        using Cons [of "files_digest sha paths digested" ?h] on_change_material [of ps read h] False FilesTouched
        by (auto simp: Let_def on_change_pin)
    qed
  qed (use Cons [of d h] in simp)
qed simp

lemma run_built:
  assumes "read_three ps boot = Some (l, k, b)" "build (pin h) l k b = Inr (material h)"
  shows "\<exists>read \<in> set (boot # rereads evs). \<exists>l k b. read_three ps read = Some (l, k, b) \<and>
    build (pin h) l k b = Inr (material (snd (watch_run sha paths (on_change_of ps reload) evs (d, h))))"
  using run_material [of sha paths ps evs d h]
proof
  assume "material (snd (watch_run sha paths (on_change_of ps reload) evs (d, h))) = material h"
  then show ?thesis using assms by simp
qed simp

lemma seen_rotation:
  assumes "files_digest sha paths f \<noteq> d" "read_three ps f = Some (l, k, b)" "build (pin h) l k b = Inr m"
    and "list_all (sees f) later"
  shows "material (snd (watch_run sha paths (on_change_of ps reload) (FilesTouched f f # later) (d, h))) = m"
  using assms by (simp add: Let_def watch_settled on_change_of_def reload_ok)

end

interpretation client_holder: hot_reload "mesh_client lib" "mesh_client_reload lib" mc_client mc_expected for lib
  by unfold_locales (simp_all add: mesh_client_reload_def split: sum.split)

interpretation forwarder_holder: hot_reload "\<lambda>p l k b. build_connector lib l k b p" "forwarder_reload lib" fw_connector fw_expected for lib
  by unfold_locales (simp_all add: forwarder_reload_def split: sum.split)

interpretation server_holder: hot_reload "\<lambda>_. server_config_from_pem lib" "server_reload lib" rs_config "\<lambda>_. ()" for lib
  by unfold_locales (simp_all add: server_reload_def split: sum.split)

section \<open>Peers\<close>

lemma bind_result_Inr [simp]: "bind_result r f = Inr y \<longleftrightarrow> (\<exists>x. r = Inr x \<and> f x = Inr y)"
  by (cases r) (simp_all add: bind_result_def)

lemma map_err_Inr [simp]: "map_err f r = Inr y \<longleftrightarrow> r = Inr y"
  by (cases r) (simp_all add: map_err_def)

lemma client_config_from_pem_Inr:
  "client_config_from_pem lib expected l k b = Inr c \<Longrightarrow> root_store_from_pem lib b = Inr (cc_roots c) \<and> cc_expected c = expected"
  by (auto simp: client_config_from_pem_def split: if_splits)

lemma mesh_client_Inr:
  "mesh_client lib expected l k b = Inr c \<Longrightarrow> root_store_from_pem lib b = Inr (cc_roots c) \<and> cc_expected c = expected"
  by (auto simp: mesh_client_def dest: client_config_from_pem_Inr)

lemma build_connector_Inr:
  "build_connector lib l k b expected = Inr c \<Longrightarrow> root_store_from_pem lib b = Inr (cc_roots c) \<and> cc_expected c = expected"
  by (simp add: build_connector_def client_config_from_pem_Inr)

lemma server_config_from_pem_Inr:
  "server_config_from_pem lib l k b = Inr c \<Longrightarrow> root_store_from_pem lib b = Inr (sc_roots c)"
  by (auto simp: server_config_from_pem_def client_verifier_from_pem_def split: if_splits)

lemma read_three_Some:
  "read_three ps read = Some (l, k, b) \<longleftrightarrow>
     read (leaf_cert_path ps) = Inr l \<and> read (leaf_key_path ps) = Inr k \<and> read (trust_bundle_path ps) = Inr b"
  by (auto simp: read_three_def split: sum.splits)

text \<open>The anchors of a configuration were read in full from the bundle file in one of the given passes.\<close>

definition anchors_read :: "('c, 'k) tls_libs \<Rightarrow> mesh_paths \<Rightarrow> file_pass list \<Rightarrow> 'c list \<Rightarrow> bool" where
  "anchors_read lib ps ps_reads anchors =
     (\<exists>read \<in> set ps_reads. \<exists>pem. read (trust_bundle_path ps) = Inr pem \<and> root_store_from_pem lib pem = Inr anchors)"

lemma anchors_readI:
  "r \<in> set ps_reads \<Longrightarrow> read_three ps r = Some (l, k, b) \<Longrightarrow> root_store_from_pem lib b = Inr anchors \<Longrightarrow>
     anchors_read lib ps ps_reads anchors"
  unfolding anchors_read_def read_three_Some by blast

lemma setup_mesh_Inr:
  assumes "setup_mesh lib ps boot = Inr (m, own)"
  obtains l k b where "read_three ps boot = Some (l, k, b)"
    and "mesh_client lib \<lparr>ep_service = ''tenants'', ep_scope = ''global''\<rparr> l k b = Inr (mc_client (ms_client m))"
    and "mc_expected (ms_client m) = \<lparr>ep_service = ''tenants'', ep_scope = ''global''\<rparr>"
    and "build_connector lib l k b \<lparr>ep_service = ''tunneller'', ep_scope = sp_scope own\<rparr> = Inr (fw_connector (ms_forwarder m))"
    and "fw_expected (ms_forwarder m) = \<lparr>ep_service = ''tunneller'', ep_scope = sp_scope own\<rparr>"
    and "server_config_from_pem lib l k b = Inr (rs_config (ms_server m))"
  using assms
  by (auto simp: setup_mesh_def mesh_client_new_def forwarder_new_def server_new_def read_three_Some)

lemma tunneller_parts:
  "ms_client (tunneller_on_change lib ps read m) = on_change_of ps (mesh_client_reload lib) read (ms_client m)"
  "ms_forwarder (tunneller_on_change lib ps read m) = on_change_of ps (forwarder_reload lib) read (ms_forwarder m)"
  "ms_server (tunneller_on_change lib ps read m) = on_change_of ps (server_reload lib) read (ms_server m)"
  by (simp_all add: tunneller_on_change_def on_change_of_def split: option.split prod.split)

lemma tunneller_run_parts:
  "ms_client (snd (watch_run sha paths (tunneller_on_change lib ps) evs (d, m))) =
     snd (watch_run sha paths (on_change_of ps (mesh_client_reload lib)) evs (d, ms_client m))"
  "ms_forwarder (snd (watch_run sha paths (tunneller_on_change lib ps) evs (d, m))) =
     snd (watch_run sha paths (on_change_of ps (forwarder_reload lib)) evs (d, ms_forwarder m))"
  "ms_server (snd (watch_run sha paths (tunneller_on_change lib ps) evs (d, m))) =
     snd (watch_run sha paths (on_change_of ps (server_reload lib)) evs (d, ms_server m))"
  by (rule watch_run_project, rule tunneller_parts)+

lemma node_configs:
  assumes "setup_mesh lib ps boot = Inr (m, own)"
    and "m' = snd (watch_run sha paths (tunneller_on_change lib ps) evs (d, m))"
  shows "cc_expected (mc_client (ms_client m')) = \<lparr>ep_service = ''tenants'', ep_scope = ''global''\<rparr>"
    and "anchors_read lib ps (boot # rereads evs) (cc_roots (mc_client (ms_client m')))"
    and "cc_expected (fw_connector (ms_forwarder m')) = \<lparr>ep_service = ''tunneller'', ep_scope = sp_scope own\<rparr>"
    and "anchors_read lib ps (boot # rereads evs) (cc_roots (fw_connector (ms_forwarder m')))"
    and "anchors_read lib ps (boot # rereads evs) (sc_roots (rs_config (ms_server m')))"
proof -
  obtain l k b where s: "read_three ps boot = Some (l, k, b)"
      "mesh_client lib \<lparr>ep_service = ''tenants'', ep_scope = ''global''\<rparr> l k b = Inr (mc_client (ms_client m))"
      "mc_expected (ms_client m) = \<lparr>ep_service = ''tenants'', ep_scope = ''global''\<rparr>"
      "build_connector lib l k b \<lparr>ep_service = ''tunneller'', ep_scope = sp_scope own\<rparr> = Inr (fw_connector (ms_forwarder m))"
      "fw_expected (ms_forwarder m) = \<lparr>ep_service = ''tunneller'', ep_scope = sp_scope own\<rparr>"
      "server_config_from_pem lib l k b = Inr (rs_config (ms_server m))"
    using setup_mesh_Inr [OF assms(1)] .
  note mp = client_holder.run_built [of ps boot l k b lib "ms_client m" evs sha paths d, unfolded s(3), OF s(1,2)]
    forwarder_holder.run_built [of ps boot l k b lib "ms_forwarder m" evs sha paths d, unfolded s(5), OF s(1,4)]
    server_holder.run_built [of ps boot l k b lib "ms_server m" evs sha paths d, OF s(1,6)]
  note parts = mp [folded tunneller_run_parts assms(2)]
  from parts(1) obtain r l k b where "r \<in> set (boot # rereads evs)" "read_three ps r = Some (l, k, b)"
      "mesh_client lib \<lparr>ep_service = ''tenants'', ep_scope = ''global''\<rparr> l k b = Inr (mc_client (ms_client m'))"
    by blast
  then show "cc_expected (mc_client (ms_client m')) = \<lparr>ep_service = ''tenants'', ep_scope = ''global''\<rparr>"
    and "anchors_read lib ps (boot # rereads evs) (cc_roots (mc_client (ms_client m')))"
    by (blast dest: mesh_client_Inr intro: anchors_readI)+
  from parts(2) obtain r l k b where "r \<in> set (boot # rereads evs)" "read_three ps r = Some (l, k, b)"
      "build_connector lib l k b \<lparr>ep_service = ''tunneller'', ep_scope = sp_scope own\<rparr> = Inr (fw_connector (ms_forwarder m'))"
    by blast
  then show "cc_expected (fw_connector (ms_forwarder m')) = \<lparr>ep_service = ''tunneller'', ep_scope = sp_scope own\<rparr>"
    and "anchors_read lib ps (boot # rereads evs) (cc_roots (fw_connector (ms_forwarder m')))"
    by (blast dest: build_connector_Inr intro: anchors_readI)+
  from parts(3) obtain r l k b where "r \<in> set (boot # rereads evs)" "read_three ps r = Some (l, k, b)"
      "server_config_from_pem lib l k b = Inr (rs_config (ms_server m'))"
    by blast
  then show "anchors_read lib ps (boot # rereads evs) (sc_roots (rs_config (ms_server m')))"
    by (blast dest: server_config_from_pem_Inr intro: anchors_readI)
qed

definition trusted_peer ::
  "('c, 'k) tls_libs \<Rightarrow> mesh_paths \<Rightarrow> file_pass list \<Rightarrow> string \<Rightarrow> string \<Rightarrow> 'c \<Rightarrow> 'c list \<Rightarrow> bool" where
  "trusted_peer lib ps ps_reads service scope leaf chain =
     (\<exists>i anchors. from_cert (pki_of lib []) leaf = Inr i \<and> sp_service i = service \<and> sp_scope i = scope \<and>
        anchors_read lib ps ps_reads anchors \<and> lib_anchored lib anchors leaf chain)"

lemma from_cert_pki_of: "from_cert (pki_of lib anchors) = from_cert (pki_of lib [])"
  by (simp add: fun_eq_iff from_cert_def pki_of_def)

lemma chain_valid_pki_of [simp]: "chain_valid (pki_of lib anchors) = lib_anchored lib anchors"
  by (simp add: pki_of_def)

lemma dialled_peer:
  assumes "verify_server_cert (pki_of lib anchors) expected leaf chain = Inr ()" "anchors_read lib ps ps_reads anchors"
  shows "trusted_peer lib ps ps_reads (ep_service expected) (ep_scope expected) leaf chain"
  using assms unfolding trusted_peer_def verify_server_cert_def from_cert_pki_of [of lib anchors]
  by (auto split: if_splits sum.splits)

lemma admitted_peer:
  assumes "forward_admits (pki_of lib anchors) scope (leaf # chain)" "anchors_read lib ps ps_reads anchors"
  shows "trusted_peer lib ps ps_reads ''tunneller'' scope leaf chain"
  using assms
  unfolding trusted_peer_def forward_admits_def peer_spiffe_id_def peer_allowed_on_forward_def from_cert_pki_of [of lib anchors]
  by (auto split: if_splits sum.splits)

section \<open>Properties\<close>

definition ex_tls :: "(string, bytes) tls_libs" where
  "ex_tls = \<lparr>lib_pem_certs = \<lambda>pem. if pem = [] then [] else [Inr ''spiffe://w/prod/use1/tunneller''],
     lib_pem_key = \<lambda>pem. Inr (Some pem), lib_anchor = \<lambda>_. Inr (), lib_client_verifier = \<lambda>_. Inr (),
     lib_single_cert = \<lambda>_ _. Inr (), lib_client_auth = \<lambda>_ _. Inr (), lib_provider = True, lib_http_client = Inr (),
     lib_names = \<lambda>c. Inr (Some [URI c]), lib_anchored = \<lambda>anchors _ _. anchors \<noteq> [], lib_sha256 = \<lambda>bs. bs\<rparr>"

definition ex_paths :: mesh_paths where
  "ex_paths = \<lparr>leaf_cert_path = ''leaf'', leaf_key_path = ''key'', trust_bundle_path = ''bundle''\<rparr>"

definition ex_files :: "u8 \<Rightarrow> file_pass" where
  "ex_files n p = Inr [n]"

definition ex_node :: "u8 \<Rightarrow> (string, bytes) mesh_setup" where
  "ex_node n =
     (let certs = [''spiffe://w/prod/use1/tunneller''];
          cfg = (\<lambda>e. \<lparr>cc_roots = certs, cc_expected = e, cc_certs = certs, cc_key = [n]\<rparr>);
          tenants = \<lparr>ep_service = ''tenants'', ep_scope = ''global''\<rparr>;
          peer = \<lparr>ep_service = ''tunneller'', ep_scope = ''use1''\<rparr> in
      \<lparr>ms_client = \<lparr>mc_client = cfg tenants, mc_expected = tenants\<rparr>,
       ms_forwarder = \<lparr>fw_connector = cfg peer, fw_expected = peer\<rparr>,
       ms_server = \<lparr>rs_config = \<lparr>sc_roots = certs, sc_certs = certs, sc_key = [n]\<rparr>\<rparr>\<rparr>)"

definition ex_own :: spiffe_id where
  "ex_own = \<lparr>sp_trust_domain = ''w'', sp_env = ''prod'', sp_scope = ''use1'', sp_service = ''tunneller''\<rparr>"

lemma ex_parse: "spiffe_parse ''spiffe://w/prod/use1/tunneller'' = Inr ex_own"
  by code_simp

lemmas ex_builds = client_config_from_pem_def mesh_client_def build_connector_def server_config_from_pem_def
  client_verifier_from_pem_def root_store_from_pem_def bind_result_def map_err_def ok_or_def ex_tls_def

lemma ex_setup: "setup_mesh ex_tls ex_paths (ex_files n) = Inr (ex_node n, ex_own)"
  by (simp add: setup_mesh_def own_spiffe_id_def mesh_client_new_def forwarder_new_def server_new_def ex_builds
      ex_files_def from_cert_def pki_of_def ex_parse ex_node_def Let_def) (simp add: ex_own_def)

text \<open>C15. From boot on, whatever the three files contain at each of the watcher's passes and however many reloads fail, a
  Tunneller node only ever completes a dial to the Tenants service with a peer whose leaf names service \<open>tenants\<close> and scope
  \<open>global\<close>, only ever dials or admits on the forward plane a \<open>tunneller\<close> of its own scope, and each such leaf chains to a trust
  bundle that the node read and parsed in full in one pass: a torn, empty or unreadable file never widens what is accepted.\<close>

theorem mesh_pin_kept:
  assumes "setup_mesh lib ps boot = Inr (m, own)"
    and "m' = snd (watch_run (lib_sha256 lib) (watched ps) (tunneller_on_change lib ps) evs (d, m))"
  shows "(verify_server_cert (pki_of lib (cc_roots (mc_client (ms_client m')))) (cc_expected (mc_client (ms_client m'))) leaf chain = Inr ()
           \<longrightarrow> trusted_peer lib ps (boot # rereads evs) ''tenants'' ''global'' leaf chain) \<and>
         (verify_server_cert (pki_of lib (cc_roots (fw_connector (ms_forwarder m')))) (cc_expected (fw_connector (ms_forwarder m'))) leaf chain = Inr ()
           \<longrightarrow> trusted_peer lib ps (boot # rereads evs) ''tunneller'' (sp_scope own) leaf chain) \<and>
         (forward_admits (pki_of lib (sc_roots (rs_config (ms_server m')))) (sp_scope own) (leaf # chain)
           \<longrightarrow> trusted_peer lib ps (boot # rereads evs) ''tunneller'' (sp_scope own) leaf chain)"
  using dialled_peer [OF _ node_configs(2) [OF assms], of "cc_expected (mc_client (ms_client m'))" leaf chain]
    dialled_peer [OF _ node_configs(4) [OF assms], of "cc_expected (fw_connector (ms_forwarder m'))" leaf chain]
    admitted_peer [OF _ node_configs(5) [OF assms]] node_configs(1,3) [OF assms]
  by simp

theorem mesh_pin_kept_witness:
  "trusted_peer ex_tls ex_paths [ex_files 1, \<lambda>_. Inl ''gone''] ''tunneller'' ''use1'' ''spiffe://w/prod/use1/tunneller'' []"
proof -
  let ?evs = "[FilesTouched (ex_files 2) (\<lambda>_. Inl ''gone'')]"
  have run: "snd (watch_run (lib_sha256 ex_tls) (watched ex_paths) (tunneller_on_change ex_tls ex_paths) ?evs ([], ex_node 1)) = ex_node 1"
    by (simp add: Let_def tunneller_on_change_def on_change_of_def read_three_def)
  have "forward_admits (pki_of ex_tls (sc_roots (rs_config (ms_server (ex_node 1))))) (sp_scope ex_own) [''spiffe://w/prod/use1/tunneller'']"
    by (simp add: forward_admits_def peer_spiffe_id_def from_cert_def ex_parse peer_allowed_on_forward_def pki_of_def ex_tls_def ex_node_def Let_def)
      (simp add: ex_own_def)
  then show ?thesis
    using mesh_pin_kept [OF ex_setup run [symmetric]] by (simp add: ex_own_def)
qed


lemma ex_configs:
  "mesh_client ex_tls e [n] [n] [n] = Inr \<lparr>cc_roots = [''spiffe://w/prod/use1/tunneller''], cc_expected = e,
     cc_certs = [''spiffe://w/prod/use1/tunneller''], cc_key = [n]\<rparr>"
  "build_connector ex_tls [n] [n] [n] e = Inr \<lparr>cc_roots = [''spiffe://w/prod/use1/tunneller''], cc_expected = e,
     cc_certs = [''spiffe://w/prod/use1/tunneller''], cc_key = [n]\<rparr>"
  "server_config_from_pem ex_tls [n] [n] [n] = Inr \<lparr>sc_roots = [''spiffe://w/prod/use1/tunneller''],
     sc_certs = [''spiffe://w/prod/use1/tunneller''], sc_key = [n]\<rparr>"
  by (simp_all add: ex_builds)

lemma ex_read: "read_three ex_paths (ex_files n) = Some ([n], [n], [n])"
  by (simp add: read_three_def ex_files_def)

lemma ex_digest: "files_digest (lib_sha256 ex_tls) (watched ex_paths) (ex_files n) =
  u64_to_le_bytes 1 @ [n] @ u64_to_le_bytes 1 @ [n] @ u64_to_le_bytes 1 @ [n]"
  by (simp add: files_digest_def watched_def ex_tls_def ex_paths_def read_or_default_def ex_files_def Let_def)


text \<open>C40. The watcher records a digest before it knows whether the reload succeeded. If the event that first digests the new
  files re-reads them at a moment when one cannot be read, no consumer changes, and no later event retries while the files
  stay as they are, however often the directory is touched: the node serves its old leaf until the next renewal, although
  the files are complete and loadable. The same happens to files rotated between the node's first read and the moment the
  watcher takes the digest it starts from.\<close>

theorem failed_reload_not_retried:
  assumes "read_three ps g = None" and "list_all (sees f) later"
  shows "snd (watch_run sha (watched ps) (tunneller_on_change lib ps) (FilesTouched f g # later) (seen, m)) = m \<and>
         snd (watch_run sha (watched ps) (tunneller_on_change lib ps) later (files_digest sha (watched ps) f, m)) = m"
proof (cases "files_digest sha (watched ps) f = seen")
  case True
  then show ?thesis by (auto simp: watch_settled [OF assms(2)])
next
  case False
  then show ?thesis using assms by (simp add: Let_def watch_settled tunneller_on_change_def on_change_of_def)
qed

theorem failed_reload_not_retried_witness:
  "snd (watch_run (lib_sha256 ex_tls) (watched ex_paths) (tunneller_on_change ex_tls ex_paths)
     (FilesTouched (ex_files 2) (\<lambda>_. Inl ''gone'') # replicate 100 (FilesTouched (ex_files 2) (ex_files 2)))
     (files_digest (lib_sha256 ex_tls) (watched ex_paths) (ex_files 1), ex_node 1)) = ex_node 1 \<and>
   tunneller_on_change ex_tls ex_paths (ex_files 2) (ex_node 1) = ex_node 2 \<and> ex_node 2 \<noteq> ex_node 1"
proof -
  have "read_three ex_paths (\<lambda>_. Inl ''gone'') = None" by (simp add: read_three_def)
  moreover have "list_all (sees (ex_files 2)) (replicate 100 (FilesTouched (ex_files 2) (ex_files 2)))"
    by (simp add: list_all_iff)
  moreover have "tunneller_on_change ex_tls ex_paths (ex_files 2) (ex_node 1) = ex_node 2" "ex_node 2 \<noteq> ex_node 1"
    by (simp_all add: tunneller_on_change_def on_change_of_def ex_read mesh_client_reload_def forwarder_reload_def server_reload_def
        ex_configs ex_node_def Let_def)
  ultimately show ?thesis using failed_reload_not_retried by blast
qed

end
