(* ===== verification/F64.thy ===== *)
theory F64
  imports Complex_Main "HOL-Library.Log_Nat" Prelude
begin

text \<open>
  The double-precision arithmetic the price of a discounted plan needs. A finite double is the rational
  it denotes; an operation is the exact one followed by rounding to the nearest multiple of the unit in
  the last place, ties to even. The exponent is not bounded: amounts of money stay far from the ends of
  the range. The lemmas show that rounding is monotone and exact on the integers a double holds.
\<close>

section \<open>Rounding\<close>

definition binade :: "rat \<Rightarrow> int" where
  "binade x =
     (case quotient_of x of (p, q) \<Rightarrow>
        let e = int (floorlog 2 (nat p)) - int (floorlog 2 (nat q)) in
        if 2 powi e \<le> x then e else e - 1)"

definition round_even :: "rat \<Rightarrow> int" where
  "round_even y =
     (let f = \<lfloor>y\<rfloor>; d = y - of_int f in
      if d < 1 / 2 then f else if 1 / 2 < d then f + 1 else if even f then f else f + 1)"

definition f64_round :: "rat \<Rightarrow> rat" where
  "f64_round x =
     (if x = 0 then 0
      else let u = 2 powi (binade \<bar>x\<bar> - 52) in of_int (round_even (x / u)) * u)"

definition f64_of_int :: "int \<Rightarrow> rat" where
  "f64_of_int n = f64_round (of_int n)"

definition f64_mul :: "rat \<Rightarrow> rat \<Rightarrow> rat" where
  "f64_mul x y = f64_round (x * y)"

definition f64_div :: "rat \<Rightarrow> rat \<Rightarrow> rat" where
  "f64_div x y = f64_round (x / y)"

definition f64_round_away :: "rat \<Rightarrow> int" where
  "f64_round_away x = (if 0 \<le> x then \<lfloor>x + 1 / 2\<rfloor> else - \<lfloor>- x + 1 / 2\<rfloor>)"

definition as_i64 :: "int \<Rightarrow> int" where
  "as_i64 n = max (- (2 ^ 63)) (min (2 ^ 63 - 1) n)"

section \<open>The binade\<close>

lemma bit_bounds:
  fixes n :: nat
  assumes "0 < n"
  shows "(2::rat) powi (int (floorlog 2 n) - 1) \<le> of_nat n" and "of_nat n < (2::rat) powi int (floorlog 2 n)"
proof -
  have b: "n < 2 ^ floorlog 2 n" "2 ^ (floorlog 2 n - 1) \<le> n"
    using floorlog_bounds [OF assms, of 2] by auto
  have l: "0 < floorlog 2 n" using b(1) assms by (cases "floorlog 2 n") auto
  have "(2::rat) powi (int (floorlog 2 n) - 1) = of_nat (2 ^ (floorlog 2 n - 1))"
    using l by (simp add: power_int_def nat_diff_distrib)
  also have "\<dots> \<le> of_nat n" using b(2) by (simp only: of_nat_le_iff)
  finally show "(2::rat) powi (int (floorlog 2 n) - 1) \<le> of_nat n" .
  have "(of_nat n :: rat) < of_nat (2 ^ floorlog 2 n)" using b(1) by (simp only: of_nat_less_iff)
  then show "of_nat n < (2::rat) powi int (floorlog 2 n)" by (simp add: power_int_def)
qed

lemma binade_bounds:
  assumes "0 < x"
  shows "2 powi (binade x) \<le> x" and "x < 2 powi (binade x + 1)"
proof -
  obtain p q where pq: "quotient_of x = (p, q)" by fastforce
  have q: "0 < q" by (rule quotient_of_denom_pos [OF pq])
  have x: "x = of_int p / of_int q" by (rule quotient_of_div [OF pq])
  have p: "0 < p" using assms q by (simp add: x zero_less_divide_iff)
  let ?lp = "int (floorlog 2 (nat p))" and ?lq = "int (floorlog 2 (nat q))"
  have P: "2 powi (?lp - 1) \<le> (of_int p :: rat)" "(of_int p :: rat) < 2 powi ?lp"
    and Q: "2 powi (?lq - 1) \<le> (of_int q :: rat)" "(of_int q :: rat) < 2 powi ?lq"
    using bit_bounds [of "nat p"] bit_bounds [of "nat q"] p q by simp_all
  let ?e = "?lp - ?lq"
  have lo: "2 powi (?e - 1) \<le> x"
  proof -
    have "2 powi (?e - 1) * (of_int q :: rat) \<le> 2 powi (?e - 1) * 2 powi ?lq" using Q(2) by (intro mult_left_mono) auto
    also have "\<dots> = 2 powi (?lp - 1)" by (subst power_int_add [symmetric]) simp_all
    also have "\<dots> \<le> of_int p" by (rule P(1))
    finally show ?thesis using q by (simp add: x field_simps)
  qed
  have hi: "x < 2 powi (?e + 1)"
  proof -
    have "(of_int p :: rat) < 2 powi ?lp" by (rule P(2))
    also have "\<dots> = 2 powi (?e + 1) * 2 powi (?lq - 1)" by (subst power_int_add [symmetric]) simp_all
    also have "\<dots> \<le> 2 powi (?e + 1) * of_int q" using Q(1) by (intro mult_left_mono) auto
    finally show ?thesis using q by (simp add: x field_simps)
  qed
  show "2 powi (binade x) \<le> x" "x < 2 powi (binade x + 1)"
    using lo hi by (auto simp: binade_def pq Let_def)
qed

lemma powi_less_iff: "(2::rat) powi a < 2 powi b \<longleftrightarrow> a < b"
  using power_int_strict_increasing [of a b "2::rat"] power_int_increasing [of b a "2::rat"] by (cases "a < b") auto

lemma powi_le_iff: "(2::rat) powi a \<le> 2 powi b \<longleftrightarrow> a \<le> b"
  using powi_less_iff [of b a] by auto

lemma binade_unique: "0 < x \<Longrightarrow> 2 powi e \<le> x \<Longrightarrow> x < 2 powi (e + 1) \<Longrightarrow> binade x = e"
proof -
  assume "0 < x" "2 powi e \<le> x" "x < 2 powi (e + 1)"
  with binade_bounds [of x] have "(2::rat) powi e < 2 powi (binade x + 1)" "(2::rat) powi (binade x) < 2 powi (e + 1)" by auto
  then show ?thesis by (simp add: powi_less_iff)
qed

section \<open>Rounding is monotone\<close>

lemma round_even_bounds: "of_int (round_even y) \<le> y + 1 / 2" and "y - 1 / 2 \<le> of_int (round_even y)"
  by (auto simp: round_even_def Let_def) (linarith | simp)+

lemma round_even_int [simp]: "round_even (of_int n) = n"
  by (simp add: round_even_def)

lemma round_even_mono: "x \<le> y \<Longrightarrow> round_even x \<le> round_even y"
proof -
  assume xy: "x \<le> y"
  then have f: "\<lfloor>x\<rfloor> \<le> \<lfloor>y\<rfloor>" by (rule floor_mono)
  have b: "\<lfloor>z\<rfloor> \<le> round_even z" "round_even z \<le> \<lfloor>z\<rfloor> + 1" for z by (auto simp: round_even_def Let_def)
  show ?thesis
  proof (cases "\<lfloor>x\<rfloor> = \<lfloor>y\<rfloor>")
    case True
    then show ?thesis using xy by (auto simp: round_even_def Let_def)
  next
    case False
    then have "\<lfloor>x\<rfloor> + 1 \<le> \<lfloor>y\<rfloor>" using f by simp
    then show ?thesis using b(1) [of y] b(2) [of x] by linarith
  qed
qed

lemma f64_round_pos:
  assumes "0 < x"
  shows "2 powi (binade x) \<le> f64_round x" and "f64_round x \<le> 2 powi (binade x + 1)"
proof -
  let ?e = "binade x" and ?u = "(2::rat) powi (binade x - 52)"
  have u: "0 < ?u" by simp
  have lo: "(2::rat) ^ 52 * ?u = 2 powi ?e" and hi: "(2::rat) ^ 53 * ?u = 2 powi (?e + 1)"
    by (simp_all add: power_int_diff power_int_add)
  have "2 ^ 52 \<le> x / ?u" "x / ?u \<le> 2 ^ 53"
    unfolding pos_le_divide_eq [OF u] pos_divide_le_eq [OF u] lo hi
    using binade_bounds [OF assms] by (simp_all only: less_imp_le)
  then have "round_even (of_int (2 ^ 52)) \<le> round_even (x / ?u)" "round_even (x / ?u) \<le> round_even (of_int (2 ^ 53))"
    by (intro round_even_mono; simp)+
  then have "of_int (2 ^ 52) * ?u \<le> of_int (round_even (x / ?u)) * ?u" "of_int (round_even (x / ?u)) * ?u \<le> of_int (2 ^ 53) * ?u"
    unfolding round_even_int by (intro mult_right_mono; simp only: of_int_le_iff less_imp_le [OF u])+
  moreover have "f64_round x = of_int (round_even (x / ?u)) * ?u" using assms by (simp add: f64_round_def Let_def)
  ultimately show "2 powi (binade x) \<le> f64_round x" "f64_round x \<le> 2 powi (binade x + 1)"
    unfolding of_int_power of_int_numeral lo hi by simp_all
qed

lemma f64_round_nonneg: "0 \<le> x \<Longrightarrow> 0 \<le> f64_round x"
  using f64_round_pos(1) [of x] by (cases "x = 0") (auto simp: f64_round_def intro: order_trans [of _ "2 powi (binade x)"])

lemma f64_round_mono:
  assumes "0 \<le> x" and "x \<le> y"
  shows "f64_round x \<le> f64_round y"
proof (cases "x = 0")
  case True
  then show ?thesis using f64_round_nonneg [of y] assms by (simp add: f64_round_def)
next
  case False
  then have p: "0 < x" "0 < y" using assms by auto
  have le: "binade x \<le> binade y"
  proof -
    have "(2::rat) powi (binade x) < 2 powi (binade y + 1)"
      using binade_bounds(1) [OF p(1)] binade_bounds(2) [OF p(2)] assms(2) by linarith
    then show ?thesis by (simp add: powi_less_iff)
  qed
  show ?thesis
  proof (cases "binade x = binade y")
    case True
    have "round_even (x / 2 powi (binade y - 52)) \<le> round_even (y / 2 powi (binade y - 52))"
      by (rule round_even_mono) (simp add: assms(2) divide_right_mono)
    then show ?thesis using p by (simp add: f64_round_def Let_def True)
  next
    case False
    then have "(2::rat) powi (binade x + 1) \<le> 2 powi (binade y)" using le by (intro power_int_increasing) auto
    then show ?thesis using f64_round_pos(2) [OF p(1)] f64_round_pos(1) [OF p(2)] by linarith
  qed
qed

section \<open>Integers are exact\<close>

lemma f64_round_exact:
  assumes "0 < x" and "x / 2 powi (binade x - 52) = of_int m"
  shows "f64_round x = x"
proof -
  have "f64_round x = of_int (round_even (x / 2 powi (binade x - 52))) * 2 powi (binade x - 52)"
    using assms(1) by (simp add: f64_round_def Let_def)
  also have "\<dots> = x / 2 powi (binade x - 52) * 2 powi (binade x - 52)" by (simp only: assms(2) round_even_int)
  finally show ?thesis by simp
qed

lemma f64_round_of_int:
  assumes "0 \<le> n" and "n \<le> 2 ^ 53"
  shows "f64_round (of_int n) = of_int n"
proof (cases "n = 0")
  case False
  then have p: "(0::rat) < of_int n" using assms by simp
  let ?e = "binade (of_int n)"
  have "(2::rat) powi ?e \<le> 2 ^ 53"
  proof -
    have "(2::rat) powi ?e \<le> of_int n" by (rule binade_bounds(1) [OF p])
    also have "\<dots> \<le> of_int (2 ^ 53)" using assms(2) by (simp only: of_int_le_iff)
    finally show ?thesis by simp
  qed
  then have "(2::rat) powi ?e \<le> 2 powi 53" by (simp add: power_int_def)
  then have e: "?e \<le> 53" by (simp only: powi_le_iff)
  show ?thesis
  proof (cases "?e \<le> 52")
    case True
    have "of_int n / (2::rat) powi (?e - 52) = of_int (n * 2 ^ nat (52 - ?e))"
      using True by (simp add: power_int_def nat_diff_distrib field_simps)
    then show ?thesis by (rule f64_round_exact [OF p])
  next
    case False
    then have "?e = 53" using e by simp
    then have "(2::rat) ^ 53 \<le> of_int n" using binade_bounds(1) [OF p] by (simp add: power_int_def)
    then have "of_int (2 ^ 53) \<le> (of_int n :: rat)" by simp
    then have n: "n = 2 ^ 53" using assms(2) by (simp only: of_int_le_iff)
    have u: "(2::rat) powi (?e - 52) = 2" by (simp add: \<open>?e = 53\<close>)
    have "of_int n / (2::rat) powi (?e - 52) = of_int (2 ^ 52)" unfolding u by (simp add: n)
    then show ?thesis by (rule f64_round_exact [OF p])
  qed
qed (simp add: f64_round_def)

lemma f64_round_le_int:
  assumes "0 \<le> x" and "x \<le> of_int n" and "n \<le> 2 ^ 53"
  shows "f64_round x \<le> of_int n"
proof -
  have "0 \<le> n" using order_trans [OF assms(1,2)] by simp
  then show ?thesis using f64_round_mono [OF assms(1,2)] f64_round_of_int assms(3) by simp
qed

end
