(* ===== verification/Stripe.thy ===== *)
theory Stripe
  imports Subscriptions Text F64
begin

text \<open>
  The payment provider behind its trait (\<open>billing/src/gateway.rs\<close>): the normalised event and catalog
  types, the \<open>StripeGateway\<close> trait as a record of operations over an opaque provider state, and the
  production client that implements it. The REST service is the parameter \<open>sc_send\<close>: a request gives a
  transport error or a status with a body. The JSON decoders (one per wire type the client reads), HMAC,
  hex decoding and chrono's conversions are the fields of \<open>stripe_libs\<close>; metadata maps are association
  lists. The webhook signature check is modelled in full.

  The lemmas say what a verified signature shows and which errors a call can end in.
\<close>

section \<open>Normalised types\<close>

datatype gateway_error = CouponRejected | GatewayError string

fun gateway_text :: "gateway_error \<Rightarrow> string" where
  "gateway_text CouponRejected = ''stripe rejected the applied coupon''"
| "gateway_text (GatewayError e) = e"

record checkout_session =
  cs_url :: string
  cs_customer_id :: "string option"

record subscription_data =
  sd_tenant_id :: "string option"
  sd_subscription_id :: string
  sd_customer_id :: string
  sd_price_id :: "string option"
  sd_entitlement :: "entitlement option"
  sd_status :: subscription_status
  sd_current_period_end :: "instant option"

datatype stripe_event_kind =
    SubscriptionUpsert subscription_data
  | SubscriptionDeleted string
  | PaymentFailed string
  | CardSetupCompleted string string
  | CatalogChanged
  | Ignored

record stripe_event =
  ev_id :: string
  ev_kind :: stripe_event_kind

record plan_data =
  pd_price_id :: string
  pd_product_id :: string
  pd_name :: string
  pd_level :: "u32 option"
  pd_entitlement :: "entitlement option"
  pd_amount_cents :: int
  pd_currency :: string
  pd_interval :: string
  pd_active :: bool

record promotion_data =
  pr_coupon_id :: string
  pr_name :: string
  pr_percent_off :: "rat option"
  pr_amount_off :: "int option"
  pr_currency :: "string option"
  pr_applies_to_products :: "string list"
  pr_start :: "instant option"
  pr_redeem_by :: "instant option"
  pr_auto_apply :: bool

record subscription_details =
  dt_item_id :: string
  dt_price_id :: string
  dt_current_period_end :: instant
  dt_schedule_id :: "string option"
  dt_trialing :: bool

record scheduled_change =
  ch_price_id :: string
  ch_effective_at :: instant

record payment_method_view =
  pm_brand :: string
  pm_last4 :: string
  pm_exp_month :: u32
  pm_exp_year :: u32

datatype invoice_status = Paid | Open | Void | Uncollectible

record invoice_view =
  iv_date :: string
  iv_amount_cents :: int
  iv_currency :: string
  iv_status :: invoice_status
  iv_hosted_url :: "string option"

section \<open>The trait\<close>

type_synonym ('a, 's) gateway_call = "'s \<Rightarrow> (gateway_error + 'a) \<times> 's"

record 's stripe_gateway =
  gw_create_checkout_session ::
    "string option \<Rightarrow> string \<Rightarrow> string \<Rightarrow> string \<Rightarrow> string option \<Rightarrow> int option \<Rightarrow> (checkout_session, 's) gateway_call"
  gw_create_setup_checkout_session :: "string \<Rightarrow> string \<Rightarrow> (string, 's) gateway_call"
  gw_list_plans :: "(plan_data list, 's) gateway_call"
  gw_list_promotions :: "(promotion_data list, 's) gateway_call"
  gw_get_subscription :: "string \<Rightarrow> (subscription_details, 's) gateway_call"
  gw_pending_scheduled_change :: "string \<Rightarrow> instant \<Rightarrow> (scheduled_change option, 's) gateway_call"
  gw_upgrade_subscription :: "string \<Rightarrow> string \<Rightarrow> string \<Rightarrow> string option \<Rightarrow> bool \<Rightarrow> (unit, 's) gateway_call"
  gw_schedule_downgrade :: "string \<Rightarrow> string \<Rightarrow> string \<Rightarrow> instant \<Rightarrow> (instant, 's) gateway_call"
  gw_release_schedule :: "string \<Rightarrow> (unit, 's) gateway_call"
  gw_set_default_payment_method_from_setup :: "string \<Rightarrow> string option \<Rightarrow> string \<Rightarrow> (unit, 's) gateway_call"
  gw_construct_event :: "instant \<Rightarrow> string \<Rightarrow> string \<Rightarrow> string + stripe_event"
  gw_default_payment_method :: "string \<Rightarrow> (payment_method_view option, 's) gateway_call"
  gw_list_invoices :: "string \<Rightarrow> (invoice_view list, 's) gateway_call"

definition and_then :: "('a, 's) gateway_call \<Rightarrow> ('a \<Rightarrow> ('b, 's) gateway_call) \<Rightarrow> ('b, 's) gateway_call" where
  "and_then m f s = (case m s of (Inl e, s) \<Rightarrow> (Inl e, s) | (Inr x, s) \<Rightarrow> f x s)"

definition ret :: "gateway_error + 'a \<Rightarrow> ('a, 's) gateway_call" where
  "ret r s = (r, s)"

section \<open>Wire types\<close>

datatype expandable = Exp_Id string | Exp_Object string

fun into_id :: "expandable \<Rightarrow> string" where
  "into_id (Exp_Id i) = i"
| "into_id (Exp_Object i) = i"

type_synonym metadata = "(string \<times> string) list"

record session_response =
  sr_url :: "string option"
  sr_customer :: "expandable option"

record webhook_event =
  we_id :: string
  we_event_type :: string
  we_object :: string

record checkout_session_object =
  co_mode :: "string option"
  co_customer :: "expandable option"
  co_setup_intent :: "expandable option"

record stripe_price =
  sp_id :: string
  sp_metadata :: metadata

record stripe_subscription_item =
  it_id :: "string option"
  it_price :: "stripe_price option"
  it_current_period_end :: "int option"

record stripe_subscription =
  st_id :: string
  st_customer :: expandable
  st_status :: string
  st_current_period_end :: "int option"
  st_metadata :: metadata
  st_items :: "stripe_subscription_item list"
  st_schedule :: "expandable option"

record stripe_product =
  sx_id :: string
  sx_name :: "string option"

record stripe_price_full =
  sf_id :: string
  sf_unit_amount :: "int option"
  sf_currency :: string
  sf_recurring :: "string option"
  sf_active :: bool
  sf_product :: "stripe_product option"
  sf_metadata :: metadata

record stripe_coupon =
  sq_id :: string
  sq_name :: "string option"
  sq_percent_off :: "rat option"
  sq_amount_off :: "int option"
  sq_currency :: "string option"
  sq_redeem_by :: "int option"
  sq_applies_to :: "string list option"
  sq_metadata :: metadata

record stripe_schedule_phase =
  ph_start_date :: "int option"
  ph_items :: "string option list"

record stripe_subscription_schedule =
  sh_id :: string
  sh_phases :: "stripe_schedule_phase list"

record stripe_invoice =
  si_subscription :: "expandable option"
  si_parent_subscription :: "expandable option option option"

record stripe_api_error =
  ae_error_type :: "string option"
  ae_code :: "string option"
  ae_param :: "string option"

record stripe_card =
  cd_brand :: string
  cd_last4 :: string
  cd_exp_month :: u32
  cd_exp_year :: u32

record stripe_invoice_row =
  ir_created :: "int option"
  ir_total :: int
  ir_currency :: string
  ir_status :: "string option"
  ir_hosted_invoice_url :: "string option"

text \<open>The libraries the client uses; \<open>json_\<close> fields decode a body, \<open>value_\<close> fields an event object.\<close>

record stripe_libs =
  hmac_sha256 :: "string \<Rightarrow> string \<Rightarrow> string"
  hex_decode :: "string \<Rightarrow> string option"
  at_timestamp :: "int \<Rightarrow> instant option"
  parse_rfc3339 :: "string \<Rightarrow> instant option"
  format_ymd :: "instant \<Rightarrow> string"
  status_text :: "nat \<Rightarrow> string"
  json_session :: "string \<Rightarrow> string + session_response"
  json_prices :: "string \<Rightarrow> string + stripe_price_full list"
  json_coupons :: "string \<Rightarrow> string + stripe_coupon list"
  json_subscription :: "string \<Rightarrow> string + stripe_subscription"
  json_schedule :: "string \<Rightarrow> string + stripe_subscription_schedule"
  json_any :: "string \<Rightarrow> string + unit"
  json_setup_intent :: "string \<Rightarrow> string + expandable option"
  json_customer :: "string \<Rightarrow> string + stripe_card option option option"
  json_invoices :: "string \<Rightarrow> string + stripe_invoice_row list"
  json_error :: "string \<Rightarrow> string + stripe_api_error"
  json_event :: "string \<Rightarrow> string + webhook_event"
  value_subscription :: "string \<Rightarrow> string + stripe_subscription"
  value_invoice :: "string \<Rightarrow> string + stripe_invoice"
  value_checkout :: "string \<Rightarrow> string + checkout_session_object"

section \<open>Mapping the wire types\<close>

fun contains :: "string \<Rightarrow> string \<Rightarrow> bool" where
  "contains p [] = (p = [])"
| "contains p (c # s) = (starts_with p (c # s) \<or> contains p s)"

definition describe :: "stripe_api_error \<Rightarrow> string" where
  "describe e =
     (case (ae_error_type e, ae_code e) of
        (None, None) \<Rightarrow> []
      | (t, c) \<Rightarrow> '' (type='' @ (case t of None \<Rightarrow> ''?'' | Some t \<Rightarrow> t) @ '', code='' @
                     (case c of None \<Rightarrow> ''?'' | Some c \<Rightarrow> c) @ '')'')"

definition is_coupon_related :: "stripe_api_error \<Rightarrow> bool" where
  "is_coupon_related e =
     ((case ae_code e of None \<Rightarrow> False | Some c \<Rightarrow> contains ''coupon'' c \<or> contains ''promotion'' c) \<or>
      (case ae_param e of None \<Rightarrow> False | Some p \<Rightarrow> contains ''coupon'' p \<or> contains ''discount'' p))"

definition entitlement_from_meta :: "metadata \<Rightarrow> entitlement option" where
  "entitlement_from_meta md =
     Option.bind (Option.bind (map_of md ''max_networks'') parse_u32) (\<lambda>n.
     Option.bind (Option.bind (map_of md ''max_daemons'') parse_u32) (\<lambda>d.
     Some \<lparr>max_networks = n, max_daemons = d\<rparr>))"

definition entitlement_from_price :: "stripe_price \<Rightarrow> entitlement option" where
  "entitlement_from_price price = entitlement_from_meta (sp_metadata price)"

definition map_status :: "string \<Rightarrow> subscription_status" where
  "map_status s =
     (if s = ''active'' \<or> s = ''trialing'' then SubActive
      else if s = ''past_due'' \<or> s = ''unpaid'' then PastDue
      else Canceled)"

definition first_of :: "'a list \<Rightarrow> 'a option" where
  "first_of xs = (case xs of [] \<Rightarrow> None | x # _ \<Rightarrow> Some x)"

definition or_else :: "'a option \<Rightarrow> 'a option \<Rightarrow> 'a option" where
  "or_else a b = (case a of None \<Rightarrow> b | Some x \<Rightarrow> Some x)"

definition map_subscription :: "stripe_libs \<Rightarrow> stripe_subscription \<Rightarrow> subscription_data" where
  "map_subscription lib sub =
     (let first_item = first_of (st_items sub);
          price = Option.bind first_item it_price;
          period_end = or_else (st_current_period_end sub) (Option.bind first_item it_current_period_end) in
      \<lparr>sd_tenant_id = map_of (st_metadata sub) ''tenant_id'',
       sd_subscription_id = st_id sub,
       sd_customer_id = into_id (st_customer sub),
       sd_price_id = map_option sp_id price,
       sd_entitlement = Option.bind price entitlement_from_price,
       sd_status = map_status (st_status sub),
       sd_current_period_end = Option.bind period_end (at_timestamp lib)\<rparr>)"

definition map_plan :: "stripe_price_full \<Rightarrow> plan_data option" where
  "map_plan price =
     Option.bind (sf_product price) (\<lambda>product.
     Option.bind (sf_unit_amount price) (\<lambda>amount_cents.
     Option.bind (sf_recurring price) (\<lambda>interval.
     Some \<lparr>pd_price_id = sf_id price, pd_product_id = sx_id product,
           pd_name = (case sx_name product of None \<Rightarrow> [] | Some n \<Rightarrow> n),
           pd_level = Option.bind (map_of (sf_metadata price) ''level'') parse_u32,
           pd_entitlement = entitlement_from_meta (sf_metadata price),
           pd_amount_cents = amount_cents, pd_currency = sf_currency price,
           pd_interval = interval, pd_active = sf_active price\<rparr>)))"

definition map_coupon :: "stripe_libs \<Rightarrow> stripe_coupon \<Rightarrow> promotion_data" where
  "map_coupon lib c =
     \<lparr>pr_coupon_id = sq_id c, pr_name = (case sq_name c of None \<Rightarrow> [] | Some n \<Rightarrow> n),
      pr_percent_off = sq_percent_off c, pr_amount_off = sq_amount_off c, pr_currency = sq_currency c,
      pr_applies_to_products = (case sq_applies_to c of None \<Rightarrow> [] | Some ps \<Rightarrow> ps),
      pr_start = Option.bind (map_of (sq_metadata c) ''wardnet_promo_start'') (parse_rfc3339 lib),
      pr_redeem_by = Option.bind (sq_redeem_by c) (at_timestamp lib),
      pr_auto_apply = (map_of (sq_metadata c) ''wardnet_auto_apply'' = Some ''true'')\<rparr>"

definition invoice_status_of :: "string option \<Rightarrow> invoice_status option" where
  "invoice_status_of s =
     (if s = Some ''paid'' then Some Paid
      else if s = Some ''open'' then Some Open
      else if s = Some ''void'' then Some Void
      else if s = Some ''uncollectible'' then Some Uncollectible
      else None)"

definition map_invoice :: "stripe_libs \<Rightarrow> stripe_invoice_row \<Rightarrow> invoice_view option" where
  "map_invoice lib row =
     Option.bind (invoice_status_of (ir_status row)) (\<lambda>status.
     Option.bind (ir_created row) (\<lambda>created.
     Option.bind (at_timestamp lib created) (\<lambda>t.
     Some \<lparr>iv_date = format_ymd lib t, iv_amount_cents = ir_total row, iv_currency = ir_currency row,
           iv_status = status, iv_hosted_url = ir_hosted_invoice_url row\<rparr>)))"

definition invoice_subscription_id :: "stripe_invoice \<Rightarrow> string option" where
  "invoice_subscription_id invoice =
     map_option into_id
       (or_else (si_subscription invoice) (Option.bind (Option.bind (si_parent_subscription invoice) id) id))"

definition is_catalog_event :: "string \<Rightarrow> bool" where
  "is_catalog_event t =
     (starts_with ''price.'' t \<or> starts_with ''product.'' t \<or> starts_with ''coupon.'' t \<or>
      starts_with ''promotion_code.'' t)"

definition parse_object :: "(string \<Rightarrow> string + 'a) \<Rightarrow> string \<Rightarrow> string \<Rightarrow> string + 'a" where
  "parse_object dec obj event_type =
     (case dec obj of Inl e \<Rightarrow> Inl (''malformed Stripe '' @ event_type @ '' object: '' @ e) | Inr x \<Rightarrow> Inr x)"

definition normalize_event :: "stripe_libs \<Rightarrow> webhook_event \<Rightarrow> string + stripe_event" where
  "normalize_event lib event =
     (let t = we_event_type event;
          done = (\<lambda>k. Inr \<lparr>ev_id = we_id event, ev_kind = k\<rparr>) in
      if t = ''customer.subscription.created'' \<or> t = ''customer.subscription.updated''
      then (case parse_object (value_subscription lib) (we_object event) t of
              Inl e \<Rightarrow> Inl e | Inr sub \<Rightarrow> done (SubscriptionUpsert (map_subscription lib sub)))
      else if t = ''customer.subscription.deleted''
      then (case parse_object (value_subscription lib) (we_object event) t of
              Inl e \<Rightarrow> Inl e | Inr sub \<Rightarrow> done (SubscriptionDeleted (st_id sub)))
      else if t = ''invoice.payment_failed''
      then (case parse_object (value_invoice lib) (we_object event) t of
              Inl e \<Rightarrow> Inl e
            | Inr invoice \<Rightarrow> (case invoice_subscription_id invoice of
                           Some i \<Rightarrow> done (PaymentFailed i) | None \<Rightarrow> done Ignored))
      else if t = ''checkout.session.completed''
      then (case parse_object (value_checkout lib) (we_object event) t of
              Inl e \<Rightarrow> Inl e
            | Inr ses \<Rightarrow>
                (case (co_customer ses, co_setup_intent ses) of
                   (Some c, Some i) \<Rightarrow>
                     if co_mode ses = Some ''setup'' then done (CardSetupCompleted (into_id c) (into_id i)) else done Ignored
                 | _ \<Rightarrow> done Ignored))
      else if is_catalog_event t then done CatalogChanged
      else done Ignored)"

section \<open>The webhook signature\<close>

definition SIGNATURE_TOLERANCE_SECS :: int where "SIGNATURE_TOLERANCE_SECS = 300"

definition scan_part :: "int option \<times> string list \<Rightarrow> string \<Rightarrow> int option \<times> string list" where
  "scan_part acc part =
     (case split_once (CHR ''='') part of
        None \<Rightarrow> acc
      | Some (key, value) \<Rightarrow>
          if trim key = ''t'' then (parse_i64 (trim value), snd acc)
          else if trim key = ''v1'' then (fst acc, snd acc @ [trim value])
          else acc)"

definition scan_header :: "string \<Rightarrow> int option \<times> string list" where
  "scan_header sig_header = foldl scan_part (None, []) (split_on (CHR '','') sig_header)"

definition verify_signature :: "stripe_libs \<Rightarrow> string \<Rightarrow> string \<Rightarrow> string \<Rightarrow> int \<Rightarrow> string + unit" where
  "verify_signature lib payload sig_header secret now =
     (case scan_header sig_header of (ts, signatures) \<Rightarrow>
        case ts of
          None \<Rightarrow> Inl ''Stripe-Signature header has no valid timestamp''
        | Some t \<Rightarrow>
            if signatures = [] then Inl ''Stripe-Signature header has no v1 signature''
            else if \<not> list_ex (\<lambda>sig. case hex_decode lib sig of
                                       None \<Rightarrow> False
                                     | Some bytes \<Rightarrow> bytes = hmac_sha256 lib secret (show_int t @ ''.'' @ payload)) signatures
            then Inl ''no Stripe webhook signature matched''
            else if as_i64 \<bar>as_i64 (now - t)\<bar> > SIGNATURE_TOLERANCE_SECS
            then Inl ''Stripe webhook timestamp outside tolerance''
            else Inr ())"

section \<open>The client\<close>

datatype http_method = GET | POST

record http_request =
  rq_method :: http_method
  rq_url :: string
  rq_bearer :: string
  rq_params :: "(string \<times> string) list"

record 's stripe_client =
  sc_send :: "http_request \<Rightarrow> 's \<Rightarrow> (string + nat \<times> string) \<times> 's"
  sc_lib :: stripe_libs
  sc_api_base :: string
  sc_secret_key :: string
  sc_webhook_secret :: string
  sc_account_base_url :: string

definition trim_end_matches :: "char \<Rightarrow> string \<Rightarrow> string" where
  "trim_end_matches c s = rev (dropWhile (\<lambda>x. x = c) (rev s))"

definition with_base ::
  "(http_request \<Rightarrow> 's \<Rightarrow> (string + nat \<times> string) \<times> 's) \<Rightarrow> stripe_libs \<Rightarrow> string \<Rightarrow> string \<Rightarrow> string \<Rightarrow> string
    \<Rightarrow> 's stripe_client" where
  "with_base send lib base_url secret_key webhook_secret account_base_url =
     \<lparr>sc_send = send, sc_lib = lib, sc_api_base = trim_end_matches (CHR ''/'') base_url,
      sc_secret_key = secret_key, sc_webhook_secret = webhook_secret,
      sc_account_base_url = trim_end_matches (CHR ''/'') account_base_url\<rparr>"

definition is_success :: "nat \<Rightarrow> bool" where
  "is_success status = (200 \<le> status \<and> status < 300)"

definition decoded :: "(string \<Rightarrow> string + 'a) \<Rightarrow> string \<Rightarrow> string \<Rightarrow> gateway_error + 'a" where
  "decoded dec path body =
     (case dec body of
        Inl e \<Rightarrow> Inl (GatewayError (''malformed Stripe response from '' @ path @ '': '' @ e)) | Inr x \<Rightarrow> Inr x)"

definition error_detail :: "stripe_libs \<Rightarrow> string \<Rightarrow> string" where
  "error_detail lib body = (case json_error lib body of Inl _ \<Rightarrow> [] | Inr e \<Rightarrow> describe e)"

definition status_error :: "stripe_libs \<Rightarrow> string \<Rightarrow> nat \<Rightarrow> string \<Rightarrow> gateway_error" where
  "status_error lib path status body =
     GatewayError (''Stripe '' @ path @ '' returned '' @ status_text lib status @ error_detail lib body)"

definition decode_response ::
  "stripe_libs \<Rightarrow> (string \<Rightarrow> string + 'a) \<Rightarrow> string \<Rightarrow> nat \<Rightarrow> string \<Rightarrow> gateway_error + 'a" where
  "decode_response lib dec path status body =
     (if \<not> is_success status then Inl (status_error lib path status body) else decoded dec path body)"

definition send_request :: "'s stripe_client \<Rightarrow> http_method \<Rightarrow> string \<Rightarrow> (string \<times> string) list \<Rightarrow> (nat \<times> string, 's) gateway_call" where
  "send_request c meth path params s =
     (case sc_send c \<lparr>rq_method = meth, rq_url = sc_api_base c @ path, rq_bearer = sc_secret_key c, rq_params = params\<rparr> s of
        (Inl e, s) \<Rightarrow> (Inl (GatewayError e), s)
      | (Inr resp, s) \<Rightarrow> (Inr resp, s))"

definition post_form :: "'s stripe_client \<Rightarrow> (string \<Rightarrow> string + 'a) \<Rightarrow> string \<Rightarrow> (string \<times> string) list \<Rightarrow> ('a, 's) gateway_call" where
  "post_form c dec path form =
     and_then (send_request c POST path form) (\<lambda>(status, body). ret (decode_response (sc_lib c) dec path status body))"

definition get_json :: "'s stripe_client \<Rightarrow> (string \<Rightarrow> string + 'a) \<Rightarrow> string \<Rightarrow> (string \<times> string) list \<Rightarrow> ('a, 's) gateway_call" where
  "get_json c dec path query =
     and_then (send_request c GET path query) (\<lambda>(status, body). ret (decode_response (sc_lib c) dec path status body))"

definition coupon_aware_response ::
  "stripe_libs \<Rightarrow> (string \<Rightarrow> string + 'a) \<Rightarrow> string \<Rightarrow> bool \<Rightarrow> nat \<Rightarrow> string \<Rightarrow> gateway_error + 'a" where
  "coupon_aware_response lib dec path coupon_applied status body =
     (if is_success status then decoded dec path body
      else if coupon_applied \<and> status = 400 \<and>
              (case json_error lib body of Inl _ \<Rightarrow> False | Inr e \<Rightarrow> is_coupon_related e)
      then Inl CouponRejected
      else Inl (status_error lib path status body))"

definition post_form_coupon_aware ::
  "'s stripe_client \<Rightarrow> (string \<Rightarrow> string + 'a) \<Rightarrow> string \<Rightarrow> (string \<times> string) list \<Rightarrow> bool \<Rightarrow> ('a, 's) gateway_call" where
  "post_form_coupon_aware c dec path form coupon_applied =
     and_then (send_request c POST path form)
       (\<lambda>(status, body). ret (coupon_aware_response (sc_lib c) dec path coupon_applied status body))"

definition orelse_err :: "string \<Rightarrow> 'a option \<Rightarrow> gateway_error + 'a" where
  "orelse_err msg x = (case x of None \<Rightarrow> Inl (GatewayError msg) | Some y \<Rightarrow> Inr y)"

definition checkout_form ::
  "string \<Rightarrow> string option \<Rightarrow> string \<Rightarrow> string \<Rightarrow> string \<Rightarrow> string option \<Rightarrow> int option \<Rightarrow> (string \<times> string) list" where
  "checkout_form base customer_id email price_id tenant_id coupon trial_end =
     [(''mode'', ''subscription''),
      (''success_url'', base @ ''/billing/success''),
      (''cancel_url'', base @ ''/billing/cancel''),
      (''line_items[0][price]'', price_id),
      (''line_items[0][quantity]'', ''1''),
      (''subscription_data[metadata][tenant_id]'', tenant_id)] @
     (case customer_id of Some cid \<Rightarrow> [(''customer'', cid)] | None \<Rightarrow> [(''customer_email'', email)]) @
     (case coupon of Some c \<Rightarrow> [(''discounts[0][coupon]'', c)] | None \<Rightarrow> []) @
     (case trial_end of Some ts \<Rightarrow> [(''subscription_data[trial_end]'', show_int ts)] | None \<Rightarrow> [])"

definition create_checkout_session ::
  "'s stripe_client \<Rightarrow> string option \<Rightarrow> string \<Rightarrow> string \<Rightarrow> string \<Rightarrow> string option \<Rightarrow> int option
    \<Rightarrow> (checkout_session, 's) gateway_call" where
  "create_checkout_session c customer_id email price_id tenant_id coupon trial_end =
     and_then
       (post_form_coupon_aware c (json_session (sc_lib c)) ''/v1/checkout/sessions''
          (checkout_form (sc_account_base_url c) customer_id email price_id tenant_id coupon trial_end) (coupon \<noteq> None))
       (\<lambda>ses. and_then (ret (orelse_err ''Stripe checkout session has no URL'' (sr_url ses)))
       (\<lambda>url. ret (Inr \<lparr>cs_url = url, cs_customer_id = map_option into_id (sr_customer ses)\<rparr>)))"

definition create_setup_checkout_session :: "'s stripe_client \<Rightarrow> string \<Rightarrow> string \<Rightarrow> (string, 's) gateway_call" where
  "create_setup_checkout_session c customer_id currency =
     and_then
       (post_form c (json_session (sc_lib c)) ''/v1/checkout/sessions''
          [(''mode'', ''setup''), (''customer'', customer_id), (''currency'', currency),
           (''success_url'', sc_account_base_url c @ ''/billing/success''),
           (''cancel_url'', sc_account_base_url c @ ''/billing'')])
       (\<lambda>ses. ret (orelse_err ''Stripe setup session has no URL'' (sr_url ses)))"

definition list_plans :: "'s stripe_client \<Rightarrow> (plan_data list, 's) gateway_call" where
  "list_plans c =
     and_then
       (get_json c (json_prices (sc_lib c)) ''/v1/prices''
          [(''active'', ''true''), (''type'', ''recurring''), (''limit'', ''100''), (''expand[]'', ''data.product'')])
       (\<lambda>page. ret (Inr (List.map_filter map_plan page)))"

definition list_promotions :: "'s stripe_client \<Rightarrow> (promotion_data list, 's) gateway_call" where
  "list_promotions c =
     and_then (get_json c (json_coupons (sc_lib c)) ''/v1/coupons'' [(''limit'', ''100'')])
       (\<lambda>page. ret (Inr (map (map_coupon (sc_lib c)) page)))"

definition details_of :: "stripe_libs \<Rightarrow> stripe_subscription \<Rightarrow> gateway_error + subscription_details" where
  "details_of lib sub =
     (case st_items sub of
        [] \<Rightarrow> Inl (GatewayError ''Stripe subscription has no items'')
      | item # _ \<Rightarrow>
          (case it_id item of
             None \<Rightarrow> Inl (GatewayError ''Stripe subscription item has no id'')
           | Some item_id \<Rightarrow>
          (case it_price item of
             None \<Rightarrow> Inl (GatewayError ''Stripe subscription item has no price'')
           | Some price \<Rightarrow>
          (case or_else (st_current_period_end sub) (it_current_period_end item) of
             None \<Rightarrow> Inl (GatewayError ''Stripe subscription has no current_period_end'')
           | Some ts \<Rightarrow>
          (case at_timestamp lib ts of
             None \<Rightarrow> Inl (GatewayError ''invalid current_period_end timestamp'')
           | Some period_end \<Rightarrow>
               Inr \<lparr>dt_item_id = item_id, dt_price_id = sp_id price, dt_current_period_end = period_end,
                    dt_schedule_id = map_option into_id (st_schedule sub),
                    dt_trialing = (st_status sub = ''trialing'')\<rparr>)))))"

definition get_subscription :: "'s stripe_client \<Rightarrow> string \<Rightarrow> (subscription_details, 's) gateway_call" where
  "get_subscription c subscription_id =
     and_then (get_json c (json_subscription (sc_lib c)) (''/v1/subscriptions/'' @ subscription_id) [(''expand[]'', ''schedule'')])
       (\<lambda>sub. ret (details_of (sc_lib c) sub))"

definition future_phase :: "stripe_libs \<Rightarrow> instant \<Rightarrow> stripe_subscription_schedule \<Rightarrow> scheduled_change option" where
  "future_phase lib current_period_end schedule =
     Option.bind (find (\<lambda>p. case ph_start_date p of None \<Rightarrow> False | Some s \<Rightarrow> timestamp current_period_end \<le> s) (sh_phases schedule))
       (\<lambda>phase. Option.bind (Option.bind (first_of (ph_items phase)) id)
       (\<lambda>price_id. Option.bind (Option.bind (ph_start_date phase) (at_timestamp lib))
       (\<lambda>effective_at. Some \<lparr>ch_price_id = price_id, ch_effective_at = effective_at\<rparr>)))"

definition pending_scheduled_change :: "'s stripe_client \<Rightarrow> string \<Rightarrow> instant \<Rightarrow> (scheduled_change option, 's) gateway_call" where
  "pending_scheduled_change c schedule_id current_period_end =
     and_then (get_json c (json_schedule (sc_lib c)) (''/v1/subscription_schedules/'' @ schedule_id) [])
       (\<lambda>schedule. ret (Inr (future_phase (sc_lib c) current_period_end schedule)))"

definition upgrade_subscription ::
  "'s stripe_client \<Rightarrow> string \<Rightarrow> string \<Rightarrow> string \<Rightarrow> string option \<Rightarrow> bool \<Rightarrow> (unit, 's) gateway_call" where
  "upgrade_subscription c subscription_id item_id new_price_id coupon end_trial =
     post_form_coupon_aware c (json_any (sc_lib c)) (''/v1/subscriptions/'' @ subscription_id)
       ([(''items[0][id]'', item_id), (''items[0][price]'', new_price_id), (''proration_behavior'', ''create_prorations'')] @
        (case coupon of Some cp \<Rightarrow> [(''discounts[0][coupon]'', cp)] | None \<Rightarrow> []) @
        (if end_trial then [(''trial_end'', ''now'')] else []))
       (coupon \<noteq> None)"

definition schedule_downgrade ::
  "'s stripe_client \<Rightarrow> string \<Rightarrow> string \<Rightarrow> string \<Rightarrow> instant \<Rightarrow> (instant, 's) gateway_call" where
  "schedule_downgrade c subscription_id current_price_id new_price_id current_period_end =
     and_then (post_form c (json_schedule (sc_lib c)) ''/v1/subscription_schedules'' [(''from_subscription'', subscription_id)])
     (\<lambda>created. and_then (ret (orelse_err ''Stripe schedule has no seeded phase''
                  (Option.bind (first_of (sh_phases created)) ph_start_date)))
     (\<lambda>phase0_start. and_then
       (post_form c (json_any (sc_lib c)) (''/v1/subscription_schedules/'' @ sh_id created)
          [(''end_behavior'', ''release''), (''proration_behavior'', ''none''),
           (''phases[0][items][0][price]'', current_price_id),
           (''phases[0][start_date]'', show_int phase0_start),
           (''phases[0][end_date]'', show_int (timestamp current_period_end)),
           (''phases[1][items][0][price]'', new_price_id),
           (''phases[1][start_date]'', show_int (timestamp current_period_end))])
     (\<lambda>_. ret (Inr current_period_end))))"

definition release_schedule :: "'s stripe_client \<Rightarrow> string \<Rightarrow> (unit, 's) gateway_call" where
  "release_schedule c schedule_id =
     post_form c (json_any (sc_lib c)) (''/v1/subscription_schedules/'' @ schedule_id @ ''/release'') []"

definition set_default_payment_method_from_setup ::
  "'s stripe_client \<Rightarrow> string \<Rightarrow> string option \<Rightarrow> string \<Rightarrow> (unit, 's) gateway_call" where
  "set_default_payment_method_from_setup c customer_id subscription_id setup_intent_id =
     and_then (get_json c (json_setup_intent (sc_lib c)) (''/v1/setup_intents/'' @ setup_intent_id) [])
     (\<lambda>setup. and_then (ret (orelse_err ''setup intent has no payment method'' (map_option into_id setup)))
     (\<lambda>pm. and_then (post_form c (json_any (sc_lib c)) (''/v1/customers/'' @ customer_id)
                        [(''invoice_settings[default_payment_method]'', pm)])
     (\<lambda>_. case subscription_id of
            None \<Rightarrow> ret (Inr ())
          | Some sub_id \<Rightarrow> post_form c (json_any (sc_lib c)) (''/v1/subscriptions/'' @ sub_id) [(''default_payment_method'', pm)])))"

definition construct_event :: "'s stripe_client \<Rightarrow> instant \<Rightarrow> string \<Rightarrow> string \<Rightarrow> string + stripe_event" where
  "construct_event c now payload sig_header =
     (case verify_signature (sc_lib c) payload sig_header (sc_webhook_secret c) (timestamp now) of
        Inl e \<Rightarrow> Inl e
      | Inr _ \<Rightarrow>
          (case json_event (sc_lib c) payload of
             Inl e \<Rightarrow> Inl (''malformed Stripe webhook payload: '' @ e)
           | Inr event \<Rightarrow> normalize_event (sc_lib c) event))"

definition default_payment_method :: "'s stripe_client \<Rightarrow> string \<Rightarrow> (payment_method_view option, 's) gateway_call" where
  "default_payment_method c customer_id =
     and_then (get_json c (json_customer (sc_lib c)) (''/v1/customers/'' @ customer_id)
                 [(''expand[]'', ''invoice_settings.default_payment_method'')])
       (\<lambda>customer. ret (Inr (map_option
          (\<lambda>card. \<lparr>pm_brand = cd_brand card, pm_last4 = cd_last4 card, pm_exp_month = cd_exp_month card, pm_exp_year = cd_exp_year card\<rparr>)
          (Option.bind (Option.bind customer id) id))))"

definition INVOICE_PAGE_LIMIT :: string where "INVOICE_PAGE_LIMIT = ''24''"

definition list_invoices :: "'s stripe_client \<Rightarrow> string \<Rightarrow> (invoice_view list, 's) gateway_call" where
  "list_invoices c customer_id =
     and_then (get_json c (json_invoices (sc_lib c)) ''/v1/invoices'' [(''customer'', customer_id), (''limit'', INVOICE_PAGE_LIMIT)])
       (\<lambda>page. ret (Inr (List.map_filter (map_invoice (sc_lib c)) page)))"

definition client_gateway :: "'s stripe_client \<Rightarrow> 's stripe_gateway" where
  "client_gateway c =
     \<lparr>gw_create_checkout_session = create_checkout_session c,
      gw_create_setup_checkout_session = create_setup_checkout_session c,
      gw_list_plans = list_plans c, gw_list_promotions = list_promotions c,
      gw_get_subscription = get_subscription c,
      gw_pending_scheduled_change = pending_scheduled_change c,
      gw_upgrade_subscription = upgrade_subscription c, gw_schedule_downgrade = schedule_downgrade c,
      gw_release_schedule = release_schedule c,
      gw_set_default_payment_method_from_setup = set_default_payment_method_from_setup c,
      gw_construct_event = construct_event c, gw_default_payment_method = default_payment_method c,
      gw_list_invoices = list_invoices c\<rparr>"

section \<open>What a verified signature shows\<close>

lemma as_i64_near: "as_i64 \<bar>as_i64 x\<bar> \<le> SIGNATURE_TOLERANCE_SECS \<longleftrightarrow> \<bar>x\<bar> \<le> SIGNATURE_TOLERANCE_SECS"
  by (auto simp: as_i64_def SIGNATURE_TOLERANCE_SECS_def min_def max_def)

lemma verify_signature_iff:
  "verify_signature lib payload sig_header secret now = Inr () \<longleftrightarrow>
    (\<exists>t. fst (scan_header sig_header) = Some t \<and> \<bar>now - t\<bar> \<le> SIGNATURE_TOLERANCE_SECS \<and>
      (\<exists>v \<in> set (snd (scan_header sig_header)).
        hex_decode lib v = Some (hmac_sha256 lib secret (show_int t @ ''.'' @ payload))))"
proof (cases "scan_header sig_header")
  case (Pair ts sigs)
  then show ?thesis
    using as_i64_near [of "now - the ts"]
    by (cases ts) (auto simp: verify_signature_def list_ex_iff not_less split: option.splits)
qed

lemma construct_event_verified:
  "construct_event c now payload sig_header = Inr ev \<Longrightarrow>
    verify_signature (sc_lib c) payload sig_header (sc_webhook_secret c) (timestamp now) = Inr ()"
  by (auto simp: construct_event_def split: sum.splits)

end
