(* ===== verification/Billing.thy ===== *)
theory Billing
  imports Stripe
begin

text \<open>
  The payment aggregate (\<open>billing/src\<close>): the repository over \<open>billing_customers\<close>, the webhook ledger and the
  catalog projection, and the service on top of the provider trait and the license ports. The state is
  the authority, the catalog tables, the resync permit and the provider's own opaque state. The provider
  is an arbitrary \<open>stripe_gateway\<close>. Between the license read and the license write of \<open>apply_upsert\<close> other
  tasks may run: they are the argument \<open>race\<close>. Subtraction of \<open>i64\<close> amounts wraps.
\<close>

section \<open>Rows and the catalog\<close>

definition PROVIDER_STRIPE :: string where "PROVIDER_STRIPE = ''stripe''"

record billing_ref =
  br_customer_id :: "string option"
  br_subscription_id :: "string option"
  br_price_id :: "string option"

record catalog_plan =
  cp_price_id :: string
  cp_product_id :: string
  cp_name :: string
  cp_level :: u32
  cp_entitlement :: entitlement
  cp_amount_cents :: int
  cp_currency :: string
  cp_interval :: string

record catalog_promo =
  co_coupon_id :: string
  co_name :: string
  co_percent_off :: "rat option"
  co_amount_off :: "int option"
  co_currency :: "string option"
  co_applies_to_products :: "string list"
  co_start :: "instant option"
  co_redeem_by :: "instant option"

record catalog_snapshot =
  cat_plans :: "catalog_plan list"
  cat_promos :: "catalog_promo list"
  cat_last_synced_at :: "instant option"

section \<open>Repository\<close>

definition stripe_row :: "string \<Rightarrow> billing_customer \<Rightarrow> bool" where
  "stripe_row tid r = (bc_tenant_id r = tid \<and> bc_provider r = PROVIDER_STRIPE)"

definition upsert_row ::
  "string \<Rightarrow> (billing_customer \<Rightarrow> billing_customer) \<Rightarrow> billing_customer \<Rightarrow> db \<Rightarrow> string + db" where
  "upsert_row tid f fresh d =
     (if sql_exists (stripe_row tid) (billing_customers d)
      then Inr (d\<lparr>billing_customers := sql_update (stripe_row tid) f (billing_customers d)\<rparr>)
      else if \<not> tenant_exists tid d then Inl ''foreign key violation''
      else Inr (d\<lparr>billing_customers := billing_customers d @ [fresh]\<rparr>))"

definition upsert_customer :: "instant \<Rightarrow> string \<Rightarrow> string \<Rightarrow> db \<Rightarrow> string + db" where
  "upsert_customer now tid cid d =
     upsert_row tid (\<lambda>r. r\<lparr>bc_customer_id := Some cid, bc_updated_at := now\<rparr>)
       \<lparr>bc_tenant_id = tid, bc_provider = PROVIDER_STRIPE, bc_customer_id = Some cid,
        bc_subscription_id = None, bc_price_id = None, bc_created_at = now, bc_updated_at = now\<rparr> d"

definition upsert_subscription ::
  "instant \<Rightarrow> string \<Rightarrow> string \<Rightarrow> string \<Rightarrow> string option \<Rightarrow> db \<Rightarrow> string + db" where
  "upsert_subscription now tid cid sid price d =
     upsert_row tid
       (\<lambda>r. r\<lparr>bc_customer_id := Some cid, bc_subscription_id := Some sid, bc_price_id := price, bc_updated_at := now\<rparr>)
       \<lparr>bc_tenant_id = tid, bc_provider = PROVIDER_STRIPE, bc_customer_id = Some cid,
        bc_subscription_id = Some sid, bc_price_id = price, bc_created_at = now, bc_updated_at = now\<rparr> d"

definition customer_id :: "string \<Rightarrow> db \<Rightarrow> string option" where
  "customer_id tid d =
     Option.bind (find (\<lambda>r. stripe_row tid r \<and> bc_customer_id r \<noteq> None) (billing_customers d)) bc_customer_id"

definition get_billing_ref :: "string \<Rightarrow> db \<Rightarrow> billing_ref option" where
  "get_billing_ref tid d =
     map_option (\<lambda>r. \<lparr>br_customer_id = bc_customer_id r, br_subscription_id = bc_subscription_id r,
                      br_price_id = bc_price_id r\<rparr>)
       (find (stripe_row tid) (billing_customers d))"

definition tenant_for_subscription :: "string \<Rightarrow> db \<Rightarrow> string option" where
  "tenant_for_subscription sid d =
     map_option bc_tenant_id
       (find (\<lambda>r. bc_subscription_id r = Some sid \<and> bc_provider r = PROVIDER_STRIPE) (billing_customers d))"

definition subscription_for_customer :: "string \<Rightarrow> db \<Rightarrow> string option" where
  "subscription_for_customer cid d =
     Option.bind
       (find (\<lambda>r. bc_customer_id r = Some cid \<and> bc_provider r = PROVIDER_STRIPE) (billing_customers d))
       bc_subscription_id"

definition is_event_processed :: "string \<Rightarrow> db \<Rightarrow> bool" where
  "is_event_processed eid d = sql_exists (\<lambda>r. fst r = eid) (processed_stripe_events d)"

definition record_event :: "string \<Rightarrow> instant \<Rightarrow> db \<Rightarrow> db" where
  "record_event eid now d =
     (if is_event_processed eid d then d
      else d\<lparr>processed_stripe_events := processed_stripe_events d @ [(eid, now)]\<rparr>)"

definition fits_i32 :: "u32 \<Rightarrow> bool" where
  "fits_i32 n = (unat n < 2 ^ 31)"

fun insert_plans :: "catalog_plan list \<Rightarrow> catalog_plan list \<Rightarrow> string + catalog_plan list" where
  "insert_plans [] t = Inr t"
| "insert_plans (p # ps) t =
     (if \<not> (fits_i32 (cp_level p) \<and> fits_i32 (max_networks (cp_entitlement p)) \<and> fits_i32 (max_daemons (cp_entitlement p)))
      then Inl ''out of range integral type conversion attempted''
      else if sql_exists (\<lambda>r. cp_price_id r = cp_price_id p) t then Inl ''duplicate key''
      else insert_plans ps (t @ [p]))"

fun insert_promos :: "catalog_promo list \<Rightarrow> catalog_promo list \<Rightarrow> string + catalog_promo list" where
  "insert_promos [] t = Inr t"
| "insert_promos (c # cs) t =
     (if sql_exists (\<lambda>r. co_coupon_id r = co_coupon_id c) t then Inl ''duplicate key''
      else insert_promos cs (t @ [c]))"

definition replace_catalog ::
  "catalog_plan list \<Rightarrow> catalog_promo list \<Rightarrow> instant \<Rightarrow> catalog_snapshot \<Rightarrow> (string + unit) \<times> catalog_snapshot" where
  "replace_catalog plans promos now cat =
     (case insert_plans plans [] of
        Inl e \<Rightarrow> (Inl e, cat)
      | Inr ps \<Rightarrow>
          (case insert_promos promos [] of
             Inl e \<Rightarrow> (Inl e, cat)
           | Inr cs \<Rightarrow> (Inr (), \<lparr>cat_plans = ps, cat_promos = cs, cat_last_synced_at = Some now\<rparr>)))"

definition read_catalog :: "catalog_snapshot \<Rightarrow> catalog_snapshot" where
  "read_catalog cat = cat\<lparr>cat_plans := sort_key (\<lambda>p. unat (cp_level p)) (cat_plans cat)\<rparr>"

section \<open>Prices and promotions\<close>

definition wrap_i64 :: "int \<Rightarrow> int" where
  "wrap_i64 x = (x + 2 ^ 63) mod 2 ^ 64 - 2 ^ 63"

definition percent_of :: "int \<Rightarrow> rat \<Rightarrow> int" where
  "percent_of amount_cents pct = as_i64 (f64_round_away (f64_div (f64_mul (f64_of_int amount_cents) pct) 100))"

definition discounted_amount :: "int \<Rightarrow> string \<Rightarrow> catalog_promo \<Rightarrow> int" where
  "discounted_amount amount_cents currency c =
     (case co_percent_off c of
        Some pct \<Rightarrow> max (wrap_i64 (amount_cents - percent_of amount_cents pct)) 0
      | None \<Rightarrow>
          (case co_amount_off c of
             None \<Rightarrow> amount_cents
           | Some off \<Rightarrow>
               if co_currency c = Some currency then max (wrap_i64 (amount_cents - off)) 0 else amount_cents))"

definition promo_is_live :: "catalog_promo \<Rightarrow> catalog_plan \<Rightarrow> instant \<Rightarrow> bool" where
  "promo_is_live c plan now =
     ((case co_start c of None \<Rightarrow> True | Some s \<Rightarrow> s \<le> now) \<and>
      (case co_redeem_by c of None \<Rightarrow> False | Some e \<Rightarrow> now \<le> e) \<and>
      (co_applies_to_products c = [] \<or> list_ex (\<lambda>p. p = cp_product_id plan) (co_applies_to_products c)))"

fun min_by_key :: "('a \<Rightarrow> int) \<Rightarrow> 'a list \<Rightarrow> 'a option" where
  "min_by_key f [] = None"
| "min_by_key f (x # xs) =
     (case min_by_key f xs of None \<Rightarrow> Some x | Some m \<Rightarrow> if f x \<le> f m then Some x else Some m)"

definition best_live_promo :: "catalog_plan \<Rightarrow> catalog_promo list \<Rightarrow> instant \<Rightarrow> catalog_promo option" where
  "best_live_promo plan promos now =
     min_by_key (discounted_amount (cp_amount_cents plan) (cp_currency plan))
       (filter (\<lambda>c. promo_is_live c plan now) promos)"

definition find_plan :: "string \<Rightarrow> catalog_snapshot \<Rightarrow> catalog_plan option" where
  "find_plan price_id snapshot = find (\<lambda>p. cp_price_id p = price_id) (cat_plans snapshot)"

definition live_coupon_for_price :: "catalog_snapshot \<Rightarrow> string \<Rightarrow> instant \<Rightarrow> string option" where
  "live_coupon_for_price snapshot price_id now =
     Option.bind (find_plan price_id snapshot)
       (\<lambda>plan. map_option co_coupon_id (best_live_promo plan (cat_promos snapshot) now))"

definition validate_plans :: "plan_data list \<Rightarrow> catalog_plan list" where
  "validate_plans raw =
     (let well_formed = List.map_filter (\<lambda>p.
            case (pd_level p, pd_entitlement p) of
              (Some level, Some ent) \<Rightarrow>
                Some \<lparr>cp_price_id = pd_price_id p, cp_product_id = pd_product_id p, cp_name = pd_name p,
                      cp_level = level, cp_entitlement = ent, cp_amount_cents = pd_amount_cents p,
                      cp_currency = pd_currency p, cp_interval = pd_interval p\<rparr>
            | _ \<Rightarrow> None) raw in
      filter (\<lambda>p. length (filter (\<lambda>q. cp_level q = cp_level p) well_formed) = 1) well_formed)"

definition validate_promos :: "promotion_data list \<Rightarrow> catalog_promo list" where
  "validate_promos raw =
     map (\<lambda>c. \<lparr>co_coupon_id = pr_coupon_id c, co_name = pr_name c, co_percent_off = pr_percent_off c,
               co_amount_off = pr_amount_off c, co_currency = pr_currency c,
               co_applies_to_products = pr_applies_to_products c, co_start = pr_start c,
               co_redeem_by = pr_redeem_by c\<rparr>)
       (filter pr_auto_apply raw)"

section \<open>Errors and views\<close>

datatype billing_error =
    InvalidRequest string
  | PromoUnavailable int string
  | Stale
  | BillingInternal string

fun billing_api_error :: "billing_error \<Rightarrow> api_error" where
  "billing_api_error (InvalidRequest m) = BadRequest m"
| "billing_api_error (PromoUnavailable a c) = Conflict ''promotion no longer available''"
| "billing_api_error Stale = ServiceUnavailable ''plan catalog temporarily unavailable''"
| "billing_api_error (BillingInternal e) = Internal e"

record promo_view =
  pv_amount_cents_after :: int
  pv_label :: string
  pv_ends_at :: instant

record plan_view =
  pl_price_id :: string
  pl_name :: string
  pl_level :: u32
  pl_entitlement :: entitlement
  pl_amount_cents :: int
  pl_currency :: string
  pl_interval :: string
  pl_promo :: "promo_view option"

datatype plan_change_effect = Upgraded | DowngradeScheduled | DowngradeCanceled

record change_plan_response =
  cr_effect :: plan_change_effect
  cr_effective_at :: "instant option"
  cr_current_price_id :: "string option"

record pending_change_view =
  pc_price_id :: string
  pc_name :: string
  pc_level :: u32
  pc_effective_at :: instant

record billing_subscription_view =
  bv_current_price_id :: "string option"
  bv_pending_change :: "pending_change_view option"
  bv_trialing :: bool

definition plan_view_of :: "catalog_promo list \<Rightarrow> instant \<Rightarrow> catalog_plan \<Rightarrow> plan_view" where
  "plan_view_of promos now plan =
     \<lparr>pl_price_id = cp_price_id plan, pl_name = cp_name plan, pl_level = cp_level plan,
      pl_entitlement = cp_entitlement plan, pl_amount_cents = cp_amount_cents plan,
      pl_currency = cp_currency plan, pl_interval = cp_interval plan,
      pl_promo = map_option (\<lambda>c.
        \<lparr>pv_amount_cents_after = discounted_amount (cp_amount_cents plan) (cp_currency plan) c,
         pv_label = co_name c,
         pv_ends_at = (case co_redeem_by c of None \<Rightarrow> now | Some e \<Rightarrow> e)\<rparr>)
        (best_live_promo plan promos now)\<rparr>"

definition promo_aware_error :: "gateway_error \<Rightarrow> catalog_snapshot \<Rightarrow> string \<Rightarrow> billing_error" where
  "promo_aware_error e snapshot price_id =
     (case (e, find_plan price_id snapshot) of
        (CouponRejected, Some plan) \<Rightarrow> PromoUnavailable (cp_amount_cents plan) (cp_currency plan)
      | _ \<Rightarrow> BillingInternal (gateway_text e))"

section \<open>Webhook events\<close>

record 's billing =
  bl_auth :: authority
  bl_catalog :: catalog_snapshot
  bl_resync :: bool
  bl_stripe :: 's

definition record_ref :: "instant \<Rightarrow> string \<Rightarrow> subscription_data \<Rightarrow> authority \<Rightarrow> (string + unit) \<times> authority" where
  "record_ref now tid data w =
     (case upsert_subscription now tid (sd_customer_id data) (sd_subscription_id data) (sd_price_id data) (adb w) of
        Inl e \<Rightarrow> (Inl e, w)
      | Inr d \<Rightarrow> (Inr (), w\<lparr>adb := d\<rparr>))"

definition apply_upsert ::
  "string \<Rightarrow> instant \<Rightarrow> (authority \<Rightarrow> authority) \<Rightarrow> subscription_data \<Rightarrow> authority \<Rightarrow> (string + unit) \<times> authority" where
  "apply_upsert new_id now race data w =
     (let known = tenant_for_subscription (sd_subscription_id data) (adb w) in
      case or_else known (sd_tenant_id data) of
        None \<Rightarrow> (Inr (), w)
      | Some tid \<Rightarrow>
          if sd_status data = Canceled
          then (case known of Some t \<Rightarrow> (Inr (), cancel now t w) | None \<Rightarrow> (Inr (), w))
          else
            (let lic = port_current tid w; w = race w in
             if map_option sv_status lic \<in> {Some SubActive, Some PastDue}
             then
               (let ent = (case or_else (sd_entitlement data) (map_option sv_entitlement lic) of
                             None \<Rightarrow> entitlement_DEFAULT | Some e \<Rightarrow> e) in
                case record_ref now tid data w of
                  (Inl e, w) \<Rightarrow> (Inl e, w)
                | (Inr _, w) \<Rightarrow>
                    (Inr (), snd (update_paid now tid (sd_status data) ent (sd_current_period_end data) w)))
             else
               (case sd_entitlement data of
                  None \<Rightarrow> (Inr (), w)
                | Some ent \<Rightarrow>
                    (case record_ref now tid data w of
                       (Inl e, w) \<Rightarrow> (Inl e, w)
                     | (Inr _, w) \<Rightarrow>
                         convert_trial_to_paid new_id now tid (sd_status data) ent (sd_current_period_end data) w))))"

definition lift_auth :: "(string + unit) \<times> authority \<Rightarrow> 's billing \<Rightarrow> (billing_error + unit) \<times> 's billing" where
  "lift_auth r b = (case r of
       (Inl e, w) \<Rightarrow> (Inl (BillingInternal e), b\<lparr>bl_auth := w\<rparr>)
     | (Inr _, w) \<Rightarrow> (Inr (), b\<lparr>bl_auth := w\<rparr>))"

definition call_stripe ::
  "('a, 's) gateway_call \<Rightarrow> 's billing \<Rightarrow> (gateway_error + 'a) \<times> 's billing" where
  "call_stripe m b = (case m (bl_stripe b) of (r, s) \<Rightarrow> (r, b\<lparr>bl_stripe := s\<rparr>))"

fun apply_event_kind ::
  "'s stripe_gateway \<Rightarrow> string \<Rightarrow> instant \<Rightarrow> (authority \<Rightarrow> authority) \<Rightarrow> stripe_event_kind \<Rightarrow> 's billing
    \<Rightarrow> (billing_error + unit) \<times> 's billing" where
  "apply_event_kind gw new_id now race (SubscriptionUpsert data) b =
     lift_auth (apply_upsert new_id now race data (bl_auth b)) b"
| "apply_event_kind gw new_id now race (SubscriptionDeleted sid) b =
     (case tenant_for_subscription sid (adb (bl_auth b)) of
        None \<Rightarrow> (Inr (), b)
      | Some tid \<Rightarrow> (Inr (), b\<lparr>bl_auth := cancel now tid (bl_auth b)\<rparr>))"
| "apply_event_kind gw new_id now race (PaymentFailed sid) b =
     (case tenant_for_subscription sid (adb (bl_auth b)) of
        None \<Rightarrow> (Inr (), b)
      | Some tid \<Rightarrow> (Inr (), b\<lparr>bl_auth := snd (mark_past_due now tid (bl_auth b))\<rparr>))"
| "apply_event_kind gw new_id now race (CardSetupCompleted cid setup) b =
     (case call_stripe (gw_set_default_payment_method_from_setup gw cid
             (subscription_for_customer cid (adb (bl_auth b))) setup) b of
        (Inl e, b) \<Rightarrow> (Inl (BillingInternal (gateway_text e)), b)
      | (Inr _, b) \<Rightarrow> (Inr (), b))"
| "apply_event_kind gw new_id now race CatalogChanged b = (Inr (), b\<lparr>bl_resync := True\<rparr>)"
| "apply_event_kind gw new_id now race Ignored b = (Inr (), b)"

definition apply_event ::
  "'s stripe_gateway \<Rightarrow> string \<Rightarrow> instant \<Rightarrow> (authority \<Rightarrow> authority) \<Rightarrow> stripe_event \<Rightarrow> 's billing
    \<Rightarrow> (billing_error + unit) \<times> 's billing" where
  "apply_event gw new_id now race event b =
     (if is_event_processed (ev_id event) (adb (bl_auth b)) then (Inr (), b)
      else
        (case apply_event_kind gw new_id now race (ev_kind event) b of
           (Inl e, b) \<Rightarrow> (Inl e, b)
         | (Inr _, b) \<Rightarrow>
             (Inr (), b\<lparr>bl_auth := (bl_auth b)\<lparr>adb := record_event (ev_id event) now (adb (bl_auth b))\<rparr>\<rparr>)))"

definition handle_webhook ::
  "'s stripe_gateway \<Rightarrow> string \<Rightarrow> instant \<Rightarrow> (authority \<Rightarrow> authority) \<Rightarrow> string \<Rightarrow> string \<Rightarrow> 's billing
    \<Rightarrow> (billing_error + unit) \<times> 's billing" where
  "handle_webhook gw new_id now race payload sig b =
     (case gw_construct_event gw now payload sig of
        Inl e \<Rightarrow> (Inl (InvalidRequest (''invalid Stripe webhook: '' @ e)), b)
      | Inr event \<Rightarrow> apply_event gw new_id now race event b)"

section \<open>The catalog\<close>

definition sync_catalog :: "'s stripe_gateway \<Rightarrow> instant \<Rightarrow> 's billing \<Rightarrow> (string + unit) \<times> 's billing" where
  "sync_catalog gw now b =
     (case call_stripe (gw_list_plans gw) b of
        (Inl e, b) \<Rightarrow> (Inl (gateway_text e), b)
      | (Inr raw_plans, b) \<Rightarrow>
          (case call_stripe (gw_list_promotions gw) b of
             (Inl e, b) \<Rightarrow> (Inl (gateway_text e), b)
           | (Inr raw_promos, b) \<Rightarrow>
               (case replace_catalog (validate_plans raw_plans) (validate_promos raw_promos) now (bl_catalog b) of
                  (r, cat) \<Rightarrow> (r, b\<lparr>bl_catalog := cat\<rparr>))))"

definition plans :: "int \<Rightarrow> instant \<Rightarrow> 's billing \<Rightarrow> billing_error + plan_view list" where
  "plans catalog_stale_secs now b =
     (let snapshot = read_catalog (bl_catalog b) in
      case cat_last_synced_at snapshot of
        None \<Rightarrow> Inl Stale
      | Some ts \<Rightarrow>
          if now - ts \<le> secs catalog_stale_secs
          then Inr (map (plan_view_of (cat_promos snapshot) now) (cat_plans snapshot))
          else Inl Stale)"

section \<open>Checkout and plan changes\<close>

definition TRIAL_PRESERVE_MIN_HOURS :: int where "TRIAL_PRESERVE_MIN_HOURS = 48"

definition within_entitlement :: "entitlement \<Rightarrow> entitlement \<Rightarrow> bool" where
  "within_entitlement e l = (max_networks e \<le> max_networks l \<and> max_daemons e \<le> max_daemons l)"

definition checkout_trial_end ::
  "catalog_snapshot \<Rightarrow> instant \<Rightarrow> string \<Rightarrow> subscription_view option \<Rightarrow> int option" where
  "checkout_trial_end snapshot now price_id lic =
     (case lic of
        None \<Rightarrow> None
      | Some s \<Rightarrow>
          if sv_status s \<noteq> Trialing then None
          else Option.bind (find_plan price_id snapshot) (\<lambda>target.
               Option.bind (sv_trial_expires_at s) (\<lambda>expires.
               if within_entitlement (cp_entitlement target) (sv_entitlement s) \<and> expires > now + hours TRIAL_PRESERVE_MIN_HOURS
               then Some (timestamp expires) else None)))"

definition start_checkout ::
  "'s stripe_gateway \<Rightarrow> instant \<Rightarrow> string \<Rightarrow> string \<Rightarrow> string \<Rightarrow> bool \<Rightarrow> 's billing
    \<Rightarrow> (billing_error + string) \<times> 's billing" where
  "start_checkout gw now tid email price_id accept_full_price b =
     (let customer = customer_id tid (adb (bl_auth b));
          snapshot = read_catalog (bl_catalog b);
          coupon = (if accept_full_price then None else live_coupon_for_price snapshot price_id now);
          trial_end = checkout_trial_end snapshot now price_id (port_current tid (bl_auth b)) in
      case call_stripe (gw_create_checkout_session gw customer email price_id tid coupon trial_end) b of
        (Inl e, b) \<Rightarrow> (Inl (promo_aware_error e snapshot price_id), b)
      | (Inr ses, b) \<Rightarrow>
          (case cs_customer_id ses of
             None \<Rightarrow> (Inr (cs_url ses), b)
           | Some cid \<Rightarrow>
               (case upsert_customer now tid cid (adb (bl_auth b)) of
                  Inl e \<Rightarrow> (Inl (BillingInternal e), b)
                | Inr d \<Rightarrow> (Inr (cs_url ses), b\<lparr>bl_auth := (bl_auth b)\<lparr>adb := d\<rparr>\<rparr>))))"

definition restore_pending ::
  "'s stripe_gateway \<Rightarrow> string \<Rightarrow> string \<Rightarrow> scheduled_change option \<Rightarrow> instant \<Rightarrow> 's billing \<Rightarrow> 's billing" where
  "restore_pending gw sid current_price_id prior boundary b =
     (case prior of
        None \<Rightarrow> b
      | Some p \<Rightarrow> snd (call_stripe (gw_schedule_downgrade gw sid current_price_id (ch_price_id p) boundary) b))"

definition release_pending ::
  "'s stripe_gateway \<Rightarrow> subscription_details \<Rightarrow> 's billing \<Rightarrow> (billing_error + scheduled_change option) \<times> 's billing" where
  "release_pending gw details b =
     (case dt_schedule_id details of
        None \<Rightarrow> (Inr None, b)
      | Some sched \<Rightarrow>
          (case call_stripe (gw_pending_scheduled_change gw sched (dt_current_period_end details)) b of
             (Inl e, b) \<Rightarrow> (Inl (BillingInternal (gateway_text e)), b)
           | (Inr prior, b) \<Rightarrow>
               (case call_stripe (gw_release_schedule gw sched) b of
                  (Inl e, b) \<Rightarrow> (Inl (BillingInternal (gateway_text e)), b)
                | (Inr _, b) \<Rightarrow> (Inr prior, b))))"

definition act_on_plan ::
  "'s stripe_gateway \<Rightarrow> instant \<Rightarrow> string \<Rightarrow> string \<Rightarrow> bool \<Rightarrow> catalog_snapshot \<Rightarrow> u32 \<Rightarrow> u32 \<Rightarrow> subscription_details
    \<Rightarrow> scheduled_change option \<Rightarrow> 's billing \<Rightarrow> (billing_error + change_plan_response) \<times> 's billing" where
  "act_on_plan gw now sid price_id accept_full_price snapshot target_level current_level details prior b =
     (if target_level = current_level
      then (if dt_schedule_id details \<noteq> None
            then (Inr \<lparr>cr_effect = DowngradeCanceled, cr_effective_at = None,
                       cr_current_price_id = Some (dt_price_id details)\<rparr>, b)
            else (Inl (InvalidRequest ''already on this plan''), b))
      else if target_level > current_level
      then (let coupon = (if accept_full_price then None else live_coupon_for_price snapshot price_id now) in
            case call_stripe (gw_upgrade_subscription gw sid (dt_item_id details) price_id coupon (dt_trialing details)) b of
              (Inr _, b) \<Rightarrow> (Inr \<lparr>cr_effect = Upgraded, cr_effective_at = None, cr_current_price_id = Some price_id\<rparr>, b)
            | (Inl e, b) \<Rightarrow>
                (Inl (promo_aware_error e snapshot price_id),
                 restore_pending gw sid (dt_price_id details) prior (dt_current_period_end details) b))
      else (case call_stripe (gw_schedule_downgrade gw sid (dt_price_id details) price_id (dt_current_period_end details)) b of
              (Inr effective_at, b) \<Rightarrow>
                (Inr \<lparr>cr_effect = DowngradeScheduled, cr_effective_at = Some effective_at,
                      cr_current_price_id = Some (dt_price_id details)\<rparr>, b)
            | (Inl e, b) \<Rightarrow>
                (Inl (BillingInternal (gateway_text e)),
                 restore_pending gw sid (dt_price_id details) prior (dt_current_period_end details) b)))"

definition change_plan ::
  "'s stripe_gateway \<Rightarrow> instant \<Rightarrow> string \<Rightarrow> string \<Rightarrow> bool \<Rightarrow> 's billing
    \<Rightarrow> (billing_error + change_plan_response) \<times> 's billing" where
  "change_plan gw now tid price_id accept_full_price b =
     (case Option.bind (get_billing_ref tid (adb (bl_auth b))) br_subscription_id of
        None \<Rightarrow> (Inl (InvalidRequest ''no paid subscription to change''), b)
      | Some sid \<Rightarrow>
          (let snapshot = read_catalog (bl_catalog b) in
           case find_plan price_id snapshot of
             None \<Rightarrow> (Inl (InvalidRequest ''unknown plan''), b)
           | Some target \<Rightarrow>
               (case call_stripe (gw_get_subscription gw sid) b of
                  (Inl e, b) \<Rightarrow> (Inl (BillingInternal (gateway_text e)), b)
                | (Inr details, b) \<Rightarrow>
                    (case find_plan (dt_price_id details) snapshot of
                       None \<Rightarrow> (Inl (InvalidRequest ''current plan not in catalog''), b)
                     | Some cur \<Rightarrow>
                         (case release_pending gw details b of
                            (Inl e, b) \<Rightarrow> (Inl e, b)
                          | (Inr prior, b) \<Rightarrow>
                              act_on_plan gw now sid price_id accept_full_price snapshot (cp_level target) (cp_level cur)
                                details prior b)))))"

definition start_card_update :: "'s stripe_gateway \<Rightarrow> string \<Rightarrow> 's billing \<Rightarrow> (billing_error + string) \<times> 's billing" where
  "start_card_update gw tid b =
     (let bref = (case get_billing_ref tid (adb (bl_auth b)) of
                    None \<Rightarrow> \<lparr>br_customer_id = None, br_subscription_id = None, br_price_id = None\<rparr> | Some r \<Rightarrow> r) in
      case br_customer_id bref of
        None \<Rightarrow> (Inl (InvalidRequest ''tenant has no billing account yet''), b)
      | Some cid \<Rightarrow>
          (let currency = (case Option.bind (br_price_id bref) (\<lambda>p. map_option cp_currency (find_plan p (read_catalog (bl_catalog b)))) of
                             None \<Rightarrow> ''usd'' | Some c \<Rightarrow> c) in
           case call_stripe (gw_create_setup_checkout_session gw cid currency) b of
             (Inl e, b) \<Rightarrow> (Inl (BillingInternal (gateway_text e)), b)
           | (Inr url, b) \<Rightarrow> (Inr url, b)))"

definition pending_view :: "catalog_snapshot \<Rightarrow> scheduled_change \<Rightarrow> pending_change_view" where
  "pending_view snapshot change =
     (let plan = find_plan (ch_price_id change) snapshot in
      \<lparr>pc_price_id = ch_price_id change,
       pc_name = (case plan of None \<Rightarrow> ch_price_id change | Some p \<Rightarrow> cp_name p),
       pc_level = (case plan of None \<Rightarrow> 0 | Some p \<Rightarrow> cp_level p),
       pc_effective_at = ch_effective_at change\<rparr>)"

definition billing_subscription ::
  "'s stripe_gateway \<Rightarrow> string \<Rightarrow> 's billing \<Rightarrow> (billing_error + billing_subscription_view) \<times> 's billing" where
  "billing_subscription gw tid b =
     (case get_billing_ref tid (adb (bl_auth b)) of
        None \<Rightarrow> (Inr \<lparr>bv_current_price_id = None, bv_pending_change = None, bv_trialing = False\<rparr>, b)
      | Some bref \<Rightarrow>
          (case br_subscription_id bref of
             None \<Rightarrow> (Inr \<lparr>bv_current_price_id = br_price_id bref, bv_pending_change = None, bv_trialing = False\<rparr>, b)
           | Some sid \<Rightarrow>
               (case call_stripe (gw_get_subscription gw sid) b of
                  (Inl e, b) \<Rightarrow> (Inl (BillingInternal (gateway_text e)), b)
                | (Inr details, b) \<Rightarrow>
                    (case dt_schedule_id details of
                       None \<Rightarrow> (Inr \<lparr>bv_current_price_id = br_price_id bref, bv_pending_change = None,
                                     bv_trialing = dt_trialing details\<rparr>, b)
                     | Some sched \<Rightarrow>
                         (case call_stripe (gw_pending_scheduled_change gw sched (dt_current_period_end details)) b of
                            (Inl e, b) \<Rightarrow> (Inl (BillingInternal (gateway_text e)), b)
                          | (Inr change, b) \<Rightarrow>
                              (Inr \<lparr>bv_current_price_id = br_price_id bref,
                                    bv_pending_change = map_option (pending_view (read_catalog (bl_catalog b))) change,
                                    bv_trialing = dt_trialing details\<rparr>, b))))))"

definition payment_method :: "'s stripe_gateway \<Rightarrow> string \<Rightarrow> 's billing \<Rightarrow> (billing_error + payment_method_view option) \<times> 's billing" where
  "payment_method gw tid b =
     (case customer_id tid (adb (bl_auth b)) of
        None \<Rightarrow> (Inr None, b)
      | Some cid \<Rightarrow>
          (case call_stripe (gw_default_payment_method gw cid) b of
             (Inl e, b) \<Rightarrow> (Inl (BillingInternal (gateway_text e)), b) | (Inr r, b) \<Rightarrow> (Inr r, b)))"

definition invoices :: "'s stripe_gateway \<Rightarrow> string \<Rightarrow> 's billing \<Rightarrow> (billing_error + invoice_view list) \<times> 's billing" where
  "invoices gw tid b =
     (case customer_id tid (adb (bl_auth b)) of
        None \<Rightarrow> (Inr [], b)
      | Some cid \<Rightarrow>
          (case call_stripe (gw_list_invoices gw cid) b of
             (Inl e, b) \<Rightarrow> (Inl (BillingInternal (gateway_text e)), b) | (Inr r, b) \<Rightarrow> (Inr r, b)))"

end
