(* ===== verification/Identities.thy ===== *)
theory Identities
  imports Tenants_Props
begin

text \<open>
  The human login plane (\<open>tenants/src/identities.rs\<close> and its two repositories
  \<open>repository/identity.rs\<close>, \<open>repository/session.rs\<close>): login methods, sessions, the two-gate
  resolver, password flows, federated login and linking, the reactor that purges a deregistered
  tenant, and the two federated providers (\<open>identities/provider.rs\<close>).

  Argon2, the HTTP exchanges with the providers and the id-token library are fields of environment
  records. Fresh tokens, ids, salts and the clock are arguments. Where a flow reads and later writes
  under no lock, the argument \<open>race\<close> is what other requests commit in between; with the identity
  function the flow runs alone.
\<close>

section \<open>Errors\<close>

datatype identities_error =
    IBadRequest string | IBadCode string | IUnauthorized string | IConflict string
  | IRateLimited string | IInternal string

fun identities_api_error :: "identities_error \<Rightarrow> api_error" where
  "identities_api_error (IBadRequest m) = BadRequest m"
| "identities_api_error (IBadCode m) = Unauthorized m"
| "identities_api_error (IUnauthorized m) = Unauthorized m"
| "identities_api_error (IConflict m) = Conflict m"
| "identities_api_error (IRateLimited m) = TooManyRequests m"
| "identities_api_error (IInternal e) = Internal e"

fun tenants_identities_error :: "tenants_error \<Rightarrow> identities_error" where
  "tenants_identities_error (TBadRequest m) = IBadRequest m"
| "tenants_identities_error (TEntitlementExceeded m) = IBadRequest m"
| "tenants_identities_error (TBadCode m) = IBadCode m"
| "tenants_identities_error (TForbidden m) = IConflict m"
| "tenants_identities_error (TConflict m) = IConflict m"
| "tenants_identities_error (TNotFound m) = IUnauthorized m"
| "tenants_identities_error (TRateLimited m) = IRateLimited m"
| "tenants_identities_error (TInternal e) = IInternal e"

section \<open>Login methods\<close>

datatype insert_identity_outcome = IdentityCreated | AlreadyExists

datatype unlink_outcome = Removed | WouldRemoveLast | NotLinked

definition of_login :: "string \<Rightarrow> string \<Rightarrow> tenant_identity \<Rightarrow> bool" where
  "of_login provider subject i = (i_provider i = provider \<and> i_subject i = subject)"

definition find_by_provider_subject :: "string \<Rightarrow> string \<Rightarrow> db \<Rightarrow> tenant_identity option" where
  "find_by_provider_subject provider subject d = find (of_login provider subject) (tenant_identities d)"

definition identity_insert :: "tenant_identity \<Rightarrow> db \<Rightarrow> string + insert_identity_outcome \<times> db" where
  "identity_insert i d =
     (if sql_exists (of_login (i_provider i) (i_subject i)) (tenant_identities d) then Inr (AlreadyExists, d)
      else if \<not> tenant_exists (i_tenant_id i) d then Inl ''foreign key violation''
      else Inr (IdentityCreated, d\<lparr>tenant_identities := tenant_identities d @ [i]\<rparr>))"

definition update_secret_hash :: "string \<Rightarrow> string \<Rightarrow> string \<Rightarrow> db \<Rightarrow> bool \<times> db" where
  "update_secret_hash provider subject h d =
     (sql_exists (of_login provider subject) (tenant_identities d),
      d\<lparr>tenant_identities := sql_update (of_login provider subject) (\<lambda>i. i\<lparr>i_secret_hash := Some h\<rparr>)
          (tenant_identities d)\<rparr>)"

definition identity_delete_for_tenant :: "string \<Rightarrow> db \<Rightarrow> nat \<times> db" where
  "identity_delete_for_tenant x d =
     (sql_count (\<lambda>i. i_tenant_id i = x) (tenant_identities d),
      d\<lparr>tenant_identities := sql_delete (\<lambda>i. i_tenant_id i = x) (tenant_identities d)\<rparr>)"

definition identity_list_for_tenant :: "string \<Rightarrow> db \<Rightarrow> tenant_identity list" where
  "identity_list_for_tenant x d = sort_key i_created_at (filter (\<lambda>i. i_tenant_id i = x) (tenant_identities d))"

definition unlink_guarded :: "string \<Rightarrow> string \<Rightarrow> db \<Rightarrow> unlink_outcome \<times> db" where
  "unlink_guarded x provider d =
     (let providers = map i_provider (filter (\<lambda>i. i_tenant_id i = x) (tenant_identities d));
          victims = length (filter (\<lambda>p. p = provider) providers) in
      if victims = 0 then (NotLinked, d)
      else if length providers = victims then (WouldRemoveLast, d)
      else (Removed, d\<lparr>tenant_identities :=
              sql_delete (\<lambda>i. i_tenant_id i = x \<and> i_provider i = provider) (tenant_identities d)\<rparr>))"

section \<open>Sessions\<close>

definition session_create :: "session \<Rightarrow> db \<Rightarrow> string + db" where
  "session_create s d =
     (if sql_exists (\<lambda>r. ss_token_hash r = ss_token_hash s) (sessions d) then Inl ''duplicate key''
      else if \<not> tenant_exists (ss_tenant_id s) d then Inl ''foreign key violation''
      else Inr (d\<lparr>sessions := sessions d @ [s]\<rparr>))"

definition session_live :: "db \<Rightarrow> string \<Rightarrow> instant \<Rightarrow> session \<Rightarrow> bool" where
  "session_live d token_hash now s =
     (ss_token_hash s = token_hash \<and> now < ss_expires_at s \<and>
      sql_exists (\<lambda>t. t_id t = ss_tenant_id s \<and> tenant_live t) (tenants d))"

definition touch_and_get_tenant :: "string \<Rightarrow> instant \<Rightarrow> instant \<Rightarrow> db \<Rightarrow> string option \<times> db" where
  "touch_and_get_tenant token_hash now new_expires_at d =
     (map_option ss_tenant_id (find (session_live d token_hash now) (sessions d)),
      d\<lparr>sessions := sql_update (session_live d token_hash now) (\<lambda>s. s\<lparr>ss_expires_at := new_expires_at\<rparr>) (sessions d)\<rparr>)"

definition session_tenant_for :: "string \<Rightarrow> instant \<Rightarrow> db \<Rightarrow> string option" where
  "session_tenant_for token_hash now d =
     map_option ss_tenant_id (find (session_live d token_hash now) (sessions d))"

definition session_delete :: "string \<Rightarrow> db \<Rightarrow> bool \<times> db" where
  "session_delete token_hash d =
     (sql_exists (\<lambda>s. ss_token_hash s = token_hash) (sessions d),
      d\<lparr>sessions := sql_delete (\<lambda>s. ss_token_hash s = token_hash) (sessions d)\<rparr>)"

definition session_delete_for_tenant :: "string \<Rightarrow> db \<Rightarrow> nat \<times> db" where
  "session_delete_for_tenant x d =
     (sql_count (\<lambda>s. ss_tenant_id s = x) (sessions d),
      d\<lparr>sessions := sql_delete (\<lambda>s. ss_tenant_id s = x) (sessions d)\<rparr>)"

section \<open>Providers\<close>

record verified_identity =
  vi_provider :: string
  vi_subject :: string
  vi_email :: string
  vi_email_verified :: bool

record authorize_request =
  ar_url :: string
  ar_csrf_state :: string
  ar_verifier :: string

type_synonym exchange = "string \<Rightarrow> string \<Rightarrow> string + verified_identity"

record external_identity_provider =
  xp_authorize_url :: "string \<Rightarrow> authorize_request"
  xp_exchange :: exchange

text \<open>
  The id-token library: the code exchange with the PKCE secret, the id token of the answer, and its
  claims once the signature and the nonce are verified. \<open>oidc_bundle\<close> decodes the stashed JSON pair,
  \<open>encode_bundle\<close> writes it, and \<open>begin_flow\<close> draws the CSRF state, the PKCE secret and the nonce
  from a seed and builds the redirect.
\<close>

record oidc_claims =
  oc_subject :: string
  oc_email :: "string option"
  oc_email_verified :: "bool option"

record oidc_library =
  oidc_bundle :: "string \<Rightarrow> (string \<times> string) option"
  oidc_exchange_code :: "string \<Rightarrow> string \<Rightarrow> string + string option"
  oidc_verify_claims :: "string \<Rightarrow> string \<Rightarrow> string + oidc_claims"

definition oidc_authorize_url ::
  "(string \<times> string \<Rightarrow> string) \<Rightarrow> (string \<Rightarrow> string \<times> string \<times> string \<times> string) \<Rightarrow> string \<Rightarrow> authorize_request" where
  "oidc_authorize_url encode_bundle begin_flow seed =
     (case begin_flow seed of
        (url, csrf, pkce, nonce) \<Rightarrow>
          \<lparr>ar_url = url, ar_csrf_state = csrf, ar_verifier = encode_bundle (pkce, nonce)\<rparr>)"

definition oidc_exchange :: "oidc_library \<Rightarrow> string \<Rightarrow> exchange" where
  "oidc_exchange lib name code verifier =
     (case oidc_bundle lib verifier of
        None \<Rightarrow> Inl ''malformed OIDC verifier bundle''
      | Some (pkce, nonce) \<Rightarrow>
          (case oidc_exchange_code lib code pkce of
             Inl e \<Rightarrow> Inl (''OIDC code exchange failed: '' @ e)
           | Inr None \<Rightarrow> Inl ''provider returned no id_token''
           | Inr (Some id_token) \<Rightarrow>
               (case oidc_verify_claims lib id_token nonce of
                  Inl e \<Rightarrow> Inl e
                | Inr c \<Rightarrow>
                    (case oc_email c of
                       None \<Rightarrow> Inl ''id_token carries no email''
                     | Some email \<Rightarrow>
                         Inr \<lparr>vi_provider = name, vi_subject = oc_subject c, vi_email = to_lowercase email,
                              vi_email_verified = (case oc_email_verified c of None \<Rightarrow> False | Some b \<Rightarrow> b)\<rparr>))))"

record github_email =
  ge_email :: string
  ge_primary :: bool
  ge_verified :: bool

text \<open>The three GitHub requests, each with its status check and its JSON body decoded.\<close>

record github_http =
  gh_token :: "string \<Rightarrow> string + string option"
  gh_user :: "string \<Rightarrow> string + u64"
  gh_emails :: "string \<Rightarrow> string + github_email list"

definition github_authorize_url ::
  "(string \<Rightarrow> (string \<times> string) list \<Rightarrow> string) \<Rightarrow> string \<Rightarrow> string \<Rightarrow> string \<Rightarrow> string \<Rightarrow> authorize_request" where
  "github_authorize_url append_pairs authorize_url client_id redirect_url state =
     \<lparr>ar_url = append_pairs authorize_url
        [(''client_id'', client_id), (''redirect_uri'', redirect_url), (''scope'', ''read:user user:email''),
         (''state'', state), (''allow_signup'', ''true'')],
      ar_csrf_state = state, ar_verifier = []\<rparr>"

definition choose_email :: "github_email list \<Rightarrow> github_email option" where
  "choose_email emails =
     (case find (\<lambda>e. ge_primary e \<and> ge_verified e) emails of
        Some e \<Rightarrow> Some e | None \<Rightarrow> find ge_verified emails)"

definition github_exchange :: "github_http \<Rightarrow> exchange" where
  "github_exchange http code verifier =
     (case gh_token http code of
        Inl e \<Rightarrow> Inl e
      | Inr None \<Rightarrow> Inl ''GitHub returned no access token''
      | Inr (Some access) \<Rightarrow>
          let bearer = ''Bearer '' @ access in
          (case gh_user http bearer of
             Inl e \<Rightarrow> Inl e
           | Inr user \<Rightarrow>
               (case gh_emails http bearer of
                  Inl e \<Rightarrow> Inl e
                | Inr emails \<Rightarrow>
                    (case choose_email emails of
                       None \<Rightarrow> Inl ''no verified GitHub email''
                     | Some chosen \<Rightarrow>
                         Inr \<lparr>vi_provider = ''github'', vi_subject = show_nat (unat user),
                              vi_email = to_lowercase (ge_email chosen), vi_email_verified = ge_verified chosen\<rparr>))))"

section \<open>Environment and constants\<close>

record identities_env =
  ie_tenants :: tenants_env
  ie_argon2_hash :: "bytes \<Rightarrow> string \<Rightarrow> string + string"
  ie_argon2_verify :: "string \<Rightarrow> string \<Rightarrow> bool"
  ie_providers :: "string \<Rightarrow> external_identity_provider option"
  ie_user_jwt_ttl_secs :: int

definition PROVIDER_PASSWORD :: string where "PROVIDER_PASSWORD = ''password''"

definition MIN_PASSWORD_LEN :: nat where "MIN_PASSWORD_LEN = 8"

definition SESSION_TTL_SECS :: int where "SESSION_TTL_SECS = 30 * 24 * 60 * 60"

definition LOGIN_ATTEMPTS_PER_IP :: nat where "LOGIN_ATTEMPTS_PER_IP = 10"

definition LOGIN_WINDOW_SECS :: int where "LOGIN_WINDOW_SECS = 300"

definition check_password :: "string \<Rightarrow> identities_error + unit" where
  "check_password password =
     (if length password < MIN_PASSWORD_LEN
      then Inl (IBadRequest (''password must be at least '' @ show_nat MIN_PASSWORD_LEN @ '' characters''))
      else Inr ())"

definition hash_password :: "identities_env \<Rightarrow> bytes \<Rightarrow> string \<Rightarrow> identities_error + string" where
  "hash_password env salt password =
     (case ie_argon2_hash env salt password of
        Inl e \<Rightarrow> Inl (IInternal (''password hashing failed: '' @ e)) | Inr h \<Rightarrow> Inr h)"

definition hash_token :: "identities_env \<Rightarrow> string \<Rightarrow> string" where
  "hash_token env token = sha256_hex (env_crypto (ie_tenants env)) token"

definition id_normalize_email :: "string \<Rightarrow> identities_error + string" where
  "id_normalize_email email = (case normalize_email email of Inl m \<Rightarrow> Inl (IBadRequest m) | Inr e \<Rightarrow> Inr e)"

definition id_provider :: "identities_env \<Rightarrow> string \<Rightarrow> identities_error + external_identity_provider" where
  "id_provider env name =
     (case ie_providers env name of
        None \<Rightarrow> Inl (IBadRequest (''unknown provider '' @ [CHR 0x27] @ name @ [CHR 0x27])) | Some p \<Rightarrow> Inr p)"

definition edge :: "tenants_error + 'a \<Rightarrow> identities_error + 'a" where
  "edge r = (case r of Inl e \<Rightarrow> Inl (tenants_identities_error e) | Inr x \<Rightarrow> Inr x)"

section \<open>The login throttle\<close>

type_synonym login_attempts = "string \<Rightarrow> (int \<times> nat) option"

definition login_allowed :: "string \<Rightarrow> int \<Rightarrow> login_attempts \<Rightarrow> bool \<times> login_attempts" where
  "login_allowed remote_ip now attempts =
     (let kept = (\<lambda>ip. case attempts ip of
                     Some (started, n) \<Rightarrow> if now - started < LOGIN_WINDOW_SECS then Some (started, n) else None
                   | None \<Rightarrow> None);
          entry = (case kept remote_ip of None \<Rightarrow> (now, 0) | Some e \<Rightarrow> e);
          entry = (if now - fst entry \<ge> LOGIN_WINDOW_SECS then (now, 0) else entry) in
      if snd entry \<ge> LOGIN_ATTEMPTS_PER_IP then (False, kept(remote_ip \<mapsto> entry))
      else (True, kept(remote_ip \<mapsto> (fst entry, snd entry + 1))))"

section \<open>Opening a session\<close>

definition create_session ::
  "identities_env \<Rightarrow> string \<Rightarrow> instant \<Rightarrow> string \<Rightarrow> authority \<Rightarrow> (identities_error + string) \<times> authority" where
  "create_session env raw now x w =
     (if \<not> tenant_is_live x w then (Inl (IUnauthorized ''account is closed''), w)
      else case session_create \<lparr>ss_token_hash = hash_token env raw, ss_tenant_id = x,
                 ss_expires_at = now + secs SESSION_TTL_SECS, ss_created_at = now\<rparr> (adb w) of
             Inl e \<Rightarrow> (Inl (IInternal e), w)
           | Inr d \<Rightarrow> (Inr raw, w\<lparr>adb := d\<rparr>))"

definition link_row :: "string \<Rightarrow> verified_identity \<Rightarrow> string option \<Rightarrow> string \<Rightarrow> instant \<Rightarrow> tenant_identity" where
  "link_row x v secret_hash email now =
     \<lparr>i_tenant_id = x, i_provider = vi_provider v, i_subject = vi_subject v, i_secret_hash = secret_hash,
      i_email = email, i_created_at = now\<rparr>"

definition owner_for_email ::
  "(authority \<Rightarrow> authority) \<Rightarrow> string \<Rightarrow> instant \<Rightarrow> string \<Rightarrow> authority \<Rightarrow> (identities_error + string) \<times> authority" where
  "owner_for_email race new_id now email w =
     (case find_tenant_by_email email w of
        Inl e \<Rightarrow> (Inl (tenants_identities_error e), w)
      | Inr (Some t) \<Rightarrow> (Inr (t_id t), race w)
      | Inr None \<Rightarrow>
          (case register_tenant new_id now email (race w) of
             (Inr t, w') \<Rightarrow> (Inr (t_id t), w')
           | (Inl (TConflict _), w') \<Rightarrow>
               (case find_tenant_by_email email w' of
                  Inl e \<Rightarrow> (Inl (tenants_identities_error e), w')
                | Inr None \<Rightarrow> (Inl (IInternal ''tenant vanished after email-taken conflict''), w')
                | Inr (Some t) \<Rightarrow> (Inr (t_id t), w'))
           | (Inl e, w') \<Rightarrow> (Inl (tenants_identities_error e), w')))"

definition resolve_identity ::
  "(authority \<Rightarrow> authority) \<Rightarrow> string \<Rightarrow> instant \<Rightarrow> verified_identity \<Rightarrow> string option \<Rightarrow> authority
    \<Rightarrow> (identities_error + string \<times> bool) \<times> authority" where
  "resolve_identity race new_id now v secret_hash w =
     (case find_by_provider_subject (vi_provider v) (vi_subject v) (adb w) of
        Some existing \<Rightarrow> (Inr (i_tenant_id existing, True), w)
      | None \<Rightarrow>
          if \<not> vi_email_verified v then (Inl (IUnauthorized ''provider did not verify the email''), w)
          else case id_normalize_email (vi_email v) of
            Inl e \<Rightarrow> (Inl e, w)
          | Inr email \<Rightarrow>
              (case owner_for_email race new_id now email w of
                 (Inl e, w') \<Rightarrow> (Inl e, w')
               | (Inr x, w') \<Rightarrow>
                   (case identity_insert (link_row x v secret_hash email now) (adb w') of
                      Inl e \<Rightarrow> (Inl (IInternal e), w')
                    | Inr (_, d) \<Rightarrow> (Inr (x, False), w'\<lparr>adb := d\<rparr>))))"

section \<open>Passwords\<close>

definition already_has_password :: string where
  "already_has_password = ''an account with this email already has a password''"

definition password_signup ::
  "identities_env \<Rightarrow> (authority \<Rightarrow> authority) \<Rightarrow> string \<Rightarrow> bytes \<Rightarrow> string \<Rightarrow> instant \<Rightarrow> string \<Rightarrow> string \<Rightarrow> string
    \<Rightarrow> authority \<Rightarrow> (identities_error + string) \<times> authority" where
  "password_signup env race new_id salt raw now email code password w =
     (case check_password password of
        Inl e \<Rightarrow> (Inl e, w)
      | Inr _ \<Rightarrow>
     (case consume_code (ie_tenants env) now code Signup w of
        (None, w1) \<Rightarrow> (Inl (IBadCode ''invalid or expired code''), w1)
      | (Some code_email, w1) \<Rightarrow>
     (case id_normalize_email email of
        Inl e \<Rightarrow> (Inl e, w1)
      | Inr e \<Rightarrow>
          if code_email \<noteq> e then (Inl (IBadCode ''code was not issued for this email''), w1)
          else if find_by_provider_subject PROVIDER_PASSWORD code_email (adb w1) \<noteq> None
          then (Inl (IConflict already_has_password), w1)
          else
     (case hash_password env salt password of
        Inl e \<Rightarrow> (Inl e, w1)
      | Inr h \<Rightarrow>
     (case resolve_identity race new_id now
             \<lparr>vi_provider = PROVIDER_PASSWORD, vi_subject = code_email, vi_email = code_email,
              vi_email_verified = True\<rparr> (Some h) w1 of
        (Inl e, w2) \<Rightarrow> (Inl e, w2)
      | (Inr (x, existed), w2) \<Rightarrow>
          if existed then (Inl (IConflict already_has_password), w2)
          else create_session env raw now x w2)))))"

definition password_login ::
  "identities_env \<Rightarrow> string \<Rightarrow> instant \<Rightarrow> string \<Rightarrow> string \<Rightarrow> string \<Rightarrow> login_attempts \<Rightarrow> authority
    \<Rightarrow> (identities_error + string) \<times> login_attempts \<times> authority" where
  "password_login env raw now email password remote_ip attempts w =
     (case login_allowed remote_ip (timestamp now) attempts of
        (False, attempts') \<Rightarrow> (Inl (IRateLimited ''too many login attempts; try again later''), attempts', w)
      | (True, attempts') \<Rightarrow>
     (case id_normalize_email email of
        Inl e \<Rightarrow> (Inl e, attempts', w)
      | Inr e \<Rightarrow>
     (case find_by_provider_subject PROVIDER_PASSWORD e (adb w) of
        None \<Rightarrow> (Inl (IUnauthorized ''invalid email or password''), attempts', w)
      | Some i \<Rightarrow>
          if \<not> (case i_secret_hash i of None \<Rightarrow> False | Some h \<Rightarrow> ie_argon2_verify env h password)
          then (Inl (IUnauthorized ''invalid email or password''), attempts', w)
          else case create_session env raw now (i_tenant_id i) w of (r, w') \<Rightarrow> (r, attempts', w'))))"

definition request_password_reset ::
  "identities_env \<Rightarrow> instant \<Rightarrow> nat list \<Rightarrow> string \<Rightarrow> string \<Rightarrow> authority
    \<Rightarrow> (identities_error + string) \<times> authority" where
  "request_password_reset env now picks email remote_ip w =
     (case issue_signup_code (ie_tenants env) now picks email remote_ip PasswordReset w of (r, w') \<Rightarrow> (edge r, w'))"

text \<open>The upsert of the password row both flows share: update, or insert, or update again.\<close>

definition store_password ::
  "(authority \<Rightarrow> authority) \<Rightarrow> instant \<Rightarrow> string \<Rightarrow> string \<Rightarrow> string \<Rightarrow> authority
    \<Rightarrow> (identities_error + unit) \<times> authority" where
  "store_password race now x email h w =
     (case update_secret_hash PROVIDER_PASSWORD email h (adb w) of
        (True, d) \<Rightarrow> (Inr (), w\<lparr>adb := d\<rparr>)
      | (False, d) \<Rightarrow>
          let w1 = race (w\<lparr>adb := d\<rparr>) in
          (case identity_insert \<lparr>i_tenant_id = x, i_provider = PROVIDER_PASSWORD, i_subject = email,
                  i_secret_hash = Some h, i_email = email, i_created_at = now\<rparr> (adb w1) of
             Inl e \<Rightarrow> (Inl (IInternal e), w1)
           | Inr (AlreadyExists, d1) \<Rightarrow> (Inr (), w1\<lparr>adb := snd (update_secret_hash PROVIDER_PASSWORD email h d1)\<rparr>)
           | Inr (IdentityCreated, d1) \<Rightarrow> (Inr (), w1\<lparr>adb := d1\<rparr>)))"

definition logout_all :: "string \<Rightarrow> authority \<Rightarrow> authority" where
  "logout_all x w = w\<lparr>adb := snd (session_delete_for_tenant x (adb w))\<rparr>"

definition password_reset ::
  "identities_env \<Rightarrow> (authority \<Rightarrow> authority) \<Rightarrow> bytes \<Rightarrow> instant \<Rightarrow> string \<Rightarrow> string \<Rightarrow> authority
    \<Rightarrow> (identities_error + unit) \<times> authority" where
  "password_reset env race salt now code new_password w =
     (case check_password new_password of
        Inl e \<Rightarrow> (Inl e, w)
      | Inr _ \<Rightarrow>
     (case consume_code (ie_tenants env) now code PasswordReset w of
        (None, w1) \<Rightarrow> (Inl (IBadCode ''invalid or expired code''), w1)
      | (Some email, w1) \<Rightarrow>
     (case find_tenant_by_email email w1 of
        Inl e \<Rightarrow> (Inl (tenants_identities_error e), w1)
      | Inr None \<Rightarrow> (Inr (), w1)
      | Inr (Some t) \<Rightarrow>
     (case hash_password env salt new_password of
        Inl e \<Rightarrow> (Inl e, w1)
      | Inr h \<Rightarrow>
     (case store_password race now (t_id t) email h w1 of
        (Inl e, w2) \<Rightarrow> (Inl e, w2)
      | (Inr _, w2) \<Rightarrow> (Inr (), logout_all (t_id t) w2))))))"

definition eq_ignore_ascii_case :: "string \<Rightarrow> string \<Rightarrow> bool" where
  "eq_ignore_ascii_case a b = (to_lowercase a = to_lowercase b)"

definition set_password_authenticated ::
  "identities_env \<Rightarrow> (authority \<Rightarrow> authority) \<Rightarrow> bytes \<Rightarrow> string \<Rightarrow> instant \<Rightarrow> string \<Rightarrow> string \<Rightarrow> string
    \<Rightarrow> authority \<Rightarrow> (identities_error + string) \<times> authority" where
  "set_password_authenticated env race salt raw now x code new_password w =
     (case check_password new_password of
        Inl e \<Rightarrow> (Inl e, w)
      | Inr _ \<Rightarrow>
     (case find_tenant x w of
        None \<Rightarrow> (Inl (IUnauthorized ''account not found''), w)
      | Some t \<Rightarrow>
     (case consume_code (ie_tenants env) now code PasswordChange w of
        (None, w1) \<Rightarrow> (Inl (IBadCode ''invalid or expired code''), w1)
      | (Some proven_email, w1) \<Rightarrow>
          if \<not> eq_ignore_ascii_case proven_email (t_email t)
          then (Inl (IBadCode ''code does not match your account email''), w1)
          else
     (case hash_password env salt new_password of
        Inl e \<Rightarrow> (Inl e, w1)
      | Inr h \<Rightarrow>
     (case store_password race now (t_id t) (t_email t) h w1 of
        (Inl e, w2) \<Rightarrow> (Inl e, w2)
      | (Inr _, w2) \<Rightarrow> create_session env raw now (t_id t) (logout_all (t_id t) w2))))))"

section \<open>Federated login\<close>

definition oidc_start :: "identities_env \<Rightarrow> string \<Rightarrow> string \<Rightarrow> identities_error + authorize_request" where
  "oidc_start env seed provider =
     (case id_provider env provider of Inl e \<Rightarrow> Inl e | Inr p \<Rightarrow> Inr (xp_authorize_url p seed))"

definition id_exchange :: "identities_env \<Rightarrow> string \<Rightarrow> string \<Rightarrow> string \<Rightarrow> identities_error + verified_identity" where
  "id_exchange env provider code verifier =
     (case id_provider env provider of
        Inl e \<Rightarrow> Inl e
      | Inr p \<Rightarrow> (case xp_exchange p code verifier of Inl e \<Rightarrow> Inl (IInternal e) | Inr v \<Rightarrow> Inr v))"

definition oidc_callback ::
  "identities_env \<Rightarrow> (authority \<Rightarrow> authority) \<Rightarrow> string \<Rightarrow> string \<Rightarrow> instant \<Rightarrow> string \<Rightarrow> string \<Rightarrow> string
    \<Rightarrow> authority \<Rightarrow> (identities_error + string) \<times> authority" where
  "oidc_callback env race new_id raw now provider code verifier w =
     (case id_exchange env provider code verifier of
        Inl e \<Rightarrow> (Inl e, w)
      | Inr v \<Rightarrow>
          (case resolve_identity race new_id now v None w of
             (Inl e, w') \<Rightarrow> (Inl e, w')
           | (Inr (x, _), w') \<Rightarrow> create_session env raw now x w'))"

text \<open>
  The resolve-then-insert loop. Each element of the first argument is what other requests commit between
  the lookup and the insert of one round; \<open>None\<close> is the loop still running when they are used up.
\<close>

fun link_loop ::
  "(authority \<Rightarrow> authority) list \<Rightarrow> instant \<Rightarrow> verified_identity \<Rightarrow> string \<Rightarrow> string \<Rightarrow> authority
    \<Rightarrow> (identities_error + unit) option \<times> authority" where
  "link_loop [] now v email x w = (None, w)"
| "link_loop (race # races) now v email x w =
     (case find_by_provider_subject (vi_provider v) (vi_subject v) (adb w) of
        Some existing \<Rightarrow>
          (Some (if i_tenant_id existing = x then Inr ()
                 else Inl (IConflict ''this login method is already linked to another account'')), w)
      | None \<Rightarrow>
          let w1 = race w in
          (case identity_insert (link_row x v None email now) (adb w1) of
             Inl e \<Rightarrow> (Some (Inl (IInternal e)), w1)
           | Inr (IdentityCreated, d) \<Rightarrow> (Some (Inr ()), w1\<lparr>adb := d\<rparr>)
           | Inr (AlreadyExists, d) \<Rightarrow> link_loop races now v email x (w1\<lparr>adb := d\<rparr>)))"

definition link_identity ::
  "identities_env \<Rightarrow> (authority \<Rightarrow> authority) list \<Rightarrow> instant \<Rightarrow> string \<Rightarrow> string \<Rightarrow> string \<Rightarrow> string \<Rightarrow> authority
    \<Rightarrow> (identities_error + unit) option \<times> authority" where
  "link_identity env races now provider code verifier x w =
     (case id_exchange env provider code verifier of
        Inl e \<Rightarrow> (Some (Inl e), w)
      | Inr v \<Rightarrow>
          if \<not> vi_email_verified v then (Some (Inl (IUnauthorized ''provider did not verify the email'')), w)
          else (case id_normalize_email (vi_email v) of
                  Inl e \<Rightarrow> (Some (Inl e), w)
                | Inr email \<Rightarrow> link_loop races now v email x w))"

definition unlink_identity :: "string \<Rightarrow> string \<Rightarrow> authority \<Rightarrow> (identities_error + unit) \<times> authority" where
  "unlink_identity x provider w =
     (case unlink_guarded x provider (adb w) of
        (WouldRemoveLast, d) \<Rightarrow> (Inl (IConflict ''cannot remove your last login method''), w\<lparr>adb := d\<rparr>)
      | (_, d) \<Rightarrow> (Inr (), w\<lparr>adb := d\<rparr>))"

definition list_identities :: "string \<Rightarrow> authority \<Rightarrow> tenant_identity list" where
  "list_identities x w = identity_list_for_tenant x (adb w)"

section \<open>Session life cycle\<close>

definition user_spec :: "string \<Rightarrow> claims_spec" where
  "user_spec x = \<lparr>spec_tenant_id = x, spec_principal_type = User, spec_subject = x, spec_network = None,
     spec_cnf = None, spec_audience = [''tenants'']\<rparr>"

definition exchange_session ::
  "identities_env \<Rightarrow> instant \<Rightarrow> string \<Rightarrow> authority \<Rightarrow> (identities_error + string) \<times> authority" where
  "exchange_session env now raw w =
     (case touch_and_get_tenant (hash_token env raw) now (now + secs SESSION_TTL_SECS) (adb w) of
        (None, d) \<Rightarrow> (Inl (IUnauthorized ''no active session''), w\<lparr>adb := d\<rparr>)
      | (Some x, d) \<Rightarrow>
          ((case sign (env_jwt_encode (ie_tenants env)) (user_spec x) (timestamp now) (ie_user_jwt_ttl_secs env) of
              Inl e \<Rightarrow> Inl (IInternal e) | Inr token \<Rightarrow> Inr token), w\<lparr>adb := d\<rparr>))"

definition tenant_for_session :: "identities_env \<Rightarrow> instant \<Rightarrow> string \<Rightarrow> authority \<Rightarrow> string option" where
  "tenant_for_session env now raw w = session_tenant_for (hash_token env raw) now (adb w)"

definition logout :: "identities_env \<Rightarrow> string \<Rightarrow> authority \<Rightarrow> authority" where
  "logout env raw w = w\<lparr>adb := snd (session_delete (hash_token env raw) (adb w))\<rparr>"

definition purge_for :: "string \<Rightarrow> authority \<Rightarrow> authority" where
  "purge_for x w = w\<lparr>adb := snd (identity_delete_for_tenant x (snd (session_delete_for_tenant x (adb w))))\<rparr>"

fun apply_to_identities :: "domain_event \<Rightarrow> authority \<Rightarrow> authority" where
  "apply_to_identities (TenantDeregistered x) w = purge_for x w"
| "apply_to_identities (TenantCreated x) w = w"
| "apply_to_identities (SubscriptionDeactivated x) w = w"

end
