(* ===== verification/Identities_Props.thy ===== *)
theory Identities_Props
  imports Identities
begin

text \<open>
  The properties of the login plane. \<open>web_invariant\<close> is the contract a database invariant has to meet
  to survive every operation of the aggregate; it is interpreted on the schema constraints, on the
  retirement of a deregistered tenant and on the rule that an account keeps a login method. The
  theorems cover session exchange and revocation and the gates of a federated login; passwords are in
  \<open>Password_Props\<close>. \<open>login_provider\<close> is the
  contract of a federated provider, met by both providers of the code.
\<close>

section \<open>Commands\<close>

datatype identities_cmd =
    PasswordSignup string bytes string instant string string string
  | PasswordLogin string instant string string string
  | RequestPasswordReset instant "nat list" string string
  | ResetPassword bytes instant string string
  | SetPassword bytes string instant string string string
  | OidcCallback string string instant string string string
  | LinkIdentity instant string string string string
  | UnlinkIdentity string string
  | ExchangeSession instant string
  | Logout string
  | LogoutAll string
  | PurgeFor string
  | TenantsCmd tenants_cmd

fun identities_exec ::
  "identities_env \<Rightarrow> (authority \<Rightarrow> authority) \<Rightarrow> identities_cmd \<Rightarrow> login_attempts \<times> authority \<Rightarrow> login_attempts \<times> authority" where
  "identities_exec env race (PasswordSignup i salt raw now email code pw) (a, w) =
     (a, snd (password_signup env race i salt raw now email code pw w))"
| "identities_exec env race (PasswordLogin raw now email pw ip) (a, w) =
     snd (password_login env raw now email pw ip a w)"
| "identities_exec env race (RequestPasswordReset now picks email ip) (a, w) =
     (a, snd (request_password_reset env now picks email ip w))"
| "identities_exec env race (ResetPassword salt now code pw) (a, w) =
     (a, snd (password_reset env race salt now code pw w))"
| "identities_exec env race (SetPassword salt raw now x code pw) (a, w) =
     (a, snd (set_password_authenticated env race salt raw now x code pw w))"
| "identities_exec env race (OidcCallback i raw now provider code verifier) (a, w) =
     (a, snd (oidc_callback env race i raw now provider code verifier w))"
| "identities_exec env race (LinkIdentity now provider code verifier x) (a, w) =
     (a, snd (link_identity env [race, \<lambda>w. w] now provider code verifier x w))"
| "identities_exec env race (UnlinkIdentity x provider) (a, w) = (a, snd (unlink_identity x provider w))"
| "identities_exec env race (ExchangeSession now raw) (a, w) = (a, snd (exchange_session env now raw w))"
| "identities_exec env race (Logout raw) (a, w) = (a, logout env raw w)"
| "identities_exec env race (LogoutAll x) (a, w) = (a, logout_all x w)"
| "identities_exec env race (PurgeFor x) (a, w) = (a, purge_for x w)"
| "identities_exec env race (TenantsCmd c) (a, w) = (a, tenants_exec (ie_tenants env) c w)"

definition identities_run ::
  "identities_env \<Rightarrow> (authority \<Rightarrow> authority) \<Rightarrow> identities_cmd list \<Rightarrow> login_attempts \<times> authority \<Rightarrow> login_attempts \<times> authority" where
  "identities_run env race cmds st = foldl (\<lambda>st c. identities_exec env race c st) st cmds"

fun new_tenant_id :: "identities_cmd \<Rightarrow> string option" where
  "new_tenant_id (PasswordSignup i salt raw now email code pw) = Some i"
| "new_tenant_id (OidcCallback i raw now provider code verifier) = Some i"
| "new_tenant_id (TenantsCmd c) = makes_tenant c"
| "new_tenant_id _ = None"

section \<open>What survives every operation\<close>

definition keeps :: "(db \<Rightarrow> bool) \<Rightarrow> (authority \<Rightarrow> authority) \<Rightarrow> bool" where
  "keeps I race = (\<forall>w. I (adb w) \<longrightarrow> I (adb (race w)))"

lemma keepsD: "keeps I race \<Longrightarrow> I (adb w) \<Longrightarrow> I (adb (race w))"
  by (simp add: keeps_def)

lemma keeps_id [simp]: "keeps I (\<lambda>w. w)"
  by (simp add: keeps_def)

locale web_invariant =
  fixes I :: "db \<Rightarrow> bool" and fresh :: "string \<Rightarrow> bool" and purges :: "string \<Rightarrow> bool"
  assumes tenants_cmd: "I (adb w) \<Longrightarrow> pred_option fresh (makes_tenant c) \<Longrightarrow> I (adb (tenants_exec tenv c w))"
    and method_insert: "I d \<Longrightarrow> identity_insert i d = Inr (r, d') \<Longrightarrow> I d'"
    and method_secret: "I d \<Longrightarrow> I (snd (update_secret_hash p subject h d))"
    and method_unlink: "I d \<Longrightarrow> I (snd (unlink_guarded x p d))"
    and method_purge: "I d \<Longrightarrow> purges x \<Longrightarrow> I (snd (identity_delete_for_tenant x d))"
    and session_insert: "I d \<Longrightarrow> session_create s d = Inr d' \<Longrightarrow> I d'"
    and session_slide: "I d \<Longrightarrow> I (snd (touch_and_get_tenant th now e d))"
    and session_drop: "I d \<Longrightarrow> I (snd (session_delete th d))"
    and session_drop_all: "I d \<Longrightarrow> I (snd (session_delete_for_tenant x d))"
begin

lemma consume: "I (adb w) \<Longrightarrow> consume_code tenv now code p w = (r, w') \<Longrightarrow> I (adb w')"
  using tenants_cmd [of w "ConsumeCode now code p" tenv] by simp

lemma register: "I (adb w) \<Longrightarrow> fresh i \<Longrightarrow> register_tenant i now e w = (r, w') \<Longrightarrow> I (adb w')"
  using tenants_cmd [of w "RegisterTenant i now e"] by simp

lemma create: "I (adb w) \<Longrightarrow> create_session env raw now x w = (r, w') \<Longrightarrow> I (adb w')"
  by (auto simp: create_session_def split: if_splits sum.splits dest: session_insert [rotated])

lemma created: "I (adb w) \<Longrightarrow> I (adb (snd (create_session env raw now x w)))"
  using create by (metis prod.collapse)

lemma log_all: "I (adb w) \<Longrightarrow> I (adb (logout_all x w))"
  by (simp add: logout_all_def session_drop_all)

lemma owner:
  assumes race: "keeps I race" and w: "I (adb w)" and "fresh i"
    and r: "owner_for_email race i now email w = (r, w')"
  shows "I (adb w')"
proof (cases "find_tenant_by_email email w")
  case (Inr t)
  show ?thesis
  proof (cases t)
    case None
    obtain q v where v: "register_tenant i now email (race w) = (q, v)" by fastforce
    have "w' = v"
      using r Inr None v
      by (auto simp: owner_for_email_def split: sum.splits tenants_error.splits option.splits)
    then show ?thesis using register [OF keepsD [OF race w] \<open>fresh i\<close> v] by simp
  qed (use r Inr w keepsD [OF race] in \<open>auto simp: owner_for_email_def\<close>)
qed (use r w in \<open>auto simp: owner_for_email_def\<close>)

lemma resolve:
  assumes race: "keeps I race" and w: "I (adb w)" and i: "fresh i"
    and r: "resolve_identity race i now v secret w = (r, w')"
  shows "I (adb w')"
  using r w
  by (auto simp: resolve_identity_def split: option.splits if_splits sum.splits prod.splits
      dest!: owner [OF race w i] dest: method_insert [rotated])

lemma signup:
  assumes race: "keeps I race" and w: "I (adb w)" and i: "fresh i"
  shows "I (adb (snd (password_signup env race i salt raw now email code pw w)))"
proof -
  obtain e w1 where c: "consume_code (ie_tenants env) now code Signup w = (e, w1)" by fastforce
  note w1 = consume [OF w c]
  show ?thesis
    using w1
    by (auto simp: password_signup_def c w split: sum.splits option.splits if_splits prod.splits
        dest!: resolve [OF race w1 i] simp: created)
qed

lemma login: "I (adb w) \<Longrightarrow> I (adb (snd (snd (password_login env raw now email pw ip a w))))"
  by (auto simp: password_login_def split: sum.splits option.splits if_splits prod.splits bool.splits dest: create [rotated])

lemma request_reset: "I (adb w) \<Longrightarrow> I (adb (snd (request_password_reset env now picks email ip w)))"
  using tenants_cmd [of w "IssueSignupCode now picks email ip PasswordReset" "ie_tenants env"]
  by (auto simp: request_password_reset_def split: prod.splits)

lemma store:
  assumes race: "keeps I race" and w: "I (adb w)"
    and r: "store_password race now x email h w = (r, w')"
  shows "I (adb w')"
proof -
  obtain b d where u: "update_secret_hash PROVIDER_PASSWORD email h (adb w) = (b, d)" by fastforce
  have d: "I d" using method_secret [OF w, of PROVIDER_PASSWORD email h] u by simp
  have v: "I (adb (race (w\<lparr>adb := d\<rparr>)))" by (rule keepsD [OF race]) (simp add: d)
  then show ?thesis
    using r d by (auto simp: store_password_def u Let_def method_secret split: bool.splits sum.splits insert_identity_outcome.splits
        dest!: method_insert [OF v])
qed

lemma reset:
  assumes race: "keeps I race" and w: "I (adb w)"
  shows "I (adb (snd (password_reset env race salt now code pw w)))"
proof -
  obtain e w1 where c: "consume_code (ie_tenants env) now code PasswordReset w = (e, w1)" by fastforce
  note w1 = consume [OF w c]
  show ?thesis
    using w1
    by (auto simp: password_reset_def c w simp: log_all split: sum.splits option.splits prod.splits
        dest!: store [OF race w1])
qed

lemma set_password:
  assumes race: "keeps I race" and w: "I (adb w)"
  shows "I (adb (snd (set_password_authenticated env race salt raw now x code pw w)))"
proof -
  obtain e w1 where c: "consume_code (ie_tenants env) now code PasswordChange w = (e, w1)" by fastforce
  note w1 = consume [OF w c]
  show ?thesis
    using w1
    by (auto simp: set_password_authenticated_def c w split: sum.splits option.splits prod.splits
        dest!: store [OF race w1] simp: created log_all)
qed

lemma callback:
  assumes race: "keeps I race" and w: "I (adb w)" and i: "fresh i"
  shows "I (adb (snd (oidc_callback env race i raw now provider code verifier w)))"
  using w
  by (auto simp: oidc_callback_def split: sum.splits prod.splits dest!: resolve [OF race w i] simp: created)

lemma link_rounds:
  assumes "\<And>race. race \<in> set races \<Longrightarrow> keeps I race" and "I (adb w)"
  shows "I (adb (snd (link_loop races now v email x w)))"
  using assms
proof (induction races arbitrary: w)
  case (Cons race races)
  have "I (adb (race w))" using Cons.prems keepsD [of I race w] by simp
  then show ?case
    using Cons by (auto simp: Let_def dest: method_insert [rotated] split: option.splits sum.splits insert_identity_outcome.splits)
qed simp

lemma link:
  assumes race: "keeps I race" and w: "I (adb w)"
  shows "I (adb (snd (link_identity env [race, \<lambda>w. w] now provider code verifier x w)))"
proof -
  have "I (adb (snd (link_loop [race, \<lambda>w. w] now v email x w)))" for v email
    by (rule link_rounds [OF _ w]) (auto intro: race)
  then show ?thesis using w by (simp add: link_identity_def del: link_loop.simps split: sum.splits)
qed

lemma exec:
  assumes race: "keeps I race" and w: "I (adb (snd st))"
    and new: "pred_option fresh (new_tenant_id c)" and purge: "\<And>x. c = PurgeFor x \<Longrightarrow> purges x"
  shows "I (adb (snd (identities_exec env race c st)))"
proof -
  obtain a v where st: "st = (a, v)" by fastforce
  have v: "I (adb v)" using w by (simp add: st)
  have u: "I (adb (snd (unlink_identity x p v)))" for x p
    using method_unlink [OF v, of x p] by (auto simp: unlink_identity_def split: prod.splits unlink_outcome.splits)
  have e: "I (adb (snd (exchange_session env now raw v)))" for now raw
    using session_slide [OF v, of "hash_token env raw" now "now + secs SESSION_TTL_SECS"]
    by (auto simp: exchange_session_def split: prod.splits option.splits)
  show ?thesis
    using new purge unfolding st
    by (cases c) (simp_all add: signup [OF race v] login [OF v] request_reset [OF v] reset [OF race v] set_password [OF race v]
        callback [OF race v] link [OF race v] u e log_all [OF v] logout_def session_drop [OF v] purge_for_def
        method_purge [OF session_drop_all [OF v]] tenants_cmd [OF v])
qed

lemma run:
  assumes race: "keeps I race" and w: "I (adb (snd st))"
    and new: "\<And>c. c \<in> set cmds \<Longrightarrow> pred_option fresh (new_tenant_id c)"
    and purge: "\<And>x. PurgeFor x \<in> set cmds \<Longrightarrow> purges x"
  shows "I (adb (snd (identities_run env race cmds st)))"
  unfolding identities_run_def
  by (rule foldl_invariant [where I = "\<lambda>st. I (adb (snd st))", OF w]) (auto intro!: exec [OF race] new purge)

end

section \<open>The schema constraints\<close>

lemma identity_insert_wf:
  assumes "db_wf d" and "identity_insert i d = Inr (r, d')"
  shows "db_wf d'"
proof (cases "sql_exists (of_login (i_provider i) (i_subject i)) (tenant_identities d)")
  case False
  with assms have d': "d' = d\<lparr>tenant_identities := tenant_identities d @ [i]\<rparr>" and t: "tenant_exists (i_tenant_id i) d"
    by (auto simp: identity_insert_def split: if_splits)
  have "distinct (map (\<lambda>r. (i_provider r, i_subject r)) (tenant_identities d @ [i]))"
    using False by (intro distinct_key_insert [OF db_wf_identity [OF assms(1)]]) (simp add: sql_exists_iff of_login_def)
  then show ?thesis using assms(1) t by (simp add: d' db_wf_defs tenant_exists_iff)
qed (use assms in \<open>simp add: identity_insert_def\<close>)

lemma db_wf_identities:
  assumes "db_wf d" and "distinct (map (\<lambda>r. (i_provider r, i_subject r)) t)"
    and "references i_tenant_id t (map t_id (tenants d))"
  shows "db_wf (d\<lparr>tenant_identities := t\<rparr>)"
  using assms by (simp add: db_wf_defs)

lemma db_wf_sessions:
  assumes "db_wf d" and "distinct (map ss_token_hash t)" and "references ss_tenant_id t (map t_id (tenants d))"
  shows "db_wf (d\<lparr>sessions := t\<rparr>)"
  using assms by (simp add: db_wf_defs)

lemma update_secret_hash_wf: "db_wf d \<Longrightarrow> db_wf (snd (update_secret_hash p s h d))"
  by (simp add: update_secret_hash_def db_wf_identities db_wf_identity db_wf_identity_tenant references_update table_simps)

lemma identity_delete_wf: "db_wf d \<Longrightarrow> db_wf (d\<lparr>tenant_identities := sql_delete p (tenant_identities d)\<rparr>)"
  by (simp add: db_wf_identities db_wf_identity db_wf_identity_tenant references_delete distinct_key_delete)

lemma session_delete_wf: "db_wf d \<Longrightarrow> db_wf (d\<lparr>sessions := sql_delete p (sessions d)\<rparr>)"
  by (simp add: db_wf_sessions db_wf_session db_wf_session_tenant references_delete distinct_key_delete)

lemma session_create_wf: "db_wf d \<Longrightarrow> session_create s d = Inr d' \<Longrightarrow> db_wf d'"
  by (auto simp: session_create_def tenant_exists_iff simp del: map_append split: if_splits
      intro!: db_wf_sessions distinct_key_insert db_wf_session db_wf_session_tenant)

lemma touch_wf: "db_wf d \<Longrightarrow> db_wf (snd (touch_and_get_tenant th now e d))"
  by (simp add: touch_and_get_tenant_def db_wf_sessions db_wf_session db_wf_session_tenant references_update table_simps)

lemma web_deletes_wf:
  assumes "db_wf d"
  shows "db_wf (snd (unlink_guarded x p d))" and "db_wf (snd (identity_delete_for_tenant x d))"
    and "db_wf (snd (session_delete th d))" and "db_wf (snd (session_delete_for_tenant x d))"
  using assms by (simp_all add: unlink_guarded_def Let_def identity_delete_for_tenant_def session_delete_def
      session_delete_for_tenant_def identity_delete_wf session_delete_wf)

interpretation web_wf: web_invariant db_wf "\<lambda>_. True" "\<lambda>_. True"
  by unfold_locales (erule (1) identity_insert_wf session_create_wf
    | erule tenants_exec_wf update_secret_hash_wf web_deletes_wf touch_wf)+

section \<open>Retired tenants\<close>

lemma web_tables:
  shows identity_insert_tenants: "identity_insert i d = Inr (r, d') \<Longrightarrow> tenants d' = tenants d"
    and session_create_tenants: "session_create ss d = Inr d' \<Longrightarrow> tenants d' = tenants d"
    and web_updates_tenants: "tenants (snd (update_secret_hash p s h d)) = tenants d"
      "tenants (snd (unlink_guarded x p d)) = tenants d" "tenants (snd (identity_delete_for_tenant x d)) = tenants d"
      "tenants (snd (touch_and_get_tenant th now e d)) = tenants d" "tenants (snd (session_delete th d)) = tenants d"
      "tenants (snd (session_delete_for_tenant x d)) = tenants d"
  by (auto simp: identity_insert_def update_secret_hash_def unlink_guarded_def Let_def identity_delete_for_tenant_def
      session_create_def touch_and_get_tenant_def session_delete_def session_delete_for_tenant_def split: if_splits)

interpretation web_retired: web_invariant "retired x" "\<lambda>i. i \<noteq> x" "\<lambda>_. True" for x
proof
  fix w :: authority and c tenv
  assume "retired x (adb w)" and "pred_option (\<lambda>i. i \<noteq> x) (makes_tenant c)"
  then show "retired x (adb (tenants_exec tenv c w))" by (intro retired_exec) auto
qed (erule retired_same [rotated], (erule identity_insert_tenants session_create_tenants | simp add: web_updates_tenants))+

section \<open>An account keeps a login method\<close>

definition keeps_login :: "string \<Rightarrow> db \<Rightarrow> bool" where
  "keeps_login x d = (db_wf d \<and> (retired x d \<or> sql_exists (\<lambda>i. i_tenant_id i = x) (tenant_identities d)))"

lemma tenant_create_identities: "tenant_create t d = Inr (r, d') \<Longrightarrow> tenant_identities d' = tenant_identities d"
  by (auto simp: tenant_create_def split: if_splits)

lemma issue_code_identities: "issue_code h e t p x d = Inr d' \<Longrightarrow> tenant_identities d' = tenant_identities d"
  by (auto simp: issue_code_def split: if_splits)

lemma repo_enroll_identities:
  "repo_enroll h pk i now ttl d = Inr (r, d') \<Longrightarrow> tenant_identities d' = tenant_identities d"
proof (cases r)
  case (Enrolled y b)
  assume "repo_enroll h pk i now ttl d = Inr (r, d')"
  with Enrolled obtain c d1 where
    r: "resolve_tenant c i now (burn (enroll_usable h now) now d) = Inr (Some (y, b, d1))"
    and d': "d' = upsert_pending pk y (now + secs ttl) d1" by (auto elim: repo_enroll_Enrolled)
  have "tenant_identities d1 = tenant_identities (burn (enroll_usable h now) now d)"
    using r by (auto simp: resolve_tenant_def split: option.splits if_splits sum.splits create_tenant_outcome.splits
        dest: tenant_create_identities)
  then show ?thesis by (simp add: d' upsert_pending_def burn_def)
qed (auto dest: repo_enroll_BadCode)

lemma tenants_exec_identities:
  assumes "c \<noteq> SweepDeregistered"
  shows "tenant_identities (adb (tenants_exec env c w)) = tenant_identities (adb w)"
proof (cases c)
  case (RegisterTenant i now email)
  then show ?thesis
    by (auto simp: register_tenant_adb split: sum.splits prod.splits dest: tenant_create_identities)
next
  case (DeregisterTenant now x)
  then show ?thesis using deregister_tenant_adb [of now x w] by (auto simp: set_deregistered_def)
next
  case (DeleteNetwork now x slug)
  then show ?thesis using delete_network_adb [of now x slug w] by (auto simp: set_deprovisioning_def)
next
  case (IssueSignupCode now picks email ip purpose)
  then show ?thesis using issue_signup_code_adb [of env now picks email ip purpose w]
    by (auto dest: issue_code_identities simp: log_code_request_def)
next
  case (IssueTenantCode now picks x)
  then show ?thesis using issue_tenant_code_adb [of env now picks x w] by (auto dest: issue_code_identities)
next
  case (EnrollDaemon i now code pk)
  then show ?thesis using enroll_adb [of env i now code pk w] by (auto dest: repo_enroll_identities)
next
  case (RegisterNetwork i j now x pk slug dn region)
  then show ?thesis using register_network_adb [of env i j now x pk slug dn region w]
    by (auto dest!: repo_register_network_Created(3) register_inserts_Created(1))
qed (use assms in \<open>simp_all add: cmd_adb repo_consume_code_def burn_def deprovision_networks_for_def
    set_deprovisioning_for_tenant_def remove_daemon_def daemon_remove_def mark_active_def delete_if_deprovisioning_def
    delete_networks_def Let_def\<close>)

lemma sweep_keeps_login: "keeps_login x d \<Longrightarrow> keeps_login x (snd (delete_tombstoned_empty d))"
proof (cases "retired x d")
  case False
  assume k: "keeps_login x d"
  then have wf: "db_wf d" and i: "sql_exists (\<lambda>i. i_tenant_id i = x) (tenant_identities d)"
    using False by (auto simp: keeps_login_def)
  from False obtain t where t: "t \<in> set (tenants d)" "t_id t = x" "tenant_live t" by (auto simp: retired_def)
  have "x \<notin> set (map t_id (filter (sweepable d) (tenants d)))"
  proof
    assume "x \<in> set (map t_id (filter (sweepable d) (tenants d)))"
    then obtain u where u: "u \<in> set (tenants d)" "t_id u = x" "\<not> tenant_live u" by (auto simp: sweepable_def)
    have "u = t" using distinct_key_find [OF db_wf_tenant_id [OF wf]] t u by (metis option.inject)
    with t u show False by simp
  qed
  then have "sql_exists (\<lambda>i. i_tenant_id i = x) (tenant_identities (snd (delete_tombstoned_empty d)))"
    using i by (auto simp: delete_tombstoned_empty_def delete_tenants_def Let_def sql_exists_iff)
  with wf show ?thesis by (simp add: keeps_login_def delete_tombstoned_empty_wf)
qed (simp add: keeps_login_def delete_tombstoned_empty_wf sweep_retired)

lemma unlink_keeps_login: "keeps_login x d \<Longrightarrow> keeps_login x (snd (unlink_guarded y p d))"
proof -
  assume k: "keeps_login x d"
  let ?mine = "filter (\<lambda>i. i_tenant_id i = y) (tenant_identities d)"
  have "\<exists>i \<in> set (tenant_identities d). i_tenant_id i = y \<and> i_provider i \<noteq> p"
    if "length (map i_provider ?mine) \<noteq> length (filter (\<lambda>q. q = p) (map i_provider ?mine))"
  proof (rule ccontr)
    assume "\<not> ?thesis"
    then have "filter (\<lambda>q. q = p) (map i_provider ?mine) = map i_provider ?mine" by (auto intro: filter_True)
    with that show False by simp
  qed
  with k have "retired x d \<or> sql_exists (\<lambda>i. i_tenant_id i = x) (tenant_identities (snd (unlink_guarded y p d)))"
    by (cases "x = y") (auto simp: keeps_login_def unlink_guarded_def Let_def sql_exists_iff)
  with k show ?thesis
    using web_deletes_wf(1) [of d y p] retired_same [OF web_updates_tenants(2), of x d y p] by (auto simp: keeps_login_def)
qed

lemma keeps_login_same:
  "keeps_login x d \<Longrightarrow> db_wf d' \<Longrightarrow> tenants d' = tenants d \<Longrightarrow>
    map i_tenant_id (tenant_identities d') = map i_tenant_id (tenant_identities d) \<Longrightarrow> keeps_login x d'"
  by (auto simp: keeps_login_def retired_def sql_exists_iff) (metis image_iff image_set)+

lemma web_login_tables:
  shows session_create_identities: "session_create ss d = Inr d' \<Longrightarrow> tenant_identities d' = tenant_identities d"
    and web_updates_identities: "map i_tenant_id (tenant_identities (snd (update_secret_hash p s h d))) =
        map i_tenant_id (tenant_identities d)"
      "tenant_identities (snd (touch_and_get_tenant th now e d)) = tenant_identities d"
      "tenant_identities (snd (session_delete th d)) = tenant_identities d"
      "tenant_identities (snd (session_delete_for_tenant x d)) = tenant_identities d"
  by (auto simp: session_create_def update_secret_hash_def touch_and_get_tenant_def session_delete_def
      session_delete_for_tenant_def table_simps split: if_splits)

lemma web_updates_login:
  assumes "keeps_login x d"
  shows "keeps_login x (snd (update_secret_hash p s h d))" and "keeps_login x (snd (touch_and_get_tenant th now e d))"
    and "keeps_login x (snd (session_delete th d))" and "keeps_login x (snd (session_delete_for_tenant y d))"
  using assms update_secret_hash_wf [of d p s h] touch_wf [of d th now e] web_deletes_wf(3,4) [of d]
  by (auto intro!: keeps_login_same [OF assms] simp: web_updates_tenants web_updates_identities)
    (simp_all add: keeps_login_def)

lemma session_create_login: "keeps_login x d \<Longrightarrow> session_create ss d = Inr d' \<Longrightarrow> keeps_login x d'"
  using session_create_wf [of d ss d'] session_create_tenants [of ss d d'] session_create_identities [of ss d d']
  by (simp add: keeps_login_def retired_def)

interpretation web_login: web_invariant "keeps_login x" "\<lambda>i. i \<noteq> x" "\<lambda>y. y \<noteq> x" for x
proof
  fix w :: authority and c tenv
  assume k: "keeps_login x (adb w)" and c: "pred_option (\<lambda>i. i \<noteq> x) (makes_tenant c)"
  then have wf: "db_wf (adb (tenants_exec tenv c w))" by (intro tenants_exec_wf) (simp add: keeps_login_def)
  show "keeps_login x (adb (tenants_exec tenv c w))"
  proof (cases "c = SweepDeregistered")
    case True
    then show ?thesis using sweep_keeps_login [OF k] by (simp add: sweep_adb)
  next
    case False
    have "makes_tenant c \<noteq> Some x" using c by (cases "makes_tenant c") auto
    with k wf show ?thesis
      using retired_exec [of x w c tenv] tenants_exec_identities [OF False, of tenv w] by (auto simp: keeps_login_def)
  qed
next
  fix d i r d' assume k: "keeps_login x d" and "identity_insert i d = Inr (r, d')"
  then show "keeps_login x d'"
    using identity_insert_wf [of d i r d'] by (auto simp: keeps_login_def identity_insert_def retired_def split: if_splits)
next
  fix d y assume k: "keeps_login x d" and "y \<noteq> x"
  then show "keeps_login x (snd (identity_delete_for_tenant y d))"
    using web_deletes_wf(2) [of d y] by (auto simp: keeps_login_def identity_delete_for_tenant_def retired_def sql_exists_iff)
qed (erule unlink_keeps_login web_updates_login | erule (1) session_create_login)+

section \<open>Sessions\<close>

lemma session_find:
  assumes "db_wf d" and "s \<in> set (sessions d)" and "session_live d th now s"
  shows "find (session_live d th now) (sessions d) = Some s"
proof -
  have "sql_count (session_live d th now) (sessions d) \<le> sql_count (\<lambda>r. ss_token_hash r = th) (sessions d)"
    by (rule sql_count_mono) (simp add: session_live_def)
  also have "\<dots> \<le> 1" by (rule distinct_key_count [OF db_wf_session [OF assms(1)]])
  finally have "at_most_one (session_live d th now) (sessions d)" by (simp add: at_most_one_def)
  then show ?thesis using assms(2,3) by (rule find_unique)
qed

lemma session_tenant_for_Some:
  assumes "db_wf d"
  shows "session_tenant_for th now d = Some x \<longleftrightarrow>
    (\<exists>s \<in> set (sessions d). ss_token_hash s = th \<and> now < ss_expires_at s \<and> ss_tenant_id s = x) \<and> \<not> retired x d"
proof
  assume "session_tenant_for th now d = Some x"
  then show "(\<exists>s \<in> set (sessions d). ss_token_hash s = th \<and> now < ss_expires_at s \<and> ss_tenant_id s = x) \<and> \<not> retired x d"
    by (auto simp: session_tenant_for_def session_live_def retired_def sql_exists_iff dest!: find_Some_D)
next
  assume "(\<exists>s \<in> set (sessions d). ss_token_hash s = th \<and> now < ss_expires_at s \<and> ss_tenant_id s = x) \<and> \<not> retired x d"
  then obtain s where "s \<in> set (sessions d)" "session_live d th now s" "ss_tenant_id s = x"
    by (auto simp: session_live_def retired_def sql_exists_iff)
  with session_find [OF assms] show "session_tenant_for th now d = Some x" by (simp add: session_tenant_for_def)
qed

lemma exchange_session_Inr:
  "exchange_session env now raw w = (Inr token, w') \<longleftrightarrow>
    (\<exists>x. tenant_for_session env now raw w = Some x \<and>
       env_jwt_encode (ie_tenants env) (spec_claims (user_spec x) (timestamp now) (ie_user_jwt_ttl_secs env)) = Inr token \<and>
       w' = w\<lparr>adb := snd (touch_and_get_tenant (hash_token env raw) now (now + secs SESSION_TTL_SECS) (adb w))\<rparr>)"
proof -
  obtain x d where t: "touch_and_get_tenant (hash_token env raw) now (now + secs SESSION_TTL_SECS) (adb w) = (x, d)"
    by fastforce
  then have "tenant_for_session env now raw w = x"
    by (auto simp: touch_and_get_tenant_def tenant_for_session_def session_tenant_for_def)
  with t show ?thesis
    by (cases x) (auto simp: exchange_session_def sign_def split: sum.splits)
qed

lemma touched_session:
  assumes "db_wf (adb w)" and "tenant_for_session env now raw w = Some x" and "now' < e"
  shows "session_tenant_for (hash_token env raw) now' (snd (touch_and_get_tenant (hash_token env raw) now e (adb w))) = Some x"
proof -
  let ?d = "snd (touch_and_get_tenant (hash_token env raw) now e (adb w))"
  from assms(1,2) obtain s where s: "s \<in> set (sessions (adb w))" "ss_token_hash s = hash_token env raw"
    "now < ss_expires_at s" "ss_tenant_id s = x" "\<not> retired x (adb w)"
    by (auto simp: tenant_for_session_def session_tenant_for_Some)
  then have "session_live (adb w) (hash_token env raw) now s"
    by (auto simp: session_live_def retired_def sql_exists_iff)
  with s have "s\<lparr>ss_expires_at := e\<rparr> \<in> set (sessions ?d)"
    by (force simp: touch_and_get_tenant_def set_sql_update)
  with s assms(3) show ?thesis
    unfolding session_tenant_for_Some [OF touch_wf [OF assms(1)]]
    by (intro conjI bexI [of _ "s\<lparr>ss_expires_at := e\<rparr>"]) (simp_all add: retired_def web_updates_tenants)
qed

section \<open>An example account\<close>

definition ex_github :: github_http where
  "ex_github = \<lparr>gh_token = (\<lambda>c. Inr (if c = ''code'' then Some ''access'' else None)), gh_user = (\<lambda>b. Inr 7),
     gh_emails = (\<lambda>b. Inr [\<lparr>ge_email = ''A@B.C'', ge_primary = True, ge_verified = True\<rparr>])\<rparr>"

definition ex_ids_env :: identities_env where
  "ex_ids_env = \<lparr>ie_tenants = ex_env, ie_argon2_hash = (\<lambda>salt p. Inr (CHR ''$'' # p)), ie_argon2_verify = (\<lambda>h p. h = CHR ''$'' # p),
     ie_providers = (\<lambda>n. if n = ''github'' then Some \<lparr>xp_authorize_url = (\<lambda>s. \<lparr>ar_url = ''u'', ar_csrf_state = s, ar_verifier = []\<rparr>),
       xp_exchange = github_exchange ex_github\<rparr> else None), ie_user_jwt_ttl_secs = 300\<rparr>"

definition ex_row :: "string \<Rightarrow> string \<Rightarrow> tenant_identity" where
  "ex_row p s = \<lparr>i_tenant_id = ''t1'', i_provider = p, i_subject = s, i_secret_hash = None, i_email = ''a@b.c'', i_created_at = 0\<rparr>"

definition ex_signed_in :: authority where
  "ex_signed_in = ex_trial\<lparr>adb := (adb ex_trial)\<lparr>tenant_identities := [ex_row ''github'' ''7'', ex_row ''password'' ''a@b.c''],
     sessions := [\<lparr>ss_token_hash = ''h'', ss_tenant_id = ''t1'', ss_expires_at = days 30, ss_created_at = 0\<rparr>]\<rparr>\<rparr>"

lemma ex_signed_in_wf: "db_wf (adb ex_signed_in)"
  using ex_trial_wf by (simp add: ex_signed_in_def ex_trial_eq ex_defs ex_row_def db_wf_defs references_def)

text \<open>A session cookie is exchanged for a token exactly when its hash is a stored session that has not expired and
  whose tenant exists and is not deregistered. The token names that tenant as a user, is bound to no key or network,
  is addressed to the Tenants service alone and expires after the configured time; and the session then lasts
  thirty days from the exchange.\<close>

theorem exchange_session_exactly:
  assumes "db_wf (adb w)"
  shows "((\<exists>w'. exchange_session env now raw w = (Inr token, w')) \<longleftrightarrow>
    (\<exists>s t. s \<in> set (sessions (adb w)) \<and> ss_token_hash s = hash_token env raw \<and> now < ss_expires_at s \<and>
       t \<in> set (tenants (adb w)) \<and> t_id t = ss_tenant_id s \<and> t_deregistered_at t = None \<and>
       env_jwt_encode (ie_tenants env) \<lparr>cl_iss = ''tenants'', cl_tid = ss_tenant_id s, cl_pt = User,
         cl_sub = ss_tenant_id s, cl_net = None, cl_cnf = None, cl_aud = [''tenants''], cl_iat = timestamp now,
         cl_exp = timestamp now + ie_user_jwt_ttl_secs env\<rparr> = Inr token)) \<and>
    (exchange_session env now raw w = (Inr token, w') \<longrightarrow> now' < now + days 30 \<longrightarrow>
      tenant_for_session env now' raw w' = tenant_for_session env now raw w)"
proof (intro conjI impI)
  show "(\<exists>w'. exchange_session env now raw w = (Inr token, w')) \<longleftrightarrow>
    (\<exists>s t. s \<in> set (sessions (adb w)) \<and> ss_token_hash s = hash_token env raw \<and> now < ss_expires_at s \<and>
       t \<in> set (tenants (adb w)) \<and> t_id t = ss_tenant_id s \<and> t_deregistered_at t = None \<and>
       env_jwt_encode (ie_tenants env) \<lparr>cl_iss = ''tenants'', cl_tid = ss_tenant_id s, cl_pt = User,
         cl_sub = ss_tenant_id s, cl_net = None, cl_cnf = None, cl_aud = [''tenants''], cl_iat = timestamp now,
         cl_exp = timestamp now + ie_user_jwt_ttl_secs env\<rparr> = Inr token)"
    unfolding exchange_session_Inr tenant_for_session_def session_tenant_for_Some [OF assms] retired_def
    by (auto simp: spec_claims_def user_spec_def ISSUER_def tenant_live_def; metis)
  assume "exchange_session env now raw w = (Inr token, w')" and "now' < now + days 30"
  then show "tenant_for_session env now' raw w' = tenant_for_session env now raw w"
    using touched_session [OF assms] unfolding exchange_session_Inr
    by (auto simp: tenant_for_session_def SESSION_TTL_SECS_def days_def)
qed

theorem exchange_session_exactly_witness:
  "\<exists>w'. exchange_session ex_ids_env 5 ''raw'' ex_signed_in = (Inr ''jwt'', w')"
proof -
  have "(\<exists>w'. exchange_session ex_ids_env 5 ''raw'' ex_signed_in = (Inr ''jwt'', w')) \<longleftrightarrow> True"
    by (subst conjunct1 [OF exchange_session_exactly [OF ex_signed_in_wf]])
      (simp add: ex_signed_in_def ex_trial_eq ex_defs ex_ids_env_def ex_env_def hash_token_def ex_crypto_def days_def secs_def)
  then show ?thesis by simp
qed

text \<open>C18. Deregistration signs a tenant out for good: afterwards no sequence of operations of the login plane and of the
  tenant aggregate, with other requests interleaved in their gaps, makes any session cookie resolve to that tenant or
  lets a session be opened for it, as long as fresh tenant ids stay fresh.\<close>

theorem deregistered_never_signed_in:
  assumes "db_wf (adb w)" and "deregister_tenant now x w = (Inr b, w')"
    and "\<forall>c \<in> set cmds. new_tenant_id c \<noteq> Some x"
    and "keeps db_wf race" and "keeps (retired x) race"
    and "identities_run env race cmds (attempts, w') = (attempts', w'')"
  shows "tenant_for_session env now' raw w'' \<noteq> Some x \<and>
    create_session env raw now' x w'' = (Inl (IUnauthorized ''account is closed''), w'')"
proof -
  have d: "retired x (adb w')" "db_wf (adb w')"
    using deregister_retires [OF assms(2)] deregister_tenant_adb [of now x w] assms(1,2) by (auto simp: set_deregistered_wf)
  have r: "retired x (adb w'')" "db_wf (adb w'')"
    using web_retired.run [OF assms(5), of "(attempts, w')" cmds env] web_wf.run [OF assms(4), of "(attempts, w')" cmds env]
      d assms(3,6) by (auto simp: option.pred_set)
  then have "\<not> tenant_is_live x w''"
    by (auto simp: tenant_is_live_def tenant_find_by_id_def retired_def split: option.splits dest!: find_Some_D)
  with r show ?thesis by (simp add: tenant_for_session_def session_tenant_for_Some create_session_def)
qed

theorem deregistered_never_signed_in_witness:
  "tenant_for_session ex_ids_env 9 ''raw'' (snd (identities_run ex_ids_env (\<lambda>w. w)
    [OidcCallback ''t2'' ''raw'' 6 ''github'' ''code'' []] (\<lambda>_. None, snd (deregister_tenant 5 ''t1'' ex_signed_in)))) \<noteq> Some ''t1''"
proof -
  let ?w = "snd (deregister_tenant 5 ''t1'' ex_signed_in)" and ?c = "OidcCallback ''t2'' ''raw'' 6 ''github'' ''code'' []"
  have "deregister_tenant 5 ''t1'' ex_signed_in = (Inr True, ?w)"
    by (simp add: deregister_tenant_def ex_signed_in_def ex_trial_eq ex_defs tenant_find_by_id_def set_deregistered_def
        tenant_live_def)
  moreover obtain a v where "identities_run ex_ids_env (\<lambda>w. w) [?c] (\<lambda>_. None, ?w) = (a, v)" by fastforce
  ultimately show ?thesis
    using deregistered_never_signed_in [OF ex_signed_in_wf, of 5 "''t1''" True ?w "[?c]" "\<lambda>w. w" ex_ids_env "\<lambda>_. None" a v 9 "''raw''"]
    by simp
qed

lemma unlink_identity_adb: "adb (snd (unlink_identity x p w)) = snd (unlink_guarded x p (adb w))"
  by (simp add: unlink_identity_def split: prod.splits unlink_outcome.splits)

text \<open>C19. An account never loses its last way in. If a live account has a login method, then after any sequence of
  operations, interleaved with other requests that respect this, it still has one or it was deregistered; the only
  operation excluded is the purge of that account, which follows deregistration.\<close>

theorem login_method_kept:
  assumes "db_wf (adb w)" and "\<exists>i \<in> set (tenant_identities (adb w)). i_tenant_id i = x"
    and "\<forall>c \<in> set cmds. new_tenant_id c \<noteq> Some x \<and> c \<noteq> PurgeFor x"
    and "keeps (keeps_login x) race"
    and "identities_run env race cmds (attempts, w) = (attempts', w')"
  shows "(\<exists>i \<in> set (tenant_identities (adb w')). i_tenant_id i = x) \<or>
    (\<forall>t \<in> set (tenants (adb w')). t_id t = x \<longrightarrow> t_deregistered_at t \<noteq> None)"
proof -
  have "keeps_login x (adb (snd (identities_run env race cmds (attempts, w))))"
    using assms(1-3) by (intro web_login.run [OF assms(4)]) (auto simp: keeps_login_def sql_exists_iff option.pred_set)
  then show ?thesis using assms(5) by (auto simp: keeps_login_def sql_exists_iff retired_def tenant_live_def)
qed

theorem login_method_kept_witness:
  "\<exists>i \<in> set (tenant_identities (adb (snd (identities_run ex_ids_env (\<lambda>w. w)
    [UnlinkIdentity ''t1'' ''github'', UnlinkIdentity ''t1'' ''password''] (\<lambda>_. None, ex_signed_in))))). i_tenant_id i = ''t1''"
proof -
  let ?cmds = "[UnlinkIdentity ''t1'' ''github'', UnlinkIdentity ''t1'' ''password'']"
  obtain a v where v: "identities_run ex_ids_env (\<lambda>w. w) ?cmds (\<lambda>_. None, ex_signed_in) = (a, v)" by fastforce
  have i: "\<exists>i \<in> set (tenant_identities (adb ex_signed_in)). i_tenant_id i = ''t1''" by (simp add: ex_signed_in_def ex_row_def)
  have "(\<exists>i \<in> set (tenant_identities (adb v)). i_tenant_id i = ''t1'') \<or>
      (\<forall>t \<in> set (tenants (adb v)). t_id t = ''t1'' \<longrightarrow> t_deregistered_at t \<noteq> None)"
    by (rule login_method_kept [OF ex_signed_in_wf i _ _ v]) simp_all
  moreover have "tenants (adb v) = tenants (adb ex_signed_in)"
    using arg_cong [OF v, of "\<lambda>st. tenants (adb (snd st))"] by (simp add: identities_run_def unlink_identity_adb web_updates_tenants)
  moreover have "\<exists>t \<in> set (tenants (adb ex_signed_in)). t_id t = ''t1'' \<and> t_deregistered_at t = None"
    by (simp add: ex_signed_in_def ex_trial_eq ex_defs)
  ultimately show ?thesis unfolding v snd_conv by metis
qed

section \<open>Federated providers\<close>

locale login_provider =
  fixes name :: string and exchange_code :: exchange
  assumes named: "exchange_code code verifier = Inr v \<Longrightarrow> vi_provider v = name"
    and lowercased: "exchange_code code verifier = Inr v \<Longrightarrow> to_lowercase (vi_email v) = vi_email v"
begin

lemma normalized: "exchange_code code verifier = Inr v \<Longrightarrow> normalize_email (vi_email v) = Inr e \<Longrightarrow> e = trim (vi_email v)"
  using lowercased [of code verifier v] by (auto simp: normalize_email_def Let_def trim_to_lowercase [symmetric] split: if_splits)

lemma links_own_name: "exchange_code code verifier = Inr v \<Longrightarrow> i_provider (link_row x v h e now) = name"
  using named by (simp add: link_row_def)

end

interpretation github: login_provider "''github''" "github_exchange http" for http
  by unfold_locales (auto simp: github_exchange_def Let_def split: sum.splits option.splits)

interpretation oidc: login_provider name "oidc_exchange lib name" for lib name
  by unfold_locales (auto simp: oidc_exchange_def split: sum.splits option.splits)

text \<open>GitHub reports only addresses it has verified, the primary one when that is verified.\<close>

lemma choose_email_verified: "choose_email emails = Some e \<Longrightarrow> e \<in> set emails \<and> ge_verified e"
  by (auto simp: choose_email_def split: option.splits dest!: find_Some_D)

lemma github_verified: "github_exchange http code verifier = Inr v \<Longrightarrow> vi_email_verified v"
  by (auto simp: github_exchange_def Let_def split: sum.splits option.splits dest!: choose_email_verified)

section \<open>Who a federated login signs in\<close>

lemma register_tenant_Inr:
  "register_tenant i now email w = (Inr t, w') \<Longrightarrow>
    t \<in> set (tenants (adb w')) \<and> tenant_live t \<and> normalize_email email = Inr (t_email t)"
  by (auto simp: register_tenant_def svc_normalize_email_def tenant_create_def tenant_live_def Let_def
      split: sum.splits prod.splits create_tenant_outcome.splits if_splits)

lemma find_tenant_by_email_Some:
  "find_tenant_by_email email w = Inr (Some t) \<Longrightarrow>
    t \<in> set (tenants (adb w)) \<and> tenant_live t \<and> normalize_email email = Inr (t_email t)"
  by (auto simp: find_tenant_by_email_def svc_normalize_email_def tenant_find_by_email_def split: sum.splits dest!: find_Some_D)

lemma owner_for_email_Inr:
  assumes "owner_for_email race i now email w = (Inr x, w')" and "normalize_email email = Inr email"
  obtains t where "t \<in> set (tenants (adb w)) \<union> set (tenants (adb w'))" and "t_id t = x" and "t_email t = email" and "tenant_live t"
proof (cases "find_tenant_by_email email w")
  case (Inr u)
  show ?thesis
  proof (cases u)
    case None
    obtain r v where v: "register_tenant i now email (race w) = (r, v)" by fastforce
    have "w' = v" "\<exists>t. t_id t = x \<and> (r = Inr t \<or> find_tenant_by_email email v = Inr (Some t))"
      using assms(1) Inr None v
      by (auto simp: owner_for_email_def split: sum.splits tenants_error.splits option.splits)
    then show ?thesis
      using that register_tenant_Inr [of i now email "race w"] find_tenant_by_email_Some [of email v] v assms(2) by auto
  next
    case (Some t)
    then show ?thesis
      using that [of t] assms Inr find_tenant_by_email_Some [of email w t] by (auto simp: owner_for_email_def)
  qed
qed (use assms in \<open>auto simp: owner_for_email_def\<close>)

lemma resolve_identity_Inr:
  assumes "resolve_identity race i now v h w = (Inr (x, existed), w')"
  shows "(\<exists>row \<in> set (tenant_identities (adb w)). of_login (vi_provider v) (vi_subject v) row \<and> i_tenant_id row = x) \<or>
    vi_email_verified v \<and>
    (\<exists>t \<in> set (tenants (adb w)) \<union> set (tenants (adb w')). t_id t = x \<and> normalize_email (vi_email v) = Inr (t_email t))"
proof (cases "find_by_provider_subject (vi_provider v) (vi_subject v) (adb w)")
  case None
  with assms obtain e q d r where e: "vi_email_verified v" "id_normalize_email (vi_email v) = Inr e"
    and o: "owner_for_email race i now e w = (Inr x, q)" and "identity_insert (link_row x v h e now) (adb q) = Inr (r, d)"
    and "w' = q\<lparr>adb := d\<rparr>"
    by (auto simp: resolve_identity_def split: if_splits sum.splits prod.splits)
  moreover have n: "normalize_email (vi_email v) = Inr e" using e(2) by (auto simp: id_normalize_email_def split: sum.splits)
  ultimately have "tenants (adb w') = tenants (adb q)" by (simp add: identity_insert_tenants)
  with owner_for_email_Inr [OF o normalize_email_idem [OF n]] n e(1) show ?thesis by metis
qed (use assms in \<open>auto simp: resolve_identity_def find_by_provider_subject_def dest!: find_Some_D\<close>)

lemma create_session_Inr:
  assumes "create_session env raw now x w = (Inr token, w')"
  shows "token = raw" and "\<not> retired x (adb w)"
    and "adb w' = (adb w)\<lparr>sessions := sessions (adb w) @ [\<lparr>ss_token_hash = hash_token env raw, ss_tenant_id = x,
      ss_expires_at = now + secs SESSION_TTL_SECS, ss_created_at = now\<rparr>]\<rparr>"
    and "\<not> sql_exists (\<lambda>s. ss_token_hash s = hash_token env raw) (sessions (adb w))"
  using assms
  by (auto simp: create_session_def session_create_def tenant_is_live_def tenant_find_by_id_def retired_def
      split: if_splits sum.splits option.splits dest!: find_Some_D)

text \<open>A federated login opens a session only for the rightful account, whatever other requests commit in the
  meantime: the provider answered for the code; the session is for a live tenant; and either that provider account was
  already linked to the tenant, or the provider has verified the e-mail address and the tenant's own address is that
  address in normal form.\<close>

theorem oidc_login_gated:
  assumes "oidc_callback env race new_id raw now provider code verifier w = (Inr token, w')"
  shows "\<exists>v x. id_exchange env provider code verifier = Inr v \<and> token = raw \<and>
    (\<exists>s. sessions (adb w') \<noteq> [] \<and> s = last (sessions (adb w')) \<and> ss_token_hash s = hash_token env raw \<and> ss_tenant_id s = x) \<and>
    (\<exists>t \<in> set (tenants (adb w')). t_id t = x \<and> t_deregistered_at t = None) \<and>
    ((\<exists>i \<in> set (tenant_identities (adb w)). i_provider i = vi_provider v \<and> i_subject i = vi_subject v \<and> i_tenant_id i = x) \<or>
     vi_email_verified v \<and>
     (\<exists>t \<in> set (tenants (adb w)) \<union> set (tenants (adb w')). t_id t = x \<and> normalize_email (vi_email v) = Inr (t_email t)))"
proof -
  from assms obtain v x b q where v: "id_exchange env provider code verifier = Inr v"
    and r: "resolve_identity race new_id now v None w = (Inr (x, b), q)" and c: "create_session env raw now x q = (Inr token, w')"
    by (auto simp: oidc_callback_def split: sum.splits prod.splits)
  note c = create_session_Inr [OF c]
  have "tenants (adb w') = tenants (adb q)" by (simp add: c(3))
  then show ?thesis
    using v c resolve_identity_Inr [OF r]
    by (intro exI [of _ v] exI [of _ x]) (auto simp: of_login_def retired_def tenant_live_def)
qed

theorem oidc_login_gated_witness:
  "\<exists>v. id_exchange ex_ids_env ''github'' ''code'' [] = Inr v \<and> vi_email v = ''a@b.c''"
proof -
  let ?w = "ex_signed_in\<lparr>adb := (adb ex_signed_in)\<lparr>sessions := []\<rparr>\<rparr>"
  have g: "github_exchange ex_github ''code'' [] = Inr \<lparr>vi_provider = ''github'', vi_subject = ''7'', vi_email = ''a@b.c'', vi_email_verified = True\<rparr>"
    by code_simp
  have "fst (oidc_callback ex_ids_env (\<lambda>w. w) ''t2'' ''raw'' 6 ''github'' ''code'' [] ?w) = Inr ''raw''"
    by (simp add: oidc_callback_def id_exchange_def id_provider_def ex_ids_env_def g resolve_identity_def find_by_provider_subject_def
        of_login_def ex_signed_in_def ex_row_def ex_trial_eq ex_defs create_session_def session_create_def tenant_is_live_def
        tenant_find_by_id_def tenant_live_def tenant_exists_def)
  then obtain w' where "oidc_callback ex_ids_env (\<lambda>w. w) ''t2'' ''raw'' 6 ''github'' ''code'' [] ?w = (Inr ''raw'', w')"
    by (metis prod.collapse)
  from oidc_login_gated [OF this] show ?thesis by (auto simp: id_exchange_def id_provider_def ex_ids_env_def g)
qed

end
