(* ===== verification/Billing_Props.thy ===== *)
theory Billing_Props
  imports Billing Identities_Props
begin

text \<open>
  The properties of the payment aggregate. \<open>billing_invariant\<close> is the contract a database invariant has to
  meet to survive every billing operation and whatever runs between its steps; it is interpreted on the
  schema constraints and on the webhook ledger. \<open>event_ledger\<close> is the contract behind at-least-once
  delivery: an acknowledged event stays recorded and its redelivery does nothing. The theorems over both are
  in \<open>Webhooks\<close> and \<open>Catalog_Props\<close>.
\<close>

section \<open>Commands\<close>

datatype billing_cmd =
    Webhook string instant "authority \<Rightarrow> authority" string string
  | SyncCatalog instant
  | StartCheckout instant string string string bool
  | ChangePlan instant string string bool
  | StartCardUpdate string
  | ReadSubscription string
  | ReadPaymentMethod string
  | ReadInvoices string
  | OtherTask "authority \<Rightarrow> authority"

fun billing_exec :: "'s stripe_gateway \<Rightarrow> billing_cmd \<Rightarrow> 's billing \<Rightarrow> 's billing" where
  "billing_exec gw (Webhook i now race payload sig) b = snd (handle_webhook gw i now race payload sig b)"
| "billing_exec gw (SyncCatalog now) b = snd (sync_catalog gw now b)"
| "billing_exec gw (StartCheckout now x email price accept) b = snd (start_checkout gw now x email price accept b)"
| "billing_exec gw (ChangePlan now x price accept) b = snd (change_plan gw now x price accept b)"
| "billing_exec gw (StartCardUpdate x) b = snd (start_card_update gw x b)"
| "billing_exec gw (ReadSubscription x) b = snd (billing_subscription gw x b)"
| "billing_exec gw (ReadPaymentMethod x) b = snd (payment_method gw x b)"
| "billing_exec gw (ReadInvoices x) b = snd (invoices gw x b)"
| "billing_exec gw (OtherTask race) b = b\<lparr>bl_auth := race (bl_auth b)\<rparr>"

definition billing_run :: "'s stripe_gateway \<Rightarrow> billing_cmd list \<Rightarrow> 's billing \<Rightarrow> 's billing" where
  "billing_run gw cmds b = foldl (\<lambda>b c. billing_exec gw c b) b cmds"

fun cmd_race :: "billing_cmd \<Rightarrow> authority \<Rightarrow> authority" where
  "cmd_race (Webhook i now race payload sig) = race"
| "cmd_race (OtherTask race) = race"
| "cmd_race c = (\<lambda>w. w)"

section \<open>Calls to the provider leave the authority alone\<close>

lemma call_stripe_keeps [simp]:
  "bl_auth (snd (call_stripe m b)) = bl_auth b" "bl_catalog (snd (call_stripe m b)) = bl_catalog b"
  "bl_resync (snd (call_stripe m b)) = bl_resync b"
  by (simp_all add: call_stripe_def split: prod.splits)

lemma call_stripe_frame:
  "call_stripe m b = (r, b') \<Longrightarrow> bl_auth b' = bl_auth b \<and> bl_catalog b' = bl_catalog b \<and> bl_resync b' = bl_resync b"
  using call_stripe_keeps [of m b] by simp

definition provider_only :: "'s billing \<Rightarrow> 's billing \<Rightarrow> bool" where
  "provider_only b b' = (bl_auth b' = bl_auth b \<and> bl_catalog b' = bl_catalog b \<and> bl_resync b' = bl_resync b)"

lemma provider_only_refl [simp]: "provider_only b b"
  by (simp add: provider_only_def)

lemma provider_only_trans: "provider_only a b \<Longrightarrow> provider_only b c \<Longrightarrow> provider_only a c"
  by (simp add: provider_only_def)

lemma call_stripe_provider_only: "call_stripe m b = (r, b') \<Longrightarrow> provider_only b b'"
  using call_stripe_frame by (metis provider_only_def)

lemma restore_pending_provider_only: "provider_only b (restore_pending gw sid p prior bd b)"
  by (simp add: restore_pending_def provider_only_def split: option.split)

lemma release_pending_provider_only: "release_pending gw details b = (r, b') \<Longrightarrow> provider_only b b'"
  by (auto simp: release_pending_def split: option.splits prod.splits sum.splits
      dest!: call_stripe_provider_only intro: provider_only_trans)

lemma act_on_plan_provider_only:
  "act_on_plan gw now sid p acc snap lv lc details prior b = (r, b') \<Longrightarrow> provider_only b b'"
  by (auto simp: act_on_plan_def Let_def split: if_splits prod.splits sum.splits
      dest!: call_stripe_provider_only intro: provider_only_trans restore_pending_provider_only)

lemma change_plan_cases:
  obtains (refused) e where "change_plan gw now x p acc b = (Inl e, b)"
  | (unread) sid e b1 where "Option.bind (get_billing_ref x (adb (bl_auth b))) br_subscription_id = Some sid"
      "call_stripe (gw_get_subscription gw sid) b = (Inl e, b1)"
      "change_plan gw now x p acc b = (Inl (BillingInternal (gateway_text e)), b1)"
  | (unknown) sid details b1 where "call_stripe (gw_get_subscription gw sid) b = (Inr details, b1)"
      "change_plan gw now x p acc b = (Inl (InvalidRequest ''current plan not in catalog''), b1)"
  | (unreleased) sid details b1 e b2 where "call_stripe (gw_get_subscription gw sid) b = (Inr details, b1)"
      "release_pending gw details b1 = (Inl e, b2)" "change_plan gw now x p acc b = (Inl e, b2)"
  | (acted) sid details target cur b1 prior b2 where
      "Option.bind (get_billing_ref x (adb (bl_auth b))) br_subscription_id = Some sid"
      "find_plan p (read_catalog (bl_catalog b)) = Some target"
      "call_stripe (gw_get_subscription gw sid) b = (Inr details, b1)"
      "find_plan (dt_price_id details) (read_catalog (bl_catalog b)) = Some cur"
      "release_pending gw details b1 = (Inr prior, b2)"
      "change_plan gw now x p acc b = act_on_plan gw now sid p acc (read_catalog (bl_catalog b)) (cp_level target)
         (cp_level cur) details prior b2"
proof (cases "Option.bind (get_billing_ref x (adb (bl_auth b))) br_subscription_id")
  case None
  then show ?thesis by (intro refused) (simp add: change_plan_def)
next
  case sid: (Some sid)
  show ?thesis
  proof (cases "find_plan p (read_catalog (bl_catalog b))")
    case None
    then show ?thesis using sid by (intro refused) (simp add: change_plan_def Let_def)
  next
    case target: (Some target)
    obtain r b1 where c: "call_stripe (gw_get_subscription gw sid) b = (r, b1)" by fastforce
    show ?thesis
    proof (cases r)
      case (Inl e)
      then show ?thesis using sid target c by (intro unread) (simp_all add: change_plan_def Let_def)
    next
      case (Inr details)
      obtain q b2 where rel: "release_pending gw details b1 = (q, b2)" by fastforce
      have cp: "change_plan gw now x p acc b =
          (case find_plan (dt_price_id details) (read_catalog (bl_catalog b)) of
             None \<Rightarrow> (Inl (InvalidRequest ''current plan not in catalog''), b1)
           | Some cur \<Rightarrow> (case q of Inl e \<Rightarrow> (Inl e, b2)
               | Inr prior \<Rightarrow> act_on_plan gw now sid p acc (read_catalog (bl_catalog b)) (cp_level target)
                   (cp_level cur) details prior b2))"
        using sid target c Inr rel by (simp add: change_plan_def Let_def split: option.split sum.split)
      show ?thesis
      proof (cases "find_plan (dt_price_id details) (read_catalog (bl_catalog b))")
        case None
        then show ?thesis using c Inr cp by (intro unknown) simp_all
      next
        case (Some cur)
        then show ?thesis using sid target c Inr rel cp unreleased acted by (cases q) simp_all
      qed
    qed
  qed
qed

lemma change_plan_provider_only: "provider_only b (snd (change_plan gw now x p acc b))"
proof (cases rule: change_plan_cases [where gw = gw and now = now and x = x and p = p and acc = acc and b = b])
  case (unreleased sid details b1 e b2)
  then show ?thesis
    using call_stripe_provider_only [OF unreleased(1)] release_pending_provider_only [OF unreleased(2)]
    by (auto intro: provider_only_trans)
next
  case (acted sid details target cur b1 prior b2)
  obtain r b3 where "change_plan gw now x p acc b = (r, b3)" by fastforce
  then show ?thesis
    using call_stripe_provider_only [OF acted(3)] release_pending_provider_only [OF acted(5)] acted(6)
      act_on_plan_provider_only by (metis provider_only_trans snd_conv)
qed (auto dest: call_stripe_provider_only)

lemma reads_provider_only:
  "provider_only b (snd (start_card_update gw x b))" "provider_only b (snd (billing_subscription gw x b))"
  "provider_only b (snd (payment_method gw x b))" "provider_only b (snd (invoices gw x b))"
  by (auto simp: start_card_update_def billing_subscription_def payment_method_def invoices_def Let_def
      split: option.splits prod.splits sum.splits
      dest!: call_stripe_provider_only intro: provider_only_trans)

lemmas billing_frames =
  change_plan_provider_only [unfolded provider_only_def] reads_provider_only [unfolded provider_only_def]

section \<open>What survives every billing operation\<close>

locale billing_invariant =
  fixes I :: "db \<Rightarrow> bool"
  assumes license_cmd: "I (adb w) \<Longrightarrow> I (adb (sub_exec policy c w))"
    and customer_row: "I d \<Longrightarrow> upsert_customer now x cid d = Inr d' \<Longrightarrow> I d'"
    and subscription_row: "I d \<Longrightarrow> upsert_subscription now x cid sid price d = Inr d' \<Longrightarrow> I d'"
    and ledger_row: "I d \<Longrightarrow> I (record_event eid now d)"
begin

lemma canceled: "I (adb w) \<Longrightarrow> I (adb (cancel now x w))"
  using license_cmd [of w _ "Cancel now x"] by simp

lemma past_due: "I (adb w) \<Longrightarrow> I (adb (snd (mark_past_due now x w)))"
  using license_cmd [of w _ "MarkPastDue now x"] by simp

lemma updated: "I (adb w) \<Longrightarrow> I (adb (snd (update_paid now x st ent pe w)))"
  using license_cmd [of w _ "UpdatePaid now x st ent pe"] by simp

lemma converted: "I (adb w) \<Longrightarrow> I (adb (snd (convert_trial_to_paid i now x st ent pe w)))"
  using license_cmd [of w _ "ConvertTrialToPaid i now x st ent pe"] by simp

lemma recorded: "I (adb w) \<Longrightarrow> record_ref now x data w = (r, w') \<Longrightarrow> I (adb w')"
  by (auto simp: record_ref_def split: sum.splits dest: subscription_row)

lemma upserted:
  assumes "keeps I race" and w: "I (adb w)"
  shows "I (adb (snd (apply_upsert i now race data w)))"
proof (cases "or_else (tenant_for_subscription (sd_subscription_id data) (adb w)) (sd_tenant_id data)")
  case (Some x)
  have r: "I (adb (race w))" using assms by (rule keepsD)
  obtain q w1 where q: "record_ref now x data (race w) = (q, w1)" by fastforce
  have w1: "I (adb w1)" by (rule recorded [OF r q])
  show ?thesis
    by (simp add: apply_upsert_def Let_def Some q r w w1 canceled updated converted
        split: option.split sum.split)
qed (simp add: apply_upsert_def Let_def w)

lemma kind_applied:
  assumes "keeps I race" and "I (adb (bl_auth b))"
  shows "I (adb (bl_auth (snd (apply_event_kind gw i now race k b))))"
proof (cases k)
  case (SubscriptionUpsert data)
  then show ?thesis using upserted [OF assms, of i now data]
    by (auto simp: lift_auth_def split: prod.splits sum.splits)
next
  case (CardSetupCompleted cid intent)
  then show ?thesis using assms(2) by (auto split: prod.splits sum.splits dest!: call_stripe_frame)
qed (use assms in \<open>simp_all add: canceled past_due split: option.split\<close>)

lemma event_applied:
  assumes "keeps I race" and "I (adb (bl_auth b))"
  shows "I (adb (bl_auth (snd (apply_event gw i now race ev b))))"
  using kind_applied [OF assms, of gw i now "ev_kind ev"] assms(2)
  by (auto simp: apply_event_def ledger_row split: prod.splits sum.splits)

lemma checked_out: "I (adb (bl_auth b)) \<Longrightarrow> I (adb (bl_auth (snd (start_checkout gw now x email p acc b))))"
  by (auto simp: start_checkout_def Let_def split: prod.splits sum.splits option.splits
      dest!: call_stripe_frame dest: customer_row)

lemma synced: "bl_auth (snd (sync_catalog gw now b)) = bl_auth b"
  by (auto simp: sync_catalog_def split: prod.splits sum.splits dest!: call_stripe_frame)

lemma exec:
  assumes "keeps I (cmd_race c)" and "I (adb (bl_auth b))"
  shows "I (adb (bl_auth (billing_exec gw c b)))"
proof (cases c)
  case (Webhook i now race payload sig)
  then show ?thesis using assms by (simp add: handle_webhook_def event_applied split: sum.split)
next
  case (OtherTask race)
  then show ?thesis using assms by (simp add: keepsD)
qed (use assms in \<open>simp_all add: checked_out synced billing_frames\<close>)

lemma run:
  assumes "list_all (\<lambda>c. keeps I (cmd_race c)) cmds" and "I (adb (bl_auth b))"
  shows "I (adb (bl_auth (billing_run gw cmds b)))"
  using assms by (induction cmds arbitrary: b) (auto simp: billing_run_def exec)

end

lemma upsert_row_frame: "upsert_row x f r d = Inr d' \<Longrightarrow> \<exists>t. d' = d\<lparr>billing_customers := t\<rparr>"
  by (auto simp: upsert_row_def split: if_splits)

lemma upsert_row_wf:
  assumes "db_wf d" and "upsert_row x f r d = Inr d'"
    and "\<And>s. bc_tenant_id (f s) = bc_tenant_id s" "\<And>s. bc_provider (f s) = bc_provider s"
    and "bc_tenant_id r = x" "bc_provider r = PROVIDER_STRIPE"
  shows "db_wf d'"
proof (cases "sql_exists (stripe_row x) (billing_customers d)")
  case True
  then have "d' = d\<lparr>billing_customers := sql_update (stripe_row x) f (billing_customers d)\<rparr>"
    using assms(2) by (simp add: upsert_row_def)
  then show ?thesis using assms(1,3,4) by (auto simp: db_wf_defs table_simps intro!: references_update)
next
  case False
  then have d': "d' = d\<lparr>billing_customers := billing_customers d @ [r]\<rparr>" and t: "tenant_exists x d"
    using assms(2) by (auto simp: upsert_row_def split: if_splits)
  have "distinct (map (\<lambda>r. (bc_tenant_id r, bc_provider r)) (billing_customers d @ [r]))"
    by (rule distinct_key_insert) (use assms False in \<open>auto simp: db_wf_defs stripe_row_def sql_exists_iff\<close>)
  then show ?thesis using assms(1,5) t by (simp add: d' db_wf_defs tenant_exists_iff)
qed

lemma record_event_wf: "db_wf d \<Longrightarrow> db_wf (record_event eid now d)"
  by (auto simp: record_event_def is_event_processed_def db_wf_defs sql_exists_iff)

interpretation billing_wf: billing_invariant db_wf
proof unfold_locales
  show "db_wf d'" if "db_wf d" "upsert_customer now x cid d = Inr d'" for d now x cid d'
    using that(2) unfolding upsert_customer_def by (rule upsert_row_wf [OF that(1)]) simp_all
  show "db_wf d'" if "db_wf d" "upsert_subscription now x cid sid price d = Inr d'" for d now x cid sid price d'
    using that(2) unfolding upsert_subscription_def by (rule upsert_row_wf [OF that(1)]) simp_all
qed (simp_all add: sub_exec_wf record_event_wf)

section \<open>The ledger\<close>

text \<open>
  At-least-once delivery: \<open>deliver\<close> acknowledges an event it has seen without doing anything, and records
  one it acknowledges; the other steps of the service do not forget.
\<close>

locale event_ledger =
  fixes seen :: "'e \<Rightarrow> 'st \<Rightarrow> bool"
    and deliver :: "'x \<Rightarrow> 'e \<Rightarrow> 'st \<Rightarrow> 'r \<times> 'st"
    and ack :: 'r
    and step :: "'c \<Rightarrow> 'st \<Rightarrow> 'st"
    and allowed :: "'e \<Rightarrow> 'c \<Rightarrow> bool"
  assumes seen_step: "seen e s \<Longrightarrow> allowed e c \<Longrightarrow> seen e (step c s)"
    and deliver_seen: "seen e s \<Longrightarrow> deliver x e s = (ack, s)"
    and deliver_records: "deliver x e s = (ack, s') \<Longrightarrow> seen e s'"
begin

lemma seen_run: "seen e s \<Longrightarrow> list_all (allowed e) cs \<Longrightarrow> seen e (foldl (\<lambda>s c. step c s) s cs)"
  by (induction cs arbitrary: s) (auto simp: seen_step)

lemma redelivery:
  assumes "deliver x e s = (ack, s1)" and "list_all (allowed e) cs"
  shows "deliver y e (foldl (\<lambda>s c. step c s) s1 cs) = (ack, foldl (\<lambda>s c. step c s) s1 cs)"
  by (rule deliver_seen [OF seen_run [OF deliver_records [OF assms(1)] assms(2)]])

end

lemma sub_exec_ledger: "processed_stripe_events (adb (sub_exec policy c w)) = processed_stripe_events (adb w)"
proof (cases c)
  case (ExpireOverdue now)
  have "processed_stripe_events (adb (foldl (\<lambda>w x. cancel now x w) w xs)) = processed_stripe_events (adb w)" for xs
    by (induction xs arbitrary: w) (simp_all add: cancel_adb cancel_current_def)
  then show ?thesis using ExpireOverdue by (simp add: expire_overdue_def Let_def)
qed (auto simp: create_trial_def repo_create_trial_def cancel_adb cancel_current_def convert_trial_to_paid_def
    repo_convert_trial_to_paid_def update_paid_def repo_update_current_def mark_past_due_def
    mark_past_due_current_def Let_def split: sum.splits if_splits)

interpretation billing_ledger: billing_invariant "is_event_processed eid" for eid
proof unfold_locales
  show "is_event_processed eid (adb (sub_exec policy c w))" if "is_event_processed eid (adb w)" for w policy c
    using that by (simp add: is_event_processed_def sub_exec_ledger)
qed (auto simp: upsert_customer_def upsert_subscription_def is_event_processed_def record_event_def
    dest!: upsert_row_frame)

lemma apply_event_records:
  "apply_event gw i now race ev b = (Inr (), b') \<Longrightarrow> is_event_processed (ev_id ev) (adb (bl_auth b'))"
  by (auto simp: apply_event_def record_event_def is_event_processed_def split: if_splits prod.splits sum.splits)

interpretation webhook: event_ledger
  "\<lambda>eid b. is_event_processed eid (adb (bl_auth b))"
  "\<lambda>(i, now, race, k) eid. apply_event gw i now race \<lparr>ev_id = eid, ev_kind = k\<rparr>" "Inr ()" "billing_exec gw"
  "\<lambda>eid c. keeps (is_event_processed eid) (cmd_race c)" for gw :: "'s stripe_gateway"
proof unfold_locales
  show "is_event_processed e (adb (bl_auth s'))"
    if "(case x of (i, now, race, k) \<Rightarrow> \<lambda>eid. apply_event gw i now race \<lparr>ev_id = eid, ev_kind = k\<rparr>) e s = (Inr (), s')"
    for x e s s'
    using that apply_event_records by (cases x) fastforce
qed (auto simp: apply_event_def intro: billing_ledger.exec)

end
