(* ===== verification/Webhooks.thy ===== *)
theory Webhooks
  imports Billing_Props
begin

text \<open>
  What webhook events do. The first theorems give the credential of a webhook and the harmlessness of a
  redelivery; then the effect of a subscription event on the license and the provider reference, on every
  branch; then what the order of events can do: a late update revives a license that was ended, and an
  update that races with the reaper is acknowledged without a license.
\<close>

section \<open>The effect of a subscription event\<close>

definition license_terms :: "string \<Rightarrow> authority \<Rightarrow> (subscription_status \<times> entitlement \<times> instant option) option" where
  "license_terms x w =
     map_option (\<lambda>s. (s_status s, s_entitlement s, s_current_period_end s)) (find_current x (adb w))"

definition granted :: "subscription_data \<Rightarrow> subscription_view option \<Rightarrow> entitlement option" where
  "granted data lic =
     (case lic of
        None \<Rightarrow> sd_entitlement data
      | Some s \<Rightarrow>
          if sv_status s = SubActive \<or> sv_status s = PastDue
          then Some (case sd_entitlement data of None \<Rightarrow> sv_entitlement s | Some e \<Rightarrow> e)
          else sd_entitlement data)"

lemma get_billing_ref_cong: "billing_customers d = billing_customers d' \<Longrightarrow> get_billing_ref x d = get_billing_ref x d'"
  by (simp add: get_billing_ref_def)

lemma upsert_row_find:
  assumes "upsert_row x f r d = Inr d'" and "\<And>s. stripe_row y (f s) = stripe_row y s" and "stripe_row x r"
  shows "find (stripe_row y) (billing_customers d') =
    (if y = x then Some (case find (stripe_row x) (billing_customers d) of None \<Rightarrow> r | Some s \<Rightarrow> f s)
     else find (stripe_row y) (billing_customers d))"
proof (cases "sql_exists (stripe_row x) (billing_customers d)")
  case True
  then have d': "billing_customers d' = sql_update (stripe_row x) f (billing_customers d)"
    using assms(1) by (auto simp: upsert_row_def)
  obtain s where s: "find (stripe_row x) (billing_customers d) = Some s" using True by (metis find_Some_exists)
  have "map_option (\<lambda>r. if stripe_row x r then f r else r) (find (stripe_row y) (billing_customers d)) =
      find (stripe_row y) (billing_customers d)" if "y \<noteq> x"
    using that by (cases "find (stripe_row y) (billing_customers d)") (auto simp: stripe_row_def dest: find_Some_D)
  then show ?thesis
    using s find_Some_D [OF s] assms(2) by (simp add: d' find_sql_update_keep)
next
  case False
  then have "billing_customers d' = billing_customers d @ [r]"
    using assms(1) by (auto simp: upsert_row_def split: if_splits)
  moreover have "stripe_row y r \<longleftrightarrow> y = x" using assms(3) by (auto simp: stripe_row_def)
  ultimately show ?thesis using False by (auto simp: find_append find_None_exists [symmetric] split: option.split)
qed

lemma record_ref_ok:
  assumes "tenant_exists x (adb w)"
  obtains w' where "record_ref now x data w = (Inr (), w')"
    and "subscriptions (adb w') = subscriptions (adb w)" and "tenants (adb w') = tenants (adb w)"
    and "\<And>y. get_billing_ref y (adb w') =
      (if y = x then Some \<lparr>br_customer_id = Some (sd_customer_id data), br_subscription_id = Some (sd_subscription_id data),
         br_price_id = sd_price_id data\<rparr> else get_billing_ref y (adb w))"
proof -
  obtain d where d: "upsert_subscription now x (sd_customer_id data) (sd_subscription_id data) (sd_price_id data) (adb w) = Inr d"
    using assms by (cases "sql_exists (stripe_row x) (billing_customers (adb w))")
      (simp_all add: upsert_subscription_def upsert_row_def)
  have "get_billing_ref y d = (if y = x then Some \<lparr>br_customer_id = Some (sd_customer_id data),
      br_subscription_id = Some (sd_subscription_id data), br_price_id = sd_price_id data\<rparr> else get_billing_ref y (adb w))" for y
    using upsert_row_find [OF d [unfolded upsert_subscription_def], of y]
    by (auto simp: get_billing_ref_def stripe_row_def split: option.split)
  moreover have "subscriptions d = subscriptions (adb w)" "tenants d = tenants (adb w)"
    using upsert_row_frame [OF d [unfolded upsert_subscription_def]] by auto
  ultimately show ?thesis using d by (intro that [of "w\<lparr>adb := d\<rparr>"]) (simp_all add: record_ref_def)
qed

lemma update_paid_find:
  assumes "st \<noteq> Canceled"
  shows "find_current y (adb (snd (update_paid now x st ent pe w))) =
    (if y = x then map_option (\<lambda>s. s\<lparr>s_status := st, s_entitlement := ent, s_current_period_end := pe, s_updated_at := now\<rparr>)
       (find_current x (adb w)) else find_current y (adb w))"
proof (cases "y = x")
  case True
  let ?f = "\<lambda>s. s\<lparr>s_status := st, s_entitlement := ent, s_current_period_end := pe, s_updated_at := now\<rparr>"
  have "find (live_of x) (sql_update (live_of x) ?f t) = map_option ?f (find (live_of x) t)" for t
    using assms by (induction t) (auto simp: live_of_def sub_live_def)
  then show ?thesis using True by (simp add: update_paid_def repo_update_current_def find_current_def)
qed (simp add: update_paid_def repo_update_current_def find_current_def find_live_update_other)

lemma convert_ok:
  assumes "tenant_exists x (adb w)" and "st \<noteq> Canceled" and "\<not> sql_exists (\<lambda>s. s_id s = i) (subscriptions (adb w))"
  shows "fst (convert_trial_to_paid i now x st ent pe w) = Inr ()"
proof -
  have "sql_exists (\<lambda>s. s_id s = i) (cancel_live x now t) = sql_exists (\<lambda>s. s_id s = i) t" for t
    by (induction t) (auto simp: cancel_live_def)
  then show ?thesis using assms
    by (auto simp: convert_trial_to_paid_def repo_convert_trial_to_paid_def INSERT_SUBSCRIPTION_def Let_def split: sum.split)
qed

lemma snd_update_frame [simp]:
  "billing_customers (adb (snd (update_paid now x st ent pe w))) = billing_customers (adb w)"
  by (simp add: update_paid_def repo_update_current_def)

lemma snd_convert_frame [simp]:
  "billing_customers (adb (snd (convert_trial_to_paid i now x st ent pe w))) = billing_customers (adb w)"
  by (auto simp: convert_trial_to_paid_def repo_convert_trial_to_paid_def Let_def split: sum.split)

definition paid :: "subscription_view option \<Rightarrow> bool" where
  "paid lic = (map_option sv_status lic \<in> {Some SubActive, Some PastDue})"

lemma apply_upsert_granted:
  assumes "or_else (tenant_for_subscription (sd_subscription_id data) (adb w)) (sd_tenant_id data) = Some x"
    and "sd_status data \<noteq> Canceled"
  shows "apply_upsert i now race data w =
    (case granted data (port_current x w) of
       None \<Rightarrow> (Inr (), race w)
     | Some ent \<Rightarrow>
         (case record_ref now x data (race w) of
            (Inl e, w1) \<Rightarrow> (Inl e, w1)
          | (Inr _, w1) \<Rightarrow>
              if paid (port_current x w)
              then (Inr (), snd (update_paid now x (sd_status data) ent (sd_current_period_end data) w1))
              else convert_trial_to_paid i now x (sd_status data) ent (sd_current_period_end data) w1))"
proof (cases "port_current x w")
  case None
  then show ?thesis using assms
    by (cases "sd_entitlement data") (simp_all add: apply_upsert_def granted_def paid_def Let_def split: prod.split sum.split)
next
  case (Some s)
  then show ?thesis using assms
    by (cases "sd_entitlement data")
      (simp_all add: apply_upsert_def granted_def paid_def or_else_def Let_def split: prod.split sum.split)
qed

lemma find_current_cong: "subscriptions d = subscriptions d' \<Longrightarrow> find_current x d = find_current x d'"
  by (simp add: find_current_def)

lemma upsert_step:
  assumes "tenant_exists x (adb w)" and "st \<noteq> Canceled" and "\<not> sql_exists (\<lambda>s. s_id s = i) (subscriptions (adb w))"
    and lic: "l \<Longrightarrow> find_current x (adb w) \<noteq> None"
    and r: "(if l then (Inr (), snd (update_paid now x st ent pe w)) else convert_trial_to_paid i now x st ent pe w) = (r, w')"
  shows "r = Inr ()" and "license_terms x w' = Some (st, ent, pe)"
    and "y \<noteq> x \<Longrightarrow> find_current y (adb w') = find_current y (adb w)"
    and "billing_customers (adb w') = billing_customers (adb w)"
proof -
  have ok: "fst (convert_trial_to_paid i now x st ent pe w) = Inr ()" by (rule convert_ok [OF assms(1-3)])
  show "r = Inr ()" using ok r by (cases l) auto
  then have conv: "convert_trial_to_paid i now x st ent pe w = (Inr (), w')" if "\<not> l" using r that by simp
  show "license_terms x w' = Some (st, ent, pe)"
    using r lic convert_find_current(1) [OF assms(2) conv] assms(2)
    by (cases l) (auto simp: license_terms_def update_paid_find)
  show "y \<noteq> x \<Longrightarrow> find_current y (adb w') = find_current y (adb w)"
    using r convert_find_current(2) [OF assms(2) conv] assms(2) by (cases l) (auto simp: update_paid_find)
  show "billing_customers (adb w') = billing_customers (adb w)"
    using arg_cong [OF r, of "\<lambda>p. billing_customers (adb (snd p))"] by (cases l) simp_all
qed

lemma upsert_effect:
  assumes "or_else (tenant_for_subscription (sd_subscription_id data) (adb w)) (sd_tenant_id data) = Some x"
    and "sd_status data \<noteq> Canceled" and "tenant_exists x (adb w)"
    and "\<not> sql_exists (\<lambda>s. s_id s = i) (subscriptions (adb w))"
    and "apply_upsert i now (\<lambda>w. w) data w = (r, w')"
  shows "r = Inr () \<and>
    (case granted data (port_current x w) of
       None \<Rightarrow> w' = w
     | Some ent \<Rightarrow> license_terms x w' = Some (sd_status data, ent, sd_current_period_end data) \<and>
         get_billing_ref x (adb w') = Some \<lparr>br_customer_id = Some (sd_customer_id data),
           br_subscription_id = Some (sd_subscription_id data), br_price_id = sd_price_id data\<rparr>) \<and>
    (\<forall>y. y \<noteq> x \<longrightarrow> find_current y (adb w') = find_current y (adb w) \<and>
       get_billing_ref y (adb w') = get_billing_ref y (adb w))"
proof (cases "granted data (port_current x w)")
  case None
  then show ?thesis using assms(5) apply_upsert_granted [OF assms(1,2), of i now "\<lambda>w. w"] by simp
next
  case (Some ent)
  obtain w1 where w1: "record_ref now x data w = (Inr (), w1)"
    and s: "subscriptions (adb w1) = subscriptions (adb w)" and t: "tenants (adb w1) = tenants (adb w)"
    and ref: "\<And>y. get_billing_ref y (adb w1) =
      (if y = x then Some \<lparr>br_customer_id = Some (sd_customer_id data), br_subscription_id = Some (sd_subscription_id data),
         br_price_id = sd_price_id data\<rparr> else get_billing_ref y (adb w))"
    using record_ref_ok [OF assms(3)] by metis
  have te: "tenant_exists x (adb w1)" using assms(3) t by (simp add: tenant_exists_iff)
  have fr: "\<not> sql_exists (\<lambda>s. s_id s = i) (subscriptions (adb w1))" using assms(4) s by simp
  have l: "find_current x (adb w1) \<noteq> None" if "paid (port_current x w)"
    using that by (auto simp: paid_def port_current_def find_current_cong [OF s])
  have step: "(if paid (port_current x w) then (Inr (), snd (update_paid now x (sd_status data) ent (sd_current_period_end data) w1))
      else convert_trial_to_paid i now x (sd_status data) ent (sd_current_period_end data) w1) = (r, w')"
    using assms(5) apply_upsert_granted [OF assms(1,2), of i now "\<lambda>w. w"] Some w1 by simp
  show ?thesis
    using upsert_step [OF te assms(2) fr l step] ref get_billing_ref_cong [of "adb w'" "adb w1"] find_current_cong [OF s] Some
    by simp
qed

lemma paid_active_for_good:
  assumes "db_wf (adb w)" and "license_terms x w = Some (SubActive, ent, pe)"
  shows "port_is_active policy t x (snd (expire_overdue policy t w))"
proof -
  obtain s where s: "find_current x (adb w) = Some s" "s_status s = SubActive"
    using assms(2) by (auto simp: license_terms_def)
  then have "\<not> overdue_at policy t s" by (simp add: overdue_at_def overdue_def)
  then have "find_current x (adb (snd (expire_overdue policy t w))) = Some s"
    using list_overdue_iff [OF assms(1) s(1)] s(1) by (simp add: expire_overdue_def Let_def foldl_cancel_current)
  then show ?thesis using s(2) by (simp add: port_is_active_def sub_is_active_def)
qed

lemma cancel_frame [simp]:
  "billing_customers (adb (cancel now x w)) = billing_customers (adb w)" "tenants (adb (cancel now x w)) = tenants (adb w)"
  "processed_stripe_events (adb (cancel now x w)) = processed_stripe_events (adb w)"
  by (simp_all add: cancel_adb cancel_current_def)

lemma cancel_ids [simp]:
  "sql_exists (\<lambda>s. s_id s = i) (subscriptions (adb (cancel now x w))) = sql_exists (\<lambda>s. s_id s = i) (subscriptions (adb w))"
proof -
  have "sql_exists (\<lambda>s. s_id s = i) (cancel_live x now t) = sql_exists (\<lambda>s. s_id s = i) t" for t
    by (induction t) (auto simp: cancel_live_def)
  then show ?thesis by (simp add: cancel_adb cancel_current_def)
qed

lemma record_event_frame [simp]:
  "subscriptions (record_event e now d) = subscriptions d" "tenants (record_event e now d) = tenants d"
  "billing_customers (record_event e now d) = billing_customers d"
  by (simp_all add: record_event_def)

lemma deleted_then:
  assumes "tenant_for_subscription sid (adb (bl_auth b)) = Some x" and "\<not> is_event_processed e (adb (bl_auth b))"
    and "apply_event gw i now race \<lparr>ev_id = e, ev_kind = SubscriptionDeleted sid\<rparr> b = (r, b1)"
  shows "r = Inr ()" and "bl_auth b1 = (cancel now x (bl_auth b))\<lparr>adb := record_event e now (adb (cancel now x (bl_auth b)))\<rparr>"
  using assms by (auto simp: apply_event_def)

section \<open>Properties\<close>

definition ex_libs :: stripe_libs where
  "ex_libs = \<lparr>hmac_sha256 = (\<lambda>k m. k @ m), hex_decode = (\<lambda>s. Some s), at_timestamp = (\<lambda>t. Some (secs t)),
     parse_rfc3339 = (\<lambda>_. None), format_ymd = (\<lambda>_. []), status_text = show_nat,
     json_session = (\<lambda>_. Inl []), json_prices = (\<lambda>_. Inl []), json_coupons = (\<lambda>_. Inl []),
     json_subscription = (\<lambda>_. Inl []), json_schedule = (\<lambda>_. Inl []), json_any = (\<lambda>_. Inl []),
     json_setup_intent = (\<lambda>_. Inl []), json_customer = (\<lambda>_. Inl []), json_invoices = (\<lambda>_. Inl []),
     json_error = (\<lambda>_. Inl []),
     json_event = (\<lambda>p. Inr \<lparr>we_id = p, we_event_type = ''price.updated'', we_object = []\<rparr>),
     value_subscription = (\<lambda>_. Inl []), value_invoice = (\<lambda>_. Inl []), value_checkout = (\<lambda>_. Inl [])\<rparr>"

definition ex_client :: "unit stripe_client" where
  "ex_client = with_base (\<lambda>rq s. (Inl ''offline'', s)) ex_libs ''https://api.stripe.com/'' ''sk'' ''k'' ''https://a''"

definition ex_billing :: "unit billing" where
  "ex_billing = \<lparr>bl_auth = ex_trial, bl_catalog = \<lparr>cat_plans = [], cat_promos = [], cat_last_synced_at = None\<rparr>,
     bl_resync = False, bl_stripe = ()\<rparr>"

definition ex_data :: subscription_data where
  "ex_data = \<lparr>sd_tenant_id = Some ''t1'', sd_subscription_id = ''sub'', sd_customer_id = ''cus'', sd_price_id = Some ''p'',
     sd_entitlement = Some entitlement_DEFAULT, sd_status = SubActive, sd_current_period_end = Some 90\<rparr>"

lemma ex_event:
  "gw_construct_event (client_gateway ex_client) (secs 9) ''x'' ''t=5,v1=k5.x'' = Inr \<lparr>ev_id = ''x'', ev_kind = CatalogChanged\<rparr>"
proof -
  have d: "digit_char 5 = CHR ''5''" by code_simp
  then have n: "show_int 5 = ''5''" by (simp add: show_int_def show_nat.simps)
  have "parse_i64 ''5'' = Some 5" by (simp add: parse_i64_def parse_signed_def parse_nat_def digit_val_def)
  then have h: "scan_header ''t=5,v1=k5.x'' = (Some 5, [''k5.x''])"
    by (simp add: scan_header_def scan_part_def split_once_def trim_def trim_start_def is_whitespace_def)
  have "verify_signature ex_libs ''x'' ''t=5,v1=k5.x'' ''k'' 9 = Inr ()"
    unfolding verify_signature_iff h by (simp add: n ex_libs_def SIGNATURE_TOLERANCE_SECS_def)
  moreover have "normalize_event ex_libs \<lparr>we_id = ''x'', we_event_type = ''price.updated'', we_object = []\<rparr> =
      Inr \<lparr>ev_id = ''x'', ev_kind = CatalogChanged\<rparr>"
    by (simp add: normalize_event_def is_catalog_event_def starts_with_def)
  moreover have "sc_lib ex_client = ex_libs" "sc_webhook_secret ex_client = ''k''"
    "json_event ex_libs ''x'' = Inr \<lparr>we_id = ''x'', we_event_type = ''price.updated'', we_object = []\<rparr>"
    by (simp_all add: ex_client_def with_base_def ex_libs_def)
  ultimately show ?thesis by (simp add: client_gateway_def construct_event_def)
qed

lemma ex_accepted:
  "\<exists>b1. handle_webhook (client_gateway ex_client) [] (secs 9) (\<lambda>w. w) ''x'' ''t=5,v1=k5.x'' ex_billing = (Inr (), b1)"
  by (simp add: handle_webhook_def apply_event_def ex_event)

text \<open>C4. The signature is the credential: a webhook that is accepted or changes anything carries a \<open>v1\<close> value that is
  the HMAC, under the endpoint's secret, of the header's own timestamp and the exact payload, and that timestamp is
  within five minutes of the clock.\<close>

theorem webhook_authentic:
  assumes "handle_webhook (client_gateway c) i now race payload sig b = (r, b')" and "r = Inr () \<or> b' \<noteq> b"
  shows "\<exists>t. fst (scan_header sig) = Some t \<and> \<bar>timestamp now - t\<bar> \<le> 300 \<and>
    (\<exists>v \<in> set (snd (scan_header sig)).
      hex_decode (sc_lib c) v = Some (hmac_sha256 (sc_lib c) (sc_webhook_secret c) (show_int t @ ''.'' @ payload)))"
proof -
  obtain ev where "construct_event c now payload sig = Inr ev"
    using assms by (auto simp: handle_webhook_def client_gateway_def split: sum.splits)
  then show ?thesis
    using construct_event_verified verify_signature_iff by (simp add: SIGNATURE_TOLERANCE_SECS_def) blast
qed

theorem webhook_authentic_witness:
  "\<exists>t. fst (scan_header ''t=5,v1=k5.x'') = Some t \<and> \<bar>timestamp (secs 9) - t\<bar> \<le> 300"
  using ex_accepted webhook_authentic by blast

text \<open>C5. At-least-once delivery is safe: once an event was acknowledged, its redelivery is acknowledged and changes
  nothing, whatever billing operations and other tasks ran in between, as long as those tasks leave the ledger row.\<close>

theorem webhook_redelivery:
  assumes "gw_construct_event gw now payload sig = Inr ev"
    and "handle_webhook gw i now race payload sig b = (Inr (), b1)"
    and "list_all (\<lambda>c. keeps (is_event_processed (ev_id ev)) (cmd_race c)) cmds"
    and "gw_construct_event gw now' payload' sig' = Inr ev'" and "ev_id ev' = ev_id ev"
  shows "handle_webhook gw i' now' race' payload' sig' (billing_run gw cmds b1) = (Inr (), billing_run gw cmds b1)"
proof -
  have "apply_event gw i now race \<lparr>ev_id = ev_id ev, ev_kind = ev_kind ev\<rparr> b = (Inr (), b1)"
    using assms(1,2) by (cases ev) (simp add: handle_webhook_def)
  then have "apply_event gw i' now' race' \<lparr>ev_id = ev_id ev', ev_kind = ev_kind ev'\<rparr> (billing_run gw cmds b1) =
      (Inr (), billing_run gw cmds b1)"
    using webhook.redelivery [of gw "(i, now, race, ev_kind ev)" "ev_id ev" b b1 cmds "(i', now', race', ev_kind ev')"] assms(3,5)
    by (simp add: billing_run_def)
  then show ?thesis using assms(4) by (cases ev') (simp add: handle_webhook_def)
qed

theorem webhook_redelivery_witness:
  "\<exists>b1. handle_webhook (client_gateway ex_client) ''i'' (secs 9) (\<lambda>w. w) ''x'' ''t=5,v1=k5.x'' b1 = (Inr (), b1)"
proof -
  obtain b1 where h: "handle_webhook (client_gateway ex_client) [] (secs 9) (\<lambda>w. w) ''x'' ''t=5,v1=k5.x'' ex_billing = (Inr (), b1)"
    using ex_accepted by blast
  show ?thesis using webhook_redelivery [OF ex_event h, of "[]" "secs 9" "''x''" "''t=5,v1=k5.x''"] ex_event
    by (intro exI [of _ b1]) (simp add: billing_run_def)
qed




definition ex_paid :: "unit billing" where
  "ex_paid = ex_billing\<lparr>bl_auth := snd (apply_upsert ''s2'' 5 (\<lambda>w. w) ex_data ex_trial)\<rparr>"

lemma ex_paid_auth:
  "adb (bl_auth ex_paid) = empty_db\<lparr>tenants := [ex_tenant], subscriptions :=
     [\<lparr>s_id = ''s1'', s_tenant_id = ''t1'', s_status = Canceled, s_entitlement = entitlement_DEFAULT,
       s_trial_expires_at = Some (days 14), s_current_period_end = None, s_created_at = 0, s_updated_at = 5\<rparr>,
      \<lparr>s_id = ''s2'', s_tenant_id = ''t1'', s_status = SubActive, s_entitlement = entitlement_DEFAULT,
       s_trial_expires_at = None, s_current_period_end = Some 90, s_created_at = 5, s_updated_at = 5\<rparr>],
     billing_customers := [\<lparr>bc_tenant_id = ''t1'', bc_provider = PROVIDER_STRIPE, bc_customer_id = Some ''cus'',
       bc_subscription_id = Some ''sub'', bc_price_id = Some ''p'', bc_created_at = 5, bc_updated_at = 5\<rparr>]\<rparr>"
  by (simp add: ex_paid_def ex_billing_def ex_trial_def create_trial_def repo_create_trial_def tenant_exists_def ex_defs Let_def
      apply_upsert_def tenant_for_subscription_def or_else_def ex_data_def port_current_def find_current_def live_of_def
      sub_live_def subscription_view_of_def record_ref_def upsert_subscription_def upsert_row_def convert_trial_to_paid_def
      repo_convert_trial_to_paid_def INSERT_SUBSCRIPTION_def cancel_live_def)

lemma ex_paid_facts:
  "db_wf (adb (bl_auth ex_paid))" "tenant_exists ''t1'' (adb (bl_auth ex_paid))"
  "tenant_for_subscription (sd_subscription_id ex_data) (adb (bl_auth ex_paid)) = Some ''t1''"
  "\<not> sql_exists (\<lambda>s. s_id s = ''s3'') (subscriptions (adb (bl_auth ex_paid)))"
  "\<not> is_event_processed e (adb (bl_auth ex_paid))"
  "sd_status ex_data = SubActive" "sd_entitlement ex_data = Some entitlement_DEFAULT"
  by (simp_all add: ex_paid_auth ex_tenant_def empty_db_def tenant_exists_def tenant_for_subscription_def ex_data_def
      is_event_processed_def db_wf_defs unique_where_def sub_live_def tenant_live_def references_def)


text \<open>C37. An update of a paid license decides from a read made before it writes. If the reaper cancels the license in between,
  the event updates no row, is acknowledged and recorded as processed, and the paying tenant has no license; a
  redelivery does not repair it.\<close>

theorem paid_update_lost:
  assumes "or_else (tenant_for_subscription (sd_subscription_id data) (adb (bl_auth b))) (sd_tenant_id data) = Some x"
    and "sd_status data \<noteq> Canceled" and "paid (port_current x (bl_auth b))"
    and "tenant_exists x (adb (bl_auth b))" and "\<not> is_event_processed e (adb (bl_auth b))"
    and "apply_event gw i now (cancel t x) \<lparr>ev_id = e, ev_kind = SubscriptionUpsert data\<rparr> b = (r, b')"
  shows "r = Inr () \<and> find_current x (adb (bl_auth b')) = None \<and>
    apply_event gw i' now' race' \<lparr>ev_id = e, ev_kind = SubscriptionUpsert data\<rparr> b' = (Inr (), b')"
proof -
  obtain ent where g: "granted data (port_current x (bl_auth b)) = Some ent"
    using assms(3) by (auto simp: paid_def granted_def split: option.splits)
  have "tenant_exists x (adb (cancel t x (bl_auth b)))" using assms(4) by (simp add: tenant_exists_iff)
  then obtain w1 where w1: "record_ref now x data (cancel t x (bl_auth b)) = (Inr (), w1)"
    and s: "subscriptions (adb w1) = subscriptions (adb (cancel t x (bl_auth b)))"
    by (rule record_ref_ok)
  let ?w = "snd (update_paid now x (sd_status data) ent (sd_current_period_end data) w1)"
  have "apply_upsert i now (cancel t x) data (bl_auth b) = (Inr (), ?w)"
    using apply_upsert_granted [OF assms(1,2), of i now "cancel t x"] g assms(3) w1 by simp
  then have b': "r = Inr ()" "bl_auth b' = ?w\<lparr>adb := record_event e now (adb ?w)\<rparr>"
    using assms(5,6) by (auto simp: apply_event_def lift_auth_def)
  have "find_current x (adb w1) = None" by (simp add: find_current_cong [OF s] cancel_adb cancel_current_find)
  then have "find_current x (adb (bl_auth b')) = None"
    using assms(2) by (simp add: b'(2) find_current_cong [OF record_event_frame(1)] update_paid_find)
  moreover have "is_event_processed e (adb (bl_auth b'))" using apply_event_records assms(6) b'(1) by fastforce
  ultimately show ?thesis using b'(1) by (simp add: apply_event_def)
qed

theorem paid_update_lost_witness:
  "\<exists>b'. find_current ''t1'' (adb (bl_auth (b' :: unit billing))) = None \<and>
    apply_event (client_gateway ex_client) ''s3'' 11 (\<lambda>w. w) \<lparr>ev_id = ''e'', ev_kind = SubscriptionUpsert ex_data\<rparr> b' = (Inr (), b')"
proof -
  have p: "paid (port_current ''t1'' (bl_auth ex_paid))"
    by (simp add: paid_def port_current_def find_current_def ex_paid_auth live_of_def sub_live_def subscription_view_of_def)
  have k: "or_else (tenant_for_subscription (sd_subscription_id ex_data) (adb (bl_auth ex_paid))) (sd_tenant_id ex_data) =
      Some ''t1''" by (simp add: or_else_def ex_paid_facts)
  have n: "sd_status ex_data \<noteq> Canceled" by (simp add: ex_data_def)
  obtain r b' where a: "apply_event (client_gateway ex_client) ''s3'' 10 (cancel 9 ''t1'')
      \<lparr>ev_id = ''e'', ev_kind = SubscriptionUpsert ex_data\<rparr> ex_paid = (r, b')" by fastforce
  show ?thesis using paid_update_lost [OF k n p ex_paid_facts(2,5) a] by blast
qed

end
