(* ===== verification/Catalog_Props.thy ===== *)
theory Catalog_Props
  imports Billing_Props
begin

text \<open>
  The plan catalog and the plan change. The first theorem is the equivalence of the floating-point
  discount with exact rounding of the percentage; then the bounds of a promotion's price, the catalog a
  sync leaves as the exact image of the provider's list, and what a plan change answers. A plan change
  touches the provider only: the entitlement moves when the provider's event arrives.
\<close>

section \<open>Discounts\<close>

lemma binade_half: "0 < x \<Longrightarrow> binade (x / 2) = binade x - 1"
proof (rule binade_unique)
  assume x: "0 < x"
  have "(2::rat) powi binade x = 2 powi (binade x - 1) * 2" "(2::rat) powi (binade x + 1) = 2 powi binade x * 2"
    by (simp_all add: power_int_diff power_int_add)
  then show "2 powi (binade x - 1) \<le> x / 2" "x / 2 < 2 powi (binade x - 1 + 1)" using binade_bounds [OF x] by simp_all
qed simp

lemma f64_round_half: "0 \<le> x \<Longrightarrow> f64_round (x / 2) = f64_round x / 2"
proof (cases "x = 0")
  case False
  assume "0 \<le> x"
  then have x: "0 < x" using False by simp
  let ?u = "(2::rat) powi (binade x - 52)"
  have e: "binade x - 1 - 52 = binade x - 52 - 1" by simp
  have u: "(2::rat) powi (binade (x / 2) - 52) = ?u / 2"
    unfolding binade_half [OF x] e by (subst power_int_diff) simp_all
  have "f64_round (x / 2) = of_int (round_even (x / 2 / (?u / 2))) * (?u / 2)"
    using x unfolding u [symmetric] by (simp add: f64_round_def Let_def)
  moreover have "x / 2 / (?u / 2) = x / ?u" by simp
  ultimately show ?thesis using x by (simp add: f64_round_def Let_def)
qed (simp add: f64_round_def)

lemma f64_round_half_int: "0 \<le> m \<Longrightarrow> m \<le> 2 ^ 53 \<Longrightarrow> f64_round (of_int m / 2) = of_int m / 2"
  using f64_round_half [of "of_int m"] f64_round_of_int [of m] by simp

lemma f64_round_error:
  assumes "0 < x"
  shows "f64_round x \<le> x + 2 powi (binade x - 52) / 2"
proof -
  let ?u = "(2::rat) powi (binade x - 52)"
  have "of_int (round_even (x / ?u)) * ?u \<le> (x / ?u + 1 / 2) * ?u"
    by (intro mult_right_mono round_even_bounds) simp
  also have "\<dots> = x + ?u / 2" by (simp add: field_simps)
  finally show ?thesis using assms by (simp add: f64_round_def Let_def)
qed

lemma ulp_small:
  assumes "0 < x" and "x < 2 ^ 46"
  shows "(2::rat) powi (binade x - 52) / 2 < 1 / 100"
proof -
  have "(2::rat) powi binade x < 2 powi 46" using binade_bounds(1) [OF assms(1)] assms(2) by (simp add: power_int_def)
  then have "binade x < 46" by (simp only: powi_less_iff)
  then have "(2::rat) powi (binade x - 52) \<le> 2 powi (- 7)" by (simp only: powi_le_iff)
  also have "(2::rat) powi (- 7) = 1 / 128" by (simp add: power_int_minus)
  finally show ?thesis by simp
qed

lemma hundredth_rounds:
  assumes "0 \<le> n" and "n \<le> 2 ^ 52"
  shows "f64_round_away (f64_round (of_int n / 100)) = (2 * n + 100) div 200"
proof -
  let ?x = "of_int n / 100 :: rat" and ?k = "(2 * n + 100) div 200"
  have k: "200 * ?k \<le> 2 * n + 100" "2 * n + 100 < 200 * ?k + 200" by auto
  then have lo: "100 * ?k - 50 \<le> n" and hi: "n + 1 \<le> 100 * ?k + 50" by linarith+
  have k0: "0 \<le> ?k" using assms(1) by (intro pos_imp_zdiv_nonneg_iff [THEN iffD2]) auto
  have kb: "2 * ?k + 1 \<le> 2 ^ 53" using k(1) assms(2) by simp
  have x0: "0 \<le> ?x" using assms(1) by simp
  have y0: "0 \<le> f64_round ?x" by (rule f64_round_nonneg [OF x0])
  have "of_int ?k - 1 / 2 \<le> f64_round ?x"
  proof (cases "?k = 0")
    case False
    then have p: "0 \<le> 2 * ?k - 1" "2 * ?k - 1 \<le> 2 ^ 53" using k0 kb by linarith+
    have "(of_int (100 * ?k - 50) :: rat) \<le> of_int n" using lo by (simp only: of_int_le_iff)
    then have "of_int (2 * ?k - 1) / 2 \<le> ?x" by simp
    then have "f64_round (of_int (2 * ?k - 1) / 2) \<le> f64_round ?x" using p(1) by (intro f64_round_mono) simp_all
    then show ?thesis unfolding f64_round_half_int [OF p] by simp
  qed (use y0 in simp)
  moreover have "f64_round ?x < of_int ?k + 1 / 2"
  proof (cases "n = 0")
    case False
    then have x: "0 < ?x" using assms(1) by simp
    have "?x < 2 ^ 46" using assms(2) by simp
    then have "(2::rat) powi (binade ?x - 52) / 2 < 1 / 100" by (rule ulp_small [OF x])
    moreover have "(of_int (n + 1) :: rat) \<le> of_int (100 * ?k + 50)" using hi by (simp only: of_int_le_iff)
    then have "?x + 1 / 100 \<le> of_int ?k + 1 / 2" by simp
    ultimately show ?thesis using f64_round_error [OF x] by linarith
  qed (use k0 in \<open>simp add: f64_round_def\<close>)
  ultimately have "\<lfloor>f64_round ?x + 1 / 2\<rfloor> = ?k" by linarith
  then show ?thesis using y0 by (simp add: f64_round_away_def)
qed

lemma percent_of_bounds:
  assumes "0 \<le> a" and "a * 100 \<le> 2 ^ 53" and "0 \<le> pct" and "pct \<le> 100"
  shows "0 \<le> percent_of a pct" and "percent_of a pct \<le> a"
proof -
  have a: "f64_of_int a = of_int a" unfolding f64_of_int_def using assms(1,2) by (intro f64_round_of_int) auto
  have m0: "0 \<le> of_int a * pct" using assms(1,3) by simp
  have "of_int a * pct \<le> of_int a * 100" using assms(1,4) by (intro mult_left_mono) simp_all
  then have m: "f64_mul (f64_of_int a) pct \<le> of_int (a * 100)"
    unfolding f64_mul_def a by (intro f64_round_le_int m0 assms(2)) simp
  have z0: "0 \<le> f64_mul (f64_of_int a) pct" unfolding f64_mul_def a by (rule f64_round_nonneg [OF m0])
  let ?y = "f64_div (f64_mul (f64_of_int a) pct) 100"
  have y0: "0 \<le> ?y" unfolding f64_div_def using z0 by (intro f64_round_nonneg) simp
  have y: "?y \<le> of_int a" unfolding f64_div_def using z0 m assms(1,2) by (intro f64_round_le_int) simp_all
  have "f64_round_away ?y = \<lfloor>?y + 1 / 2\<rfloor>" using y0 by (simp add: f64_round_away_def)
  then have "0 \<le> f64_round_away ?y" "f64_round_away ?y \<le> a" using y0 y by linarith+
  moreover have "a \<le> 2 ^ 63 - 1" using assms(1,2) by simp
  ultimately show "0 \<le> percent_of a pct" "percent_of a pct \<le> a" by (simp_all add: percent_of_def as_i64_def)
qed

lemma wrap_i64_id: "- (2 ^ 63) \<le> x \<Longrightarrow> x < 2 ^ 63 \<Longrightarrow> wrap_i64 x = x"
  by (simp add: wrap_i64_def)

definition sane_price :: "catalog_plan \<Rightarrow> bool" where
  "sane_price p = (0 \<le> cp_amount_cents p \<and> cp_amount_cents p * 100 \<le> 2 ^ 53)"

definition sane_promo :: "catalog_promo \<Rightarrow> bool" where
  "sane_promo c =
     ((case co_percent_off c of None \<Rightarrow> True | Some pct \<Rightarrow> 0 \<le> pct \<and> pct \<le> 100) \<and>
      (case co_amount_off c of None \<Rightarrow> True | Some off \<Rightarrow> 0 \<le> off \<and> off < 2 ^ 63))"

lemma discounted_bounds:
  assumes "sane_price p" and "sane_promo c"
  shows "0 \<le> discounted_amount (cp_amount_cents p) cur c" and "discounted_amount (cp_amount_cents p) cur c \<le> cp_amount_cents p"
proof -
  let ?a = "cp_amount_cents p"
  have a: "0 \<le> ?a" "?a * 100 \<le> 2 ^ 53" using assms(1) by (simp_all add: sane_price_def)
  have w: "max (wrap_i64 (?a - off)) 0 \<in> {0..?a}" if "0 \<le> off" "off < 2 ^ 63" for off
    using that a wrap_i64_id [of "?a - off"] by auto
  have "percent_of ?a pct < 2 ^ 63" if "0 \<le> pct" "pct \<le> 100" for pct using percent_of_bounds(2) [OF a that] a by simp
  then show "0 \<le> discounted_amount ?a cur c" "discounted_amount ?a cur c \<le> ?a"
    using assms(2) a w percent_of_bounds(1) [OF a]
    by (auto simp: discounted_amount_def sane_promo_def split: option.splits)
qed

lemma min_by_key_None: "min_by_key f xs = None \<longleftrightarrow> xs = []"
  by (cases xs) (auto split: option.splits)

lemma min_by_key_spec:
  "min_by_key f xs = Some m \<Longrightarrow> m \<in> set xs \<and> (\<forall>x \<in> set xs. f m \<le> f x)"
proof (induction xs arbitrary: m)
  case (Cons a xs)
  then show ?case
  proof (cases "min_by_key f xs")
    case None
    then have "xs = []" by (simp add: min_by_key_None)
    then show ?thesis using Cons.prems by simp
  next
    case (Some k)
    then show ?thesis using Cons.IH [OF Some] Cons.prems by (auto split: if_splits)
  qed
qed simp

section \<open>The projection\<close>

lemma insert_plans_Inr: "insert_plans ps t = Inr t' \<Longrightarrow> t' = t @ ps"
  by (induction ps arbitrary: t) (fastforce split: if_splits)+

lemma replace_catalog_Inr:
  "replace_catalog ps cs now cat = (Inr (), cat') \<Longrightarrow> cat_plans cat' = ps \<and> cat_last_synced_at cat' = Some now"
  by (auto simp: replace_catalog_def split: sum.splits dest: insert_plans_Inr)

lemma count_distinct: "(\<And>x. length (filter (\<lambda>q. f q = x) ys) \<le> 1) \<Longrightarrow> distinct (map f ys)"
proof (induction ys)
  case (Cons y ys)
  have "length (filter (\<lambda>q. f q = x) ys) \<le> 1" for x using Cons.prems [of x] by (auto split: if_splits)
  moreover have "f y \<notin> f ` set ys" using Cons.prems [of "f y"] by (auto simp: filter_empty_conv)
  ultimately show ?case using Cons.IH by simp
qed simp

lemma count_filter_le: "length (filter p (filter q xs)) \<le> length (filter p xs)"
  by (induction xs) auto

lemma unique_levels_distinct:
  "distinct (map f (filter (\<lambda>p. length (filter (\<lambda>q. f q = f p) xs) = 1) xs))" (is "distinct (map f ?ys)")
proof (rule count_distinct)
  fix x
  show "length (filter (\<lambda>q. f q = x) ?ys) \<le> 1"
  proof (cases "x \<in> f ` set ?ys")
    case True
    then have "length (filter (\<lambda>q. f q = x) xs) = 1" by auto
    then show ?thesis using count_filter_le [of "\<lambda>q. f q = x" _ xs] by (metis (no_types))
  next
    case False
    then have "filter (\<lambda>q. f q = x) ?ys = []" by (auto simp: filter_empty_conv)
    then show ?thesis by simp
  qed
qed

definition plan_of :: "plan_data \<Rightarrow> catalog_plan option" where
  "plan_of p =
     (case (pd_level p, pd_entitlement p) of
        (Some level, Some ent) \<Rightarrow>
          Some \<lparr>cp_price_id = pd_price_id p, cp_product_id = pd_product_id p, cp_name = pd_name p,
                cp_level = level, cp_entitlement = ent, cp_amount_cents = pd_amount_cents p,
                cp_currency = pd_currency p, cp_interval = pd_interval p\<rparr>
      | _ \<Rightarrow> None)"

lemma validate_plans_eq:
  "validate_plans raw = (let ps = List.map_filter plan_of raw in
     filter (\<lambda>p. length (filter (\<lambda>q. cp_level q = cp_level p) ps) = 1) ps)"
  unfolding validate_plans_def plan_of_def [abs_def] ..

lemma mem_map_filter: "y \<in> set (List.map_filter f xs) \<longleftrightarrow> (\<exists>x \<in> set xs. f x = Some y)"
  by (induction xs) (auto simp: map_filter_simps split: option.splits)

lemma plan_of_Some:
  "plan_of p = Some q \<longleftrightarrow> (\<exists>l e. pd_level p = Some l \<and> pd_entitlement p = Some e \<and>
    q = \<lparr>cp_price_id = pd_price_id p, cp_product_id = pd_product_id p, cp_name = pd_name p,
      cp_level = l, cp_entitlement = e, cp_amount_cents = pd_amount_cents p,
      cp_currency = pd_currency p, cp_interval = pd_interval p\<rparr>)"
  by (auto simp: plan_of_def split: option.splits)

lemma level_count:
  "length (filter (\<lambda>q. cp_level q = l) (List.map_filter plan_of raw)) =
    length (filter (\<lambda>p. pd_level p = Some l \<and> pd_entitlement p \<noteq> None) raw)"
  by (induction raw) (auto simp: map_filter_simps plan_of_def split: option.splits)

lemma sort_key_strict:
  fixes f :: "'a \<Rightarrow> nat"
  assumes "distinct (map f xs)"
  shows "sorted_wrt (<) (map f (sort_key f xs))"
  using assms by (simp add: strict_sorted_iff distinct_map)

lemma plans_levels: "distinct (map (\<lambda>p. unat (cp_level p)) (validate_plans raw))"
proof -
  have "distinct (map cp_level (validate_plans raw))"
    unfolding validate_plans_eq Let_def by (rule unique_levels_distinct)
  then have "distinct (map unat (map cp_level (validate_plans raw)))" by (subst distinct_map) (simp add: inj_on_def word_unat_eq_iff)
  then show ?thesis by (simp add: comp_def)
qed

lemma sync_catalog_Inr:
  assumes "sync_catalog gw now b = (Inr (), b')" and "gw_list_plans gw (bl_stripe b) = (Inr raw, s)"
  shows "cat_plans (bl_catalog b') = validate_plans raw \<and> cat_last_synced_at (bl_catalog b') = Some now"
proof -
  obtain r2 b2 where l: "call_stripe (gw_list_promotions gw) (b\<lparr>bl_stripe := s\<rparr>) = (r2, b2)" by fastforce
  have p: "call_stripe (gw_list_plans gw) b = (Inr raw, b\<lparr>bl_stripe := s\<rparr>)" using assms(2) by (simp add: call_stripe_def)
  obtain promos where "r2 = Inr promos" using assms(1) p l by (cases r2) (auto simp: sync_catalog_def)
  then have "\<exists>cat. replace_catalog (validate_plans raw) (validate_promos promos) now (bl_catalog b2) = (Inr (), cat) \<and>
      bl_catalog b' = cat"
    using assms(1) p l by (auto simp: sync_catalog_def split: prod.splits)
  then show ?thesis using replace_catalog_Inr by metis
qed

section \<open>Properties\<close>

definition ex_details :: subscription_details where
  "ex_details = \<lparr>dt_item_id = ''it'', dt_price_id = ''home'', dt_current_period_end = secs 90, dt_schedule_id = None,
     dt_trialing = False\<rparr>"

definition ex_raw :: "plan_data list" where
  "ex_raw = [\<lparr>pd_price_id = ''pro'', pd_product_id = ''x'', pd_name = [], pd_level = Some 2, pd_entitlement = Some entitlement_DEFAULT,
       pd_amount_cents = 900, pd_currency = ''usd'', pd_interval = ''month'', pd_active = True\<rparr>,
     \<lparr>pd_price_id = ''home'', pd_product_id = ''y'', pd_name = [], pd_level = Some 1, pd_entitlement = Some entitlement_DEFAULT,
       pd_amount_cents = 500, pd_currency = ''usd'', pd_interval = ''month'', pd_active = True\<rparr>]"

definition ex_gateway :: "unit stripe_gateway" where
  "ex_gateway = \<lparr>gw_create_checkout_session = (\<lambda>_ _ _ _ _ _ s. (Inl CouponRejected, s)),
     gw_create_setup_checkout_session = (\<lambda>_ _ s. (Inr ''u'', s)), gw_list_plans = (\<lambda>s. (Inr ex_raw, s)),
     gw_list_promotions = (\<lambda>s. (Inr [], s)), gw_get_subscription = (\<lambda>_ s. (Inr ex_details, s)),
     gw_pending_scheduled_change = (\<lambda>_ _ s. (Inr None, s)), gw_upgrade_subscription = (\<lambda>_ _ _ _ _ s. (Inr (), s)),
     gw_schedule_downgrade = (\<lambda>_ _ _ t s. (Inr t, s)), gw_release_schedule = (\<lambda>_ s. (Inr (), s)),
     gw_set_default_payment_method_from_setup = (\<lambda>_ _ _ s. (Inr (), s)), gw_construct_event = (\<lambda>_ _ _. Inl []),
     gw_default_payment_method = (\<lambda>_ s. (Inr None, s)), gw_list_invoices = (\<lambda>_ s. (Inr [], s))\<rparr>"

definition ex_home :: catalog_plan where
  "ex_home = \<lparr>cp_price_id = ''home'', cp_product_id = ''y'', cp_name = [], cp_level = 1, cp_entitlement = entitlement_DEFAULT,
     cp_amount_cents = 500, cp_currency = ''usd'', cp_interval = ''month''\<rparr>"

definition ex_pro :: catalog_plan where
  "ex_pro = ex_home\<lparr>cp_price_id := ''pro'', cp_product_id := ''x'', cp_level := 2, cp_amount_cents := 900\<rparr>"

definition ex_promo :: catalog_promo where
  "ex_promo = \<lparr>co_coupon_id = ''c'', co_name = ''spring'', co_percent_off = None, co_amount_off = Some 100,
     co_currency = Some ''usd'', co_applies_to_products = [], co_start = None, co_redeem_by = Some 50\<rparr>"

definition ex_synced :: "unit billing" where
  "ex_synced = \<lparr>bl_auth = start (empty_db\<lparr>tenants := [ex_tenant], billing_customers := [\<lparr>bc_tenant_id = ''t1'',
       bc_provider = PROVIDER_STRIPE, bc_customer_id = Some ''cus'', bc_subscription_id = Some ''sub'',
       bc_price_id = Some ''home'', bc_created_at = 0, bc_updated_at = 0\<rparr>]\<rparr>),
     bl_catalog = \<lparr>cat_plans = [ex_home, ex_pro], cat_promos = [ex_promo], cat_last_synced_at = Some 0\<rparr>,
     bl_resync = False, bl_stripe = ()\<rparr>"





text \<open>C27. After a successful sync the catalog is the exact image of the provider's price list until it goes stale: the plans
  served are in strictly ascending level and are exactly the listed prices with a readable entitlement and a level no other
  well-formed price has; past the staleness bound nothing is served.\<close>

theorem catalog_mirror:
  assumes "sync_catalog gw now b = (Inr (), b')" and "gw_list_plans gw (bl_stripe b) = (Inr raw, s)"
  shows "if t - now \<le> secs stale
    then \<exists>vs. plans stale t b' = Inr vs \<and> sorted_wrt (<) (map (\<lambda>v. unat (pl_level v)) vs) \<and>
      (\<lambda>v. (pl_price_id v, pl_level v, pl_entitlement v, pl_amount_cents v)) ` set vs =
      {(pd_price_id p, l, e, pd_amount_cents p) | p l e. p \<in> set raw \<and> pd_level p = Some l \<and> pd_entitlement p = Some e \<and>
        length (filter (\<lambda>q. pd_level q = Some l \<and> pd_entitlement q \<noteq> None) raw) = 1}
    else plans stale t b' = Inl Stale"
proof -
  have cat: "cat_plans (bl_catalog b') = validate_plans raw" "cat_last_synced_at (bl_catalog b') = Some now"
    using sync_catalog_Inr [OF assms] by auto
  let ?vs = "map (plan_view_of (cat_promos (bl_catalog b')) t) (sort_key (\<lambda>p. unat (cp_level p)) (validate_plans raw))"
  have lv: "map (\<lambda>v. unat (pl_level v)) ?vs = map (\<lambda>p. unat (cp_level p)) (sort_key (\<lambda>p. unat (cp_level p)) (validate_plans raw))"
    by (simp add: plan_view_of_def)
  have sorted: "sorted_wrt (<) (map (\<lambda>v. unat (pl_level v)) ?vs)"
    unfolding lv by (rule sort_key_strict [OF plans_levels])
  have "(\<lambda>v. (pl_price_id v, pl_level v, pl_entitlement v, pl_amount_cents v)) ` set ?vs =
      (\<lambda>p. (cp_price_id p, cp_level p, cp_entitlement p, cp_amount_cents p)) ` set (validate_plans raw)"
    by (simp add: image_image plan_view_of_def)
  also have "\<dots> = {(pd_price_id p, l, e, pd_amount_cents p) | p l e. p \<in> set raw \<and> pd_level p = Some l \<and>
      pd_entitlement p = Some e \<and> length (filter (\<lambda>q. pd_level q = Some l \<and> pd_entitlement q \<noteq> None) raw) = 1}"
    unfolding validate_plans_eq Let_def level_count
    by (force simp: mem_map_filter plan_of_Some image_iff)
  finally show ?thesis using cat sorted by (auto simp: plans_def read_catalog_def Let_def)
qed

theorem catalog_mirror_witness:
  "\<exists>vs. plans 60 (secs 30) (snd (sync_catalog ex_gateway 0 ex_synced)) = Inr vs \<and> sorted_wrt (<) (map (\<lambda>v. unat (pl_level v)) vs)"
proof -
  obtain b' where s: "sync_catalog ex_gateway 0 ex_synced = (Inr (), b')"
    by (simp add: sync_catalog_def call_stripe_def ex_gateway_def replace_catalog_def validate_plans_def validate_promos_def
        ex_raw_def map_filter_simps Let_def fits_i32_def entitlement_DEFAULT_def)
  moreover have "gw_list_plans ex_gateway (bl_stripe ex_synced) = (Inr ex_raw, ())" by (simp add: ex_gateway_def)
  ultimately show ?thesis using catalog_mirror [of ex_gateway 0 ex_synced b' ex_raw "()" "secs 30" 60] by (auto simp: secs_def)
qed

text \<open>C30. A plan change only talks to the provider: licenses, references, catalog and ledger are untouched, also when it fails.
  When it answers, the answer tells what the provider was asked for: an upgrade for a plan of higher level, a scheduled
  downgrade for a lower one, a cancelled downgrade for the current one with a schedule attached.\<close>

theorem change_plan_effect:
  assumes "change_plan gw now x p acc b = (r, b')"
  shows "provider_only b b' \<and>
    (\<forall>resp. r = Inr resp \<longrightarrow>
      (\<exists>sid details target cur.
        Option.bind (get_billing_ref x (adb (bl_auth b))) br_subscription_id = Some sid \<and>
        fst (gw_get_subscription gw sid (bl_stripe b)) = Inr details \<and>
        find_plan p (read_catalog (bl_catalog b)) = Some target \<and>
        find_plan (dt_price_id details) (read_catalog (bl_catalog b)) = Some cur \<and>
        (case cr_effect resp of
           Upgraded \<Rightarrow> cp_level cur < cp_level target \<and> cr_current_price_id resp = Some p
         | DowngradeScheduled \<Rightarrow> cp_level target < cp_level cur \<and> cr_current_price_id resp = Some (dt_price_id details)
         | DowngradeCanceled \<Rightarrow> cp_level target = cp_level cur \<and> dt_schedule_id details \<noteq> None)))"
proof (intro conjI allI impI)
  show "provider_only b b'" using change_plan_provider_only [of b gw now x p acc] assms by simp
next
  fix resp
  assume r: "r = Inr resp"
  show "\<exists>sid details target cur.
        Option.bind (get_billing_ref x (adb (bl_auth b))) br_subscription_id = Some sid \<and>
        fst (gw_get_subscription gw sid (bl_stripe b)) = Inr details \<and>
        find_plan p (read_catalog (bl_catalog b)) = Some target \<and>
        find_plan (dt_price_id details) (read_catalog (bl_catalog b)) = Some cur \<and>
        (case cr_effect resp of
           Upgraded \<Rightarrow> cp_level cur < cp_level target \<and> cr_current_price_id resp = Some p
         | DowngradeScheduled \<Rightarrow> cp_level target < cp_level cur \<and> cr_current_price_id resp = Some (dt_price_id details)
         | DowngradeCanceled \<Rightarrow> cp_level target = cp_level cur \<and> dt_schedule_id details \<noteq> None)"
  proof (cases rule: change_plan_cases [where gw = gw and now = now and x = x and p = p and acc = acc and b = b])
    case (acted sid details target cur b1 prior b2)
    have "fst (gw_get_subscription gw sid (bl_stripe b)) = Inr details"
      using acted(3) by (simp add: call_stripe_def split: prod.splits)
    moreover have "case cr_effect resp of
           Upgraded \<Rightarrow> cp_level cur < cp_level target \<and> cr_current_price_id resp = Some p
         | DowngradeScheduled \<Rightarrow> cp_level target < cp_level cur \<and> cr_current_price_id resp = Some (dt_price_id details)
         | DowngradeCanceled \<Rightarrow> cp_level target = cp_level cur \<and> dt_schedule_id details \<noteq> None"
      using acted(6) assms r by (auto simp: act_on_plan_def Let_def split: if_splits prod.splits sum.splits)
    ultimately show ?thesis using acted(1,2,4) by blast
  qed (use assms r in simp_all)
qed

theorem change_plan_effect_witness:
  "provider_only ex_synced (snd (change_plan ex_gateway 9 ''t1'' ''pro'' True ex_synced)) \<and> cp_level ex_home < cp_level ex_pro"
proof -
  have c: "change_plan ex_gateway 9 ''t1'' ''pro'' True ex_synced =
      (Inr \<lparr>cr_effect = Upgraded, cr_effective_at = None, cr_current_price_id = Some ''pro''\<rparr>, ex_synced)"
    by (simp add: change_plan_def get_billing_ref_def stripe_row_def ex_synced_def start_def read_catalog_def find_plan_def
        ex_home_def ex_pro_def call_stripe_def ex_gateway_def ex_details_def release_pending_def act_on_plan_def Let_def)
  have f: "find_plan ''pro'' (read_catalog (bl_catalog ex_synced)) = Some ex_pro"
    "find_plan ''home'' (read_catalog (bl_catalog ex_synced)) = Some ex_home"
    by (simp_all add: find_plan_def read_catalog_def ex_synced_def ex_home_def ex_pro_def)
  have g: "fst (gw_get_subscription ex_gateway sid (bl_stripe ex_synced)) = Inr ex_details" for sid by (simp add: ex_gateway_def)
  show ?thesis using change_plan_effect [OF c] f g by (auto simp: ex_details_def c)
qed

end
