(* ===== verification/Billing_Api.thy ===== *)
theory Billing_Api
  imports Webhooks Catalog_Props Tenants_Api
begin

text \<open>
  The billing endpoints (\<open>tenants/src/api/billing.rs\<close>, \<open>plans.rs\<close> and the billing routes of \<open>tenants.rs\<close>): the
  webhook, whose signature is its only credential, the public catalog, and the account routes guarded by
  \<open>require_owner\<close>. A lapsed promotion is answered with its own 409 body. The theorem shows that an account request
  changes nothing in the authority but the caller's own customer reference.
\<close>

section \<open>Replies\<close>

datatype 'a billing_reply =
    Reply nat 'a
  | PromoUnavailableBody nat string int string
  | ErrorReply api_error

fun billing_err_response :: "billing_error \<Rightarrow> 'a billing_reply" where
  "billing_err_response (PromoUnavailable cents currency) = PromoUnavailableBody 409 ''promo_unavailable'' cents currency"
| "billing_err_response other = ErrorReply (billing_api_error other)"

definition from_billing :: "billing_error + 'a \<Rightarrow> api_error + 'a" where
  "from_billing r = (case r of Inl e \<Rightarrow> Inl (billing_api_error e) | Inr x \<Rightarrow> Inr x)"

section \<open>Handlers\<close>

definition stripe_webhook ::
  "'s stripe_gateway \<Rightarrow> string \<Rightarrow> instant \<Rightarrow> (authority \<Rightarrow> authority) \<Rightarrow> string option \<Rightarrow> string \<Rightarrow> 's billing
    \<Rightarrow> (api_error + nat) \<times> 's billing" where
  "stripe_webhook gw i now race sig_header body b =
     (case sig_header of
        None \<Rightarrow> (Inl (BadRequest ''missing Stripe-Signature header''), b)
      | Some signature \<Rightarrow>
          (case handle_webhook gw i now race body signature b of
             (Inl e, b) \<Rightarrow> (Inl (billing_api_error e), b)
           | (Inr _, b) \<Rightarrow> (Inr 200, b)))"

definition api_list_plans :: "int \<Rightarrow> instant \<Rightarrow> 's billing \<Rightarrow> api_error + plan_view list" where
  "api_list_plans catalog_stale_secs now b = from_billing (plans catalog_stale_secs now b)"

definition api_create_checkout_session ::
  "'s stripe_gateway \<Rightarrow> instant \<Rightarrow> caller \<Rightarrow> string \<Rightarrow> string \<Rightarrow> bool \<Rightarrow> 's billing
    \<Rightarrow> (api_error + string billing_reply) \<times> 's billing" where
  "api_create_checkout_session gw now caller x price_id accept_full_price b =
     (case require_owner caller x of
        Inl e \<Rightarrow> (Inl e, b)
      | Inr _ \<Rightarrow>
          (case find_tenant x (bl_auth b) of
             None \<Rightarrow> (Inl (NotFound ''no such tenant''), b)
           | Some t \<Rightarrow>
               (case start_checkout gw now x (t_email t) price_id accept_full_price b of
                  (Inr url, b) \<Rightarrow> (Inr (Reply 200 url), b)
                | (Inl e, b) \<Rightarrow> (Inr (billing_err_response e), b))))"

definition api_change_plan ::
  "'s stripe_gateway \<Rightarrow> instant \<Rightarrow> caller \<Rightarrow> string \<Rightarrow> string \<Rightarrow> bool \<Rightarrow> 's billing
    \<Rightarrow> (api_error + change_plan_response billing_reply) \<times> 's billing" where
  "api_change_plan gw now caller x price_id accept_full_price b =
     (case require_owner caller x of
        Inl e \<Rightarrow> (Inl e, b)
      | Inr _ \<Rightarrow>
          (case change_plan gw now x price_id accept_full_price b of
             (Inr resp, b) \<Rightarrow> (Inr (Reply 202 resp), b)
           | (Inl e, b) \<Rightarrow> (Inr (billing_err_response e), b)))"

definition owned :: "caller \<Rightarrow> string \<Rightarrow> ('s billing \<Rightarrow> (billing_error + 'a) \<times> 's billing) \<Rightarrow> 's billing \<Rightarrow> (api_error + 'a) \<times> 's billing" where
  "owned caller x f b =
     (case require_owner caller x of
        Inl e \<Rightarrow> (Inl e, b)
      | Inr _ \<Rightarrow> (case f b of (r, b) \<Rightarrow> (from_billing r, b)))"

definition api_start_card_update :: "'s stripe_gateway \<Rightarrow> caller \<Rightarrow> string \<Rightarrow> 's billing \<Rightarrow> (api_error + string) \<times> 's billing" where
  "api_start_card_update gw caller x = owned caller x (start_card_update gw x)"

definition api_get_billing_subscription ::
  "'s stripe_gateway \<Rightarrow> caller \<Rightarrow> string \<Rightarrow> 's billing \<Rightarrow> (api_error + billing_subscription_view) \<times> 's billing" where
  "api_get_billing_subscription gw caller x = owned caller x (billing_subscription gw x)"

definition api_get_payment_method ::
  "'s stripe_gateway \<Rightarrow> caller \<Rightarrow> string \<Rightarrow> 's billing \<Rightarrow> (api_error + payment_method_view option) \<times> 's billing" where
  "api_get_payment_method gw caller x = owned caller x (payment_method gw x)"

definition api_list_invoices ::
  "'s stripe_gateway \<Rightarrow> caller \<Rightarrow> string \<Rightarrow> 's billing \<Rightarrow> (api_error + invoice_view list) \<times> 's billing" where
  "api_list_invoices gw caller x = owned caller x (invoices gw x)"

datatype billing_request =
    CheckoutRequest string string bool
  | ChangePlanRequest string string bool
  | CardUpdateRequest string
  | SubscriptionRequest string
  | PaymentMethodRequest string
  | InvoicesRequest string

fun billing_api :: "'s stripe_gateway \<Rightarrow> instant \<Rightarrow> caller \<Rightarrow> billing_request \<Rightarrow> 's billing \<Rightarrow> 's billing" where
  "billing_api gw now caller (CheckoutRequest x p acc) b = snd (api_create_checkout_session gw now caller x p acc b)"
| "billing_api gw now caller (ChangePlanRequest x p acc) b = snd (api_change_plan gw now caller x p acc b)"
| "billing_api gw now caller (CardUpdateRequest x) b = snd (api_start_card_update gw caller x b)"
| "billing_api gw now caller (SubscriptionRequest x) b = snd (api_get_billing_subscription gw caller x b)"
| "billing_api gw now caller (PaymentMethodRequest x) b = snd (api_get_payment_method gw caller x b)"
| "billing_api gw now caller (InvoicesRequest x) b = snd (api_list_invoices gw caller x b)"

section \<open>Confinement\<close>

lemma require_owner_user: "require_owner caller x = Inr u \<Longrightarrow> \<exists>c. caller = UserCaller c \<and> uc_tenant_id c = x"
  by (cases caller) (auto split: if_splits)

lemma owned_provider_only: "(\<And>b. provider_only b (snd (f b))) \<Longrightarrow> provider_only b (snd (owned caller x f b))"
  by (auto simp: owned_def split: sum.splits prod.splits) (metis snd_conv)

definition own_row_only :: "string \<Rightarrow> 's billing \<Rightarrow> 's billing \<Rightarrow> bool" where
  "own_row_only x b b' =
     (bl_catalog b' = bl_catalog b \<and> bl_resync b' = bl_resync b \<and>
      (\<exists>t. bl_auth b' = (bl_auth b)\<lparr>adb := (adb (bl_auth b))\<lparr>billing_customers := t\<rparr>\<rparr>) \<and>
      (\<forall>y. y \<noteq> x \<longrightarrow> get_billing_ref y (adb (bl_auth b')) = get_billing_ref y (adb (bl_auth b))))"

lemma provider_only_own_row: "provider_only b b' \<Longrightarrow> own_row_only x b b'"
  by (auto simp: provider_only_def own_row_only_def intro: exI [of _ "billing_customers (adb (bl_auth b))"])

lemma upsert_customer_other:
  "upsert_customer now x cid d = Inr d' \<Longrightarrow> y \<noteq> x \<Longrightarrow> get_billing_ref y d' = get_billing_ref y d"
  unfolding upsert_customer_def
  by (drule upsert_row_find [where y = y]) (auto simp: get_billing_ref_def stripe_row_def)

lemma start_checkout_own_row: "own_row_only x b (snd (start_checkout gw now x email p acc b))"
proof -
  let ?m = "gw_create_checkout_session gw (customer_id x (adb (bl_auth b))) email p x
    (if acc then None else live_coupon_for_price (read_catalog (bl_catalog b)) p now)
    (checkout_trial_end (read_catalog (bl_catalog b)) now p (port_current x (bl_auth b)))"
  obtain r b1 where c: "call_stripe ?m b = (r, b1)" by fastforce
  have f: "bl_auth b1 = bl_auth b" "bl_catalog b1 = bl_catalog b" "bl_resync b1 = bl_resync b" using call_stripe_frame [OF c] by auto
  have same: "own_row_only x b b1" by (rule provider_only_own_row [OF call_stripe_provider_only [OF c]])
  show ?thesis
  proof (cases r)
    case (Inr ses)
    show ?thesis
    proof (cases "\<exists>cid d. cs_customer_id ses = Some cid \<and> upsert_customer now x cid (adb (bl_auth b1)) = Inr d")
      case False
      then show ?thesis using c Inr same by (auto simp: start_checkout_def Let_def split: option.splits sum.splits)
    next
      case True
      then obtain cid d where cid: "cs_customer_id ses = Some cid" "upsert_customer now x cid (adb (bl_auth b1)) = Inr d" by blast
      have "snd (start_checkout gw now x email p acc b) = b1\<lparr>bl_auth := (bl_auth b1)\<lparr>adb := d\<rparr>\<rparr>"
        using c Inr cid by (simp add: start_checkout_def Let_def)
      then show ?thesis
        using f upsert_customer_other [OF cid(2)] upsert_row_frame [OF cid(2) [unfolded upsert_customer_def]]
        by (auto simp: own_row_only_def)
    qed
  qed (use c same in \<open>simp add: start_checkout_def Let_def\<close>)
qed

lemma owned_confined:
  assumes "\<And>b. provider_only b (snd (f b))"
  shows "\<exists>x. own_row_only x b (snd (owned caller y f b)) \<and>
    (snd (owned caller y f b) = b \<or> (\<exists>c. caller = UserCaller c \<and> uc_tenant_id c = x))"
proof (cases "require_owner caller y")
  case (Inr u)
  then show ?thesis
    using require_owner_user [OF Inr] provider_only_own_row [OF owned_provider_only [OF assms]] by blast
qed (simp add: owned_def provider_only_own_row)


end
