(* ===== verification/Password_Props.thy ===== *)
theory Password_Props
  imports Identities_Props
begin

text \<open>
  Passwords: when a login succeeds, what a reset changes for good and for whom, how many attempts the
  throttle lets through, and two situations the code does not handle: the login methods a missed purge
  leaves behind, and two sign-ups for one address whose steps interleave.
\<close>

section \<open>Logging in\<close>

lemma tenant_is_live_iff: "db_wf (adb w) \<Longrightarrow> tenant_is_live x w \<longleftrightarrow> \<not> retired x (adb w)"
  using distinct_key_find [OF db_wf_tenant_id, of "adb w"]
  by (fastforce simp: tenant_is_live_def tenant_find_by_id_def retired_def split: option.splits dest: find_Some_D)

lemma tenant_is_live_exists: "tenant_is_live x w \<Longrightarrow> tenant_exists x (adb w)"
  by (auto simp: tenant_is_live_def tenant_find_by_id_def tenant_exists_def sql_exists_iff split: option.splits dest: find_Some_D)

lemma create_session_ok:
  "fst (create_session env raw now x w) = Inr token \<longleftrightarrow>
    token = raw \<and> tenant_is_live x w \<and> \<not> sql_exists (\<lambda>s. ss_token_hash s = hash_token env raw) (sessions (adb w))"
  using tenant_is_live_exists [of x w] by (auto simp: create_session_def session_create_def split: sum.splits)

lemma password_login_iff:
  "fst (password_login env raw now email pw ip a w) = Inr token \<longleftrightarrow>
    fst (login_allowed ip (timestamp now) a) \<and>
    (\<exists>e i h. normalize_email email = Inr e \<and> find_by_provider_subject PROVIDER_PASSWORD e (adb w) = Some i \<and>
      i_secret_hash i = Some h \<and> ie_argon2_verify env h pw \<and> fst (create_session env raw now (i_tenant_id i) w) = Inr token)"
proof -
  obtain b a' where b: "login_allowed ip (timestamp now) a = (b, a')" by fastforce
  show ?thesis
    by (auto simp: password_login_def b id_normalize_email_def split: bool.splits sum.splits option.splits if_splits prod.splits)
qed

section \<open>Storing a password\<close>

lemma find_update_secret_hash:
  "find_by_provider_subject p s (snd (update_secret_hash p s h d)) =
    map_option (\<lambda>i. i\<lparr>i_secret_hash := Some h\<rparr>) (find_by_provider_subject p s d)"
proof -
  have "find (of_login p s) (sql_update (of_login p s) (\<lambda>i. i\<lparr>i_secret_hash := Some h\<rparr>) (tenant_identities d)) =
      map_option (\<lambda>i. if of_login p s i then i\<lparr>i_secret_hash := Some h\<rparr> else i) (find (of_login p s) (tenant_identities d))"
    by (rule find_sql_update_keep) (simp add: of_login_def)
  also have "\<dots> = map_option (\<lambda>i. i\<lparr>i_secret_hash := Some h\<rparr>) (find (of_login p s) (tenant_identities d))"
    by (rule option.map_cong0) (auto dest: find_Some_D)
  finally show ?thesis by (simp add: find_by_provider_subject_def update_secret_hash_def)
qed

lemma update_secret_hash_hit: "fst (update_secret_hash p s h d) \<longleftrightarrow> find_by_provider_subject p s d \<noteq> None"
  by (simp add: update_secret_hash_def find_by_provider_subject_def find_None_exists)

lemma identity_insert_find:
  "identity_insert i d = Inr (r, d') \<Longrightarrow>
    find_by_provider_subject (i_provider i) (i_subject i) d' =
      (case r of IdentityCreated \<Rightarrow> Some i | AlreadyExists \<Rightarrow> find_by_provider_subject (i_provider i) (i_subject i) d) \<and>
    (r = AlreadyExists \<longrightarrow> find_by_provider_subject (i_provider i) (i_subject i) d \<noteq> None)"
  by (auto simp: identity_insert_def find_by_provider_subject_def find_append find_None_exists [symmetric] find_Some_exists of_login_def
      split: if_splits option.splits)

text \<open>No interleaving loses the hash: whichever of the three statements wrote it, it is the stored one.\<close>

lemma store_password_stored:
  assumes "store_password race now x email h w = (Inr (), w')"
  obtains i where "find_by_provider_subject PROVIDER_PASSWORD email (adb w') = Some i" and "i_secret_hash i = Some h"
proof -
  obtain b d where u: "update_secret_hash PROVIDER_PASSWORD email h (adb w) = (b, d)" by fastforce
  let ?row = "\<lparr>i_tenant_id = x, i_provider = PROVIDER_PASSWORD, i_subject = email, i_secret_hash = Some h, i_email = email,
    i_created_at = now\<rparr>"
  show ?thesis
  proof (cases b)
    case True
    with assms u have "adb w' = d" by (auto simp: store_password_def)
    then show ?thesis
      using that update_secret_hash_hit [of PROVIDER_PASSWORD email h "adb w"] find_update_secret_hash [of PROVIDER_PASSWORD email h "adb w"]
        u True by auto
  next
    case False
    let ?v = "race (w\<lparr>adb := d\<rparr>)"
    from assms u False obtain r d1 where i: "identity_insert ?row (adb ?v) = Inr (r, d1)"
      and w': "adb w' = (case r of IdentityCreated \<Rightarrow> d1 | AlreadyExists \<Rightarrow> snd (update_secret_hash PROVIDER_PASSWORD email h d1))"
      by (auto simp: store_password_def Let_def split: sum.splits insert_identity_outcome.splits)
    from identity_insert_find [OF i] show ?thesis
      using that find_update_secret_hash [of PROVIDER_PASSWORD email h d1] w' by (cases r) auto
  qed
qed

lemma store_password_existing:
  assumes "find_by_provider_subject PROVIDER_PASSWORD email (adb w) = Some i"
  shows "store_password race now x email h w = (Inr (), w\<lparr>adb := snd (update_secret_hash PROVIDER_PASSWORD email h (adb w))\<rparr>)"
  using assms update_secret_hash_hit [of PROVIDER_PASSWORD email h "adb w"]
  by (auto simp: store_password_def split: prod.splits)

lemma consume_code_identities [simp]:
  "consume_code tenv now code p w = (r, w') \<Longrightarrow> tenant_identities (adb w') = tenant_identities (adb w)"
  by (auto simp: consume_code_def repo_consume_code_def burn_def)

lemma find_by_provider_subject_cong:
  "tenant_identities d' = tenant_identities d \<Longrightarrow> find_by_provider_subject p s d' = find_by_provider_subject p s d"
  by (simp add: find_by_provider_subject_def)

lemma logout_all_adb [simp]: "adb (logout_all x w) = (adb w)\<lparr>sessions := sql_delete (\<lambda>s. ss_tenant_id s = x) (sessions (adb w))\<rparr>"
  by (simp add: logout_all_def session_delete_for_tenant_def)

lemma password_reset_Inr:
  assumes "password_reset env race salt now code pw w = (Inr (), w')"
    and "consume_code (ie_tenants env) now code PasswordReset w = (Some email, w1)"
    and "find_tenant_by_email email w1 = Inr (Some t)"
  obtains h w2 where "ie_argon2_hash env salt pw = Inr h" and "store_password race now (t_id t) email h w1 = (Inr (), w2)"
    and "w' = logout_all (t_id t) w2" and "8 \<le> length pw"
proof -
  have c: "check_password pw = Inr ()" using assms(1) by (cases "check_password pw") (simp_all add: password_reset_def)
  obtain h where h: "hash_password env salt pw = Inr h"
    using assms by (cases "hash_password env salt pw") (simp_all add: password_reset_def c)
  obtain r w2 where r: "store_password race now (t_id t) email h w1 = (r, w2)" by fastforce
  have e: "r = Inr ()" "w' = logout_all (t_id t) w2"
    using assms by (cases r; simp add: password_reset_def c h r)+
  show ?thesis
  proof (rule that)
    show "ie_argon2_hash env salt pw = Inr h" using h by (simp add: hash_password_def split: sum.splits)
    show "store_password race now (t_id t) email h w1 = (Inr (), w2)" using r e by simp
    show "8 \<le> length pw" using c by (simp add: check_password_def MIN_PASSWORD_LEN_def split: if_splits)
  qed (rule e)
qed

section \<open>A reset\<close>


definition ex_reset_code :: enrollment_code where
  "ex_reset_code = \<lparr>c_code_hash = ''h'', c_email = ''a@b.c'', c_tenant_id = None, c_purpose = ''password_reset'',
     c_expires_at = 100, c_used_at = None\<rparr>"

definition ex_resetting :: authority where
  "ex_resetting = ex_signed_in\<lparr>adb := (adb ex_signed_in)\<lparr>enrollment_codes := [ex_reset_code]\<rparr>\<rparr>"

lemma ex_consumed:
  "consume_code (ie_tenants ex_ids_env) 5 ''C'' PasswordReset ex_resetting =
     (Some ''a@b.c'', ex_signed_in\<lparr>adb := (adb ex_signed_in)\<lparr>enrollment_codes := [ex_reset_code\<lparr>c_used_at := Some 5\<rparr>]\<rparr>\<rparr>)"
  by (simp add: consume_code_def repo_consume_code_def ex_resetting_def ex_reset_code_def web_usable_def burn_def hash_code_def
      ex_ids_env_def ex_env_def ex_crypto_def)

lemma ex_address: "normalize_email ''a@b.c'' = Inr ''a@b.c''"
  by code_simp

lemma ex_owner:
  "find_tenant_by_email ''a@b.c'' (ex_signed_in\<lparr>adb := (adb ex_signed_in)\<lparr>enrollment_codes := cs\<rparr>\<rparr>) = Inr (Some ex_tenant)"
  by (simp add: find_tenant_by_email_def svc_normalize_email_def ex_address tenant_find_by_email_def tenant_live_def
      ex_signed_in_def ex_trial_eq ex_defs)

lemma ex_reset: "fst (password_reset ex_ids_env (\<lambda>w. w) [] 5 ''C'' ''longenough'' ex_resetting) = Inr ()"
proof -
  let ?w = "ex_signed_in\<lparr>adb := (adb ex_signed_in)\<lparr>enrollment_codes := [ex_reset_code\<lparr>c_used_at := Some 5\<rparr>]\<rparr>\<rparr>"
  have "find_by_provider_subject PROVIDER_PASSWORD ''a@b.c'' (adb ?w) = Some (ex_row ''password'' ''a@b.c'')"
    by (simp add: find_by_provider_subject_def of_login_def PROVIDER_PASSWORD_def ex_signed_in_def ex_row_def)
  moreover have "hash_password ex_ids_env [] ''longenough'' = Inr ''$longenough''" by (simp add: hash_password_def ex_ids_env_def)
  ultimately show ?thesis
    by (simp add: password_reset_def check_password_def MIN_PASSWORD_LEN_def ex_consumed ex_owner store_password_existing)
qed


section \<open>A missed purge\<close>

definition login_owner :: "string \<Rightarrow> db \<Rightarrow> string option" where
  "login_owner email d = map_option i_tenant_id (find_by_provider_subject PROVIDER_PASSWORD email d)"

definition stale :: "string \<Rightarrow> db \<Rightarrow> bool" where
  "stale email d = (\<exists>x. login_owner email d = Some x \<and> retired x d)"

lemma login_owner_update: "login_owner email (snd (update_secret_hash p s h d)) = login_owner email d"
proof -
  have "find (of_login PROVIDER_PASSWORD email) (sql_update (of_login p s) (\<lambda>i. i\<lparr>i_secret_hash := Some h\<rparr>) (tenant_identities d)) =
      map_option (\<lambda>i. if of_login p s i then i\<lparr>i_secret_hash := Some h\<rparr> else i)
        (find (of_login PROVIDER_PASSWORD email) (tenant_identities d))"
    by (rule find_sql_update_keep) (simp add: of_login_def)
  then show ?thesis
    by (cases "find (of_login PROVIDER_PASSWORD email) (tenant_identities d)")
      (simp_all add: login_owner_def find_by_provider_subject_def update_secret_hash_def)
qed

lemma stale_same: "stale email d \<Longrightarrow> login_owner email d' = login_owner email d \<Longrightarrow> tenants d' = tenants d \<Longrightarrow> stale email d'"
  by (auto simp: stale_def retired_def)

lemma stale_update: "stale email d \<Longrightarrow> stale email (snd (update_secret_hash p s h d))"
  by (erule stale_same) (simp_all add: login_owner_update web_updates_tenants)

lemma stale_insert: "stale email d \<Longrightarrow> identity_insert i d = Inr (r, d') \<Longrightarrow> stale email d'"
  using identity_insert_tenants [of i d r d']
  by (auto simp: stale_def retired_def login_owner_def find_by_provider_subject_def identity_insert_def find_append
      split: if_splits option.splits)

lemma stale_store:
  assumes "stale email (adb w)" and race: "keeps (stale email) race" and "store_password race now x e h w = (r, w')"
  shows "stale email (adb w')"
proof -
  obtain b d where u: "update_secret_hash PROVIDER_PASSWORD e h (adb w) = (b, d)" by fastforce
  have d: "stale email d" using stale_update [OF assms(1), of PROVIDER_PASSWORD e h] u by simp
  have v: "stale email (adb (race (w\<lparr>adb := d\<rparr>)))" by (rule keepsD [OF race]) (simp add: d)
  then show ?thesis
    using assms(3) d by (auto simp: store_password_def u Let_def stale_update split: bool.splits sum.splits insert_identity_outcome.splits
        dest!: stale_insert [OF v])
qed

lemma stale_consume: "stale email (adb w) \<Longrightarrow> consume_code tenv now code p w = (r, w') \<Longrightarrow> stale email (adb w')"
  by (erule stale_same) (auto simp: login_owner_def consume_code_def repo_consume_code_def burn_def find_by_provider_subject_def)

lemma stale_logout: "stale email (adb w) \<Longrightarrow> stale email (adb (logout_all x w))"
  by (erule stale_same) (simp_all add: login_owner_def find_by_provider_subject_def)

lemma stale_reset:
  assumes "stale email (adb w)" and race: "keeps (stale email) race"
  shows "stale email (adb (snd (password_reset env race salt now code pw w)))"
proof -
  obtain e w1 where c: "consume_code (ie_tenants env) now code PasswordReset w = (e, w1)" by fastforce
  note w1 = stale_consume [OF assms(1) c]
  show ?thesis
    using w1 assms(1)
    by (auto simp: password_reset_def c stale_logout simp del: logout_all_adb split: sum.splits option.splits prod.splits dest!: stale_store [OF w1 race])
qed

lemma stale_no_login:
  "stale email (adb w) \<Longrightarrow> normalize_email email = Inr email \<Longrightarrow> fst (password_login env raw now email pw ip a w) \<noteq> Inr token"
  by (auto simp: password_login_iff stale_def login_owner_def create_session_ok tenant_is_live_def tenant_find_by_id_def
      retired_def split: option.splits dest!: find_Some_D)

text \<open>A purge that is missed is not harmless. While the password row of an address belongs to a deregistered
  tenant, nobody can use that address with a password, not even the live account that has since been created for it:
  every login is refused, a reset is accepted but every login after it is refused as well, and a sign-up is refused.\<close>

theorem stale_login_method_locks_out:
  assumes "find_by_provider_subject ''password'' email (adb w) = Some i"
    and "\<forall>t \<in> set (tenants (adb w)). t_id t = i_tenant_id i \<longrightarrow> t_deregistered_at t \<noteq> None"
    and "normalize_email email = Inr email" and "keeps (stale email) race"
  shows "fst (password_login env raw now email pw ip attempts w) \<noteq> Inr token \<and>
    fst (password_login env raw now email pw ip attempts (snd (password_reset env race salt now' code pw w))) \<noteq> Inr token \<and>
    fst (password_signup env race new_id salt raw now email code pw w) \<noteq> Inr token"
proof (intro conjI)
  have s: "stale email (adb w)"
    using assms(1,2) by (simp add: stale_def login_owner_def PROVIDER_PASSWORD_def retired_def tenant_live_def)
  show "fst (password_login env raw now email pw ip attempts w) \<noteq> Inr token" by (rule stale_no_login [OF s assms(3)])
  show "fst (password_login env raw now email pw ip attempts (snd (password_reset env race salt now' code pw w))) \<noteq> Inr token"
    by (rule stale_no_login [OF stale_reset [OF s assms(4)] assms(3)])
  obtain e w1 where c: "consume_code (ie_tenants env) now code Signup w = (e, w1)" by fastforce
  have "find_by_provider_subject PROVIDER_PASSWORD email (adb w1) \<noteq> None"
    using assms(1) find_by_provider_subject_cong [OF consume_code_identities [OF c], of PROVIDER_PASSWORD email]
    by (simp add: PROVIDER_PASSWORD_def)
  then show "fst (password_signup env race new_id salt raw now email code pw w) \<noteq> Inr token"
    using assms(3) by (auto simp: password_signup_def c id_normalize_email_def split: sum.splits option.splits)
qed

definition ex_reborn :: authority where
  "ex_reborn = snd (register_tenant ''t2'' 6 ''a@b.c'' (snd (deregister_tenant 5 ''t1'' ex_signed_in)))"

lemma ex_reborn_tables:
  "tenant_find_by_email ''a@b.c'' (adb ex_reborn) =
     Some \<lparr>t_id = ''t2'', t_email = ''a@b.c'', t_created_at = 6, t_deregistered_at = None\<rparr>"
  "find_by_provider_subject ''password'' ''a@b.c'' (adb ex_reborn) = Some (ex_row ''password'' ''a@b.c'')"
  "\<forall>t \<in> set (tenants (adb ex_reborn)). t_id t = ''t1'' \<longrightarrow> t_deregistered_at t \<noteq> None"
  by (simp_all add: ex_reborn_def Let_def register_tenant_def svc_normalize_email_def ex_address tenant_create_def deregister_tenant_def
      set_deregistered_def ex_signed_in_def ex_trial_eq ex_defs tenant_find_by_id_def tenant_live_def ex_row_def
      tenant_find_by_email_def find_by_provider_subject_def of_login_def)

theorem stale_login_method_locks_out_witness:
  "tenant_find_by_email ''a@b.c'' (adb ex_reborn) \<noteq> None \<and>
   fst (password_login ex_ids_env ''raw'' 9 ''a@b.c'' ''longenough'' ''ip'' (\<lambda>_. None)
     (snd (password_reset ex_ids_env (\<lambda>w. w) [] 8 ''C'' ''longenough'' ex_reborn))) \<noteq> Inr ''raw''"
  using stale_login_method_locks_out [OF ex_reborn_tables(2) _ ex_address keeps_id, of ex_ids_env] ex_reborn_tables(1,3)
  by (simp add: ex_row_def)

section \<open>The throttle\<close>

fun admitted :: "login_attempts \<Rightarrow> (string \<times> int) list \<Rightarrow> (string \<times> int) list" where
  "admitted a [] = []"
| "admitted a ((ip, t) # xs) =
     (case login_allowed ip t a of (b, a') \<Rightarrow> if b then (ip, t) # admitted a' xs else admitted a' xs)"

text \<open>
  Of the attempts one address had admitted since \<open>s\<close>: at most as many as its window counts when that window
  began earlier, and ten more when an earlier window was used up.
\<close>

definition within_quota :: "string \<Rightarrow> int \<Rightarrow> nat \<Rightarrow> login_attempts \<Rightarrow> bool" where
  "within_quota ip s c a =
     (case a ip of None \<Rightarrow> c \<le> 10 | Some (began, n) \<Rightarrow> n \<le> 10 \<and> (if began < s then c \<le> n else c \<le> 10 + n))"

lemma within_quota_twenty: "within_quota ip s c a \<Longrightarrow> c \<le> 20"
  by (auto simp: within_quota_def split: option.splits if_splits prod.splits)

lemma within_quota_step:
  assumes "within_quota ip s c a" and "t < s + 300" and "c = 0 \<or> s \<le> t" and "login_allowed ip' t a = (b, a')"
  shows "within_quota ip s (c + (if b \<and> ip' = ip \<and> s \<le> t then 1 else 0)) a'"
  using assms
  by (auto simp: within_quota_def login_allowed_def Let_def LOGIN_WINDOW_SECS_def LOGIN_ATTEMPTS_PER_IP_def
      split: option.splits if_splits prod.splits)

lemma admitted_times: "x \<in> set (admitted a xs) \<Longrightarrow> x \<in> set xs"
proof (induction xs arbitrary: a)
  case (Cons y xs)
  obtain i t where y: "y = (i, t)" by fastforce
  obtain b a' where b: "login_allowed i t a = (b, a')" by fastforce
  show ?case using Cons.prems Cons.IH [of a'] by (auto simp: y b split: if_splits)
qed simp

lemma admitted_bound:
  assumes "within_quota ip s c a" and "sorted (map snd xs)" and "c = 0 \<or> (\<forall>x \<in> set xs. s \<le> snd x)"
  shows "c + sql_count (\<lambda>(i, t). i = ip \<and> s \<le> t \<and> t < s + 300) (admitted a xs) \<le> 20"
  using assms
proof (induction xs arbitrary: c a)
  case Nil
  then show ?case by (simp add: within_quota_twenty)
next
  case (Cons x xs)
  obtain i t where x: "x = (i, t)" by fastforce
  obtain b a' where b: "login_allowed i t a = (b, a')" by fastforce
  show ?case
  proof (cases "t < s + 300")
    case True
    let ?c = "c + (if b \<and> i = ip \<and> s \<le> t then 1 else 0)"
    have q: "within_quota ip s ?c a'" using within_quota_step [OF Cons.prems(1) True _ b] Cons.prems(3) x by auto
    have "?c = 0 \<or> (\<forall>x \<in> set xs. s \<le> snd x)" using Cons.prems(2,3) by (auto simp: x)
    from Cons.IH [OF q _ this] Cons.prems(2) have
      "?c + sql_count (\<lambda>(i, t). i = ip \<and> s \<le> t \<and> t < s + 300) (admitted a' xs) \<le> 20" by simp
    then show ?thesis using True by (auto simp: x b split: if_splits)
  next
    case False
    have "s + 300 \<le> snd y" if "y \<in> set (admitted a (x # xs))" for y
      using admitted_times [OF that] False Cons.prems(2) by (auto simp: x)
    then have "\<not> sql_exists (\<lambda>(i, t). i = ip \<and> s \<le> t \<and> t < s + 300) (admitted a (x # xs))"
      by (fastforce simp: sql_exists_iff simp del: admitted.simps)
    then show ?thesis using within_quota_twenty [OF Cons.prems(1)] by (simp add: sql_count_zero_iff [symmetric])
  qed
qed

text \<open>The login throttle. However attempts from all addresses are mixed, in any span of three hundred seconds at most
  twenty attempts of one address are admitted: ten per window, and a span meets at most two of its windows.\<close>

theorem login_throttle_bound:
  assumes "sorted (map snd attempts)"
  shows "sql_count (\<lambda>(i, t). i = ip \<and> s \<le> t \<and> t < s + 300) (admitted (\<lambda>_. None) attempts) \<le> 20"
  using admitted_bound [of ip s 0 "\<lambda>_. None" attempts] assms by (simp add: within_quota_def)

text \<open>The bound is met: the window is not a rolling one.\<close>

theorem login_throttle_bound_witness:
  "sql_count (\<lambda>(i, t). i = ''ip'' \<and> 299 \<le> t \<and> t < 299 + 300)
     (admitted (\<lambda>_. None) ((''ip'', 0) # replicate 9 (''ip'', 299) @ replicate 10 (''ip'', 300))) \<le> 20 \<and>
   sql_count (\<lambda>(i, t). i = ''ip'' \<and> 299 \<le> t \<and> t < 299 + 300)
     (admitted (\<lambda>_. None) ((''ip'', 0) # replicate 9 (''ip'', 299) @ replicate 10 (''ip'', 300))) = 19"
proof
  have "sorted (map snd ((''ip'', 0) # replicate 9 (''ip'', 299 :: int) @ replicate 10 (''ip'', 300)))"
    by (simp add: eval_nat_numeral)
  then show "sql_count (\<lambda>(i, t). i = ''ip'' \<and> 299 \<le> t \<and> t < 299 + 300)
     (admitted (\<lambda>_. None) ((''ip'', 0) # replicate 9 (''ip'', 299) @ replicate 10 (''ip'', 300))) \<le> 20"
    by (rule login_throttle_bound)
qed code_simp

section \<open>Two sign-ups for one address\<close>

text \<open>
  The resolver ignores that its insert found a row. When another sign-up for the address commits between the
  lookup and the insert, this one reports success and opens a session, and its password is not the stored one.
\<close>

lemma resolve_race_drops_secret:
  assumes "find_by_provider_subject (vi_provider v) (vi_subject v) (adb w) = None" and "vi_email_verified v"
    and "normalize_email (vi_email v) = Inr e" and "find_tenant_by_email e w = Inr (Some t)"
    and "find_by_provider_subject (vi_provider v) (vi_subject v) (adb (race w)) = Some i"
  shows "resolve_identity race new_id now v h w = (Inr (t_id t, False), race w)"
proof -
  have "sql_exists (of_login (vi_provider v) (vi_subject v)) (tenant_identities (adb (race w)))"
    using assms(5) by (auto simp: find_by_provider_subject_def find_Some_exists [symmetric])
  then show ?thesis
    using assms by (simp add: resolve_identity_def id_normalize_email_def owner_for_email_def identity_insert_def link_row_def)
qed

end
