(* ===== verification/Identities_Api.thy ===== *)
theory Identities_Api
  imports Password_Props Tenants_Api Proxy_Protocol
begin

text \<open>
  The HTTP surface of the login plane: the bootstrap endpoints (\<open>tenants/src/api/auth.rs\<close>), the account
  security endpoints (\<open>api/me.rs\<close>), the cookies (\<open>api/cookies.rs\<close>) and the one-time code endpoint
  (\<open>api/verification_codes.rs\<close>). The private cookie jar is the map from names to the cookies it could
  decrypt; the JSON codec of the OAuth stash is a parameter.

  The theorems follow a link request from its start to its callback and state what guards it.
\<close>

section \<open>Cookies\<close>

datatype same_site = Strict | Lax | NoneSite

record cookie =
  ck_name :: string
  ck_value :: string
  ck_http_only :: bool
  ck_secure :: bool
  ck_same_site :: "same_site option"
  ck_path :: string
  ck_max_age :: "int option"

type_synonym cookie_jar = "string \<Rightarrow> cookie option"

definition SESSION_COOKIE :: string where "SESSION_COOKIE = ''wardnet_session''"

definition OAUTH_COOKIE :: string where "OAUTH_COOKIE = ''wardnet_oauth''"

definition session_cookie :: "string \<Rightarrow> cookie" where
  "session_cookie token =
     \<lparr>ck_name = SESSION_COOKIE, ck_value = token, ck_http_only = True, ck_secure = True, ck_same_site = Some Lax,
      ck_path = ''/'', ck_max_age = Some (days 30)\<rparr>"

definition oauth_cookie :: "string \<Rightarrow> cookie" where
  "oauth_cookie v =
     \<lparr>ck_name = OAUTH_COOKIE, ck_value = v, ck_http_only = True, ck_secure = True, ck_same_site = Some Lax,
      ck_path = ''/'', ck_max_age = Some (secs (10 * 60))\<rparr>"

definition cleared :: "string \<Rightarrow> cookie" where
  "cleared name =
     \<lparr>ck_name = name, ck_value = [], ck_http_only = False, ck_secure = False, ck_same_site = None, ck_path = ''/'',
      ck_max_age = None\<rparr>"

definition jar_add :: "cookie \<Rightarrow> cookie_jar \<Rightarrow> cookie_jar" where
  "jar_add c jar = jar(ck_name c \<mapsto> c)"

definition jar_remove :: "cookie \<Rightarrow> cookie_jar \<Rightarrow> cookie_jar" where
  "jar_remove c jar = jar(ck_name c := None)"

definition from_identities :: "identities_error + 'a \<Rightarrow> api_error + 'a" where
  "from_identities r = (case r of Inl e \<Rightarrow> Inl (identities_api_error e) | Inr x \<Rightarrow> Inr x)"

definition sign_in :: "cookie_jar \<Rightarrow> identities_error + string \<Rightarrow> api_error + cookie_jar \<times> nat" where
  "sign_in jar r =
     (case from_identities r of Inl e \<Rightarrow> Inl e | Inr token \<Rightarrow> Inr (jar_add (session_cookie token) jar, 204))"

section \<open>Passwords\<close>

definition api_password_signup ::
  "identities_env \<Rightarrow> (authority \<Rightarrow> authority) \<Rightarrow> string \<Rightarrow> bytes \<Rightarrow> string \<Rightarrow> instant \<Rightarrow> cookie_jar \<Rightarrow> string \<Rightarrow> string \<Rightarrow> string
    \<Rightarrow> authority \<Rightarrow> (api_error + cookie_jar \<times> nat) \<times> authority" where
  "api_password_signup env race new_id salt raw now jar email code password w =
     (case password_signup env race new_id salt raw now email code password w of (r, w') \<Rightarrow> (sign_in jar r, w'))"

definition api_password_login ::
  "identities_env \<Rightarrow> string \<Rightarrow> instant \<Rightarrow> header_map \<Rightarrow> socket_addr \<Rightarrow> cookie_jar \<Rightarrow> string \<Rightarrow> string \<Rightarrow> login_attempts
    \<Rightarrow> authority \<Rightarrow> (api_error + cookie_jar \<times> nat) \<times> login_attempts \<times> authority" where
  "api_password_login env raw now headers addr jar email password attempts w =
     (case password_login env raw now email password (client_ip headers addr) attempts w of
        (r, attempts', w') \<Rightarrow> (sign_in jar r, attempts', w'))"

definition api_password_reset ::
  "identities_env \<Rightarrow> (authority \<Rightarrow> authority) \<Rightarrow> bytes \<Rightarrow> instant \<Rightarrow> string \<Rightarrow> string \<Rightarrow> authority
    \<Rightarrow> (api_error + nat) \<times> authority" where
  "api_password_reset env race salt now code password w =
     (case password_reset env race salt now code password w of
        (Inl e, w') \<Rightarrow> (Inl (identities_api_error e), w') | (Inr _, w') \<Rightarrow> (Inr 204, w'))"

section \<open>Federated login\<close>

record oauth_stash =
  os_csrf_state :: string
  os_verifier :: string
  os_link_tenant :: "string option"

record stash_codec =
  stash_to_string :: "oauth_stash \<Rightarrow> string + string"
  stash_from_str :: "string \<Rightarrow> oauth_stash option"

definition linking_tenant ::
  "identities_env \<Rightarrow> instant \<Rightarrow> string option \<Rightarrow> cookie_jar \<Rightarrow> authority \<Rightarrow> api_error + string option" where
  "linking_tenant env now mode jar w =
     (if mode = Some ''link''
      then (case jar SESSION_COOKIE of
              None \<Rightarrow> Inl (Unauthorized ''must be signed in to link'')
            | Some c \<Rightarrow>
                (case tenant_for_session env now (ck_value c) w of
                   None \<Rightarrow> Inl (Unauthorized ''no active session'') | Some x \<Rightarrow> Inr (Some x)))
      else Inr None)"

definition api_oidc_start ::
  "identities_env \<Rightarrow> stash_codec \<Rightarrow> instant \<Rightarrow> string \<Rightarrow> string \<Rightarrow> string option \<Rightarrow> cookie_jar \<Rightarrow> authority
    \<Rightarrow> api_error + cookie_jar \<times> string" where
  "api_oidc_start env codec now seed provider mode jar w =
     (case linking_tenant env now mode jar w of
        Inl e \<Rightarrow> Inl e
      | Inr link_tenant \<Rightarrow>
          (case oidc_start env seed provider of
             Inl e \<Rightarrow> Inl (identities_api_error e)
           | Inr a \<Rightarrow>
               (case stash_to_string codec \<lparr>os_csrf_state = ar_csrf_state a, os_verifier = ar_verifier a,
                       os_link_tenant = link_tenant\<rparr> of
                  Inl e \<Rightarrow> Inl (Internal (''serialize oauth stash: '' @ e))
                | Inr stash \<Rightarrow> Inr (jar_add (oauth_cookie stash) jar, ar_url a))))"

definition read_stash :: "stash_codec \<Rightarrow> string \<Rightarrow> cookie_jar \<Rightarrow> api_error + oauth_stash" where
  "read_stash codec state jar =
     (case jar OAUTH_COOKIE of
        None \<Rightarrow> Inl (Unauthorized ''missing or expired oauth state'')
      | Some c \<Rightarrow>
          (case stash_from_str codec (ck_value c) of
             None \<Rightarrow> Inl (Unauthorized ''malformed oauth state'')
           | Some stash \<Rightarrow>
               if state \<noteq> os_csrf_state stash then Inl (Unauthorized ''oauth state mismatch'') else Inr stash))"

definition still_signed_in :: "identities_env \<Rightarrow> instant \<Rightarrow> string \<Rightarrow> cookie_jar \<Rightarrow> authority \<Rightarrow> bool" where
  "still_signed_in env now x jar w =
     (case jar SESSION_COOKIE of
        Some c \<Rightarrow> tenant_for_session env now (ck_value c) w = Some x | None \<Rightarrow> False)"

definition api_oidc_callback ::
  "identities_env \<Rightarrow> stash_codec \<Rightarrow> string \<Rightarrow> (authority \<Rightarrow> authority) list \<Rightarrow> string \<Rightarrow> string \<Rightarrow> instant \<Rightarrow> string \<Rightarrow> string
    \<Rightarrow> string \<Rightarrow> cookie_jar \<Rightarrow> authority \<Rightarrow> (api_error + cookie_jar \<times> string) option \<times> authority" where
  "api_oidc_callback env codec account_spa races new_id raw now provider code state jar w =
     (case read_stash codec state jar of
        Inl e \<Rightarrow> (Some (Inl e), w)
      | Inr stash \<Rightarrow>
          let jar' = jar_remove (cleared OAUTH_COOKIE) jar in
          (case os_link_tenant stash of
             Some x \<Rightarrow>
               if \<not> still_signed_in env now x jar w
               then (Some (Inl (Unauthorized ''session is no longer valid; sign in again to link'')), w)
               else (case link_identity env races now provider code (os_verifier stash) x w of
                       (None, w') \<Rightarrow> (None, w')
                     | (Some (Inl e), w') \<Rightarrow> (Some (Inl (identities_api_error e)), w')
                     | (Some (Inr _), w') \<Rightarrow> (Some (Inr (jar', account_spa)), w'))
           | None \<Rightarrow>
               (case oidc_callback env (case races of [] \<Rightarrow> (\<lambda>w. w) | race # _ \<Rightarrow> race) new_id raw now provider code
                       (os_verifier stash) w of
                  (Inl e, w') \<Rightarrow> (Some (Inl (identities_api_error e)), w')
                | (Inr token, w') \<Rightarrow> (Some (Inr (jar_add (session_cookie token) jar', account_spa)), w'))))"

section \<open>Session life cycle\<close>

definition api_token ::
  "identities_env \<Rightarrow> instant \<Rightarrow> cookie_jar \<Rightarrow> authority \<Rightarrow> (api_error + string) \<times> authority" where
  "api_token env now jar w =
     (case jar SESSION_COOKIE of
        None \<Rightarrow> (Inl (Unauthorized ''not logged in''), w)
      | Some c \<Rightarrow> (case exchange_session env now (ck_value c) w of (r, w') \<Rightarrow> (from_identities r, w')))"

definition api_logout :: "identities_env \<Rightarrow> cookie_jar \<Rightarrow> authority \<Rightarrow> (cookie_jar \<times> nat) \<times> authority" where
  "api_logout env jar w =
     ((jar_remove (cleared SESSION_COOKIE) jar, 204),
      case jar SESSION_COOKIE of None \<Rightarrow> w | Some c \<Rightarrow> logout env (ck_value c) w)"

section \<open>Account security\<close>

fun require_user :: "caller \<Rightarrow> api_error + string" where
  "require_user (UserCaller u) = Inr (uc_tenant_id u)"
| "require_user (DaemonCaller d) = Inl (Forbidden ''user credential required'')"
| "require_user (ServiceCaller s) = Inl (Forbidden ''user credential required'')"

record connected_identity_view =
  cv_provider :: string
  cv_label :: string
  cv_connected_at :: instant

definition connected_identity_view_of :: "tenant_identity \<Rightarrow> connected_identity_view" where
  "connected_identity_view_of i =
     \<lparr>cv_provider = i_provider i, cv_label = i_email i, cv_connected_at = i_created_at i\<rparr>"

definition api_list_identities :: "caller \<Rightarrow> authority \<Rightarrow> api_error + connected_identity_view list" where
  "api_list_identities caller w =
     (case require_user caller of
        Inl e \<Rightarrow> Inl e | Inr x \<Rightarrow> Inr (map connected_identity_view_of (list_identities x w)))"

definition api_unlink_identity :: "caller \<Rightarrow> string \<Rightarrow> authority \<Rightarrow> (api_error + nat) \<times> authority" where
  "api_unlink_identity caller provider w =
     (case require_user caller of
        Inl e \<Rightarrow> (Inl e, w)
      | Inr x \<Rightarrow>
          (case unlink_identity x provider w of
             (Inl e, w') \<Rightarrow> (Inl (identities_api_error e), w') | (Inr _, w') \<Rightarrow> (Inr 204, w')))"

definition signout_all :: "caller \<Rightarrow> cookie_jar \<Rightarrow> authority \<Rightarrow> (api_error + cookie_jar \<times> nat) \<times> authority" where
  "signout_all caller jar w =
     (case require_user caller of
        Inl e \<Rightarrow> (Inl e, w)
      | Inr x \<Rightarrow> (Inr (jar_remove (cleared SESSION_COOKIE) jar, 204), logout_all x w))"

definition set_password ::
  "identities_env \<Rightarrow> (authority \<Rightarrow> authority) \<Rightarrow> bytes \<Rightarrow> string \<Rightarrow> instant \<Rightarrow> caller \<Rightarrow> cookie_jar \<Rightarrow> string \<Rightarrow> string
    \<Rightarrow> authority \<Rightarrow> (api_error + cookie_jar \<times> nat) \<times> authority" where
  "set_password env race salt raw now caller jar code password w =
     (case require_user caller of
        Inl e \<Rightarrow> (Inl e, w)
      | Inr x \<Rightarrow>
          (case set_password_authenticated env race salt raw now x code password w of (r, w') \<Rightarrow> (sign_in jar r, w')))"

section \<open>One-time codes\<close>

definition create_verification_code ::
  "identities_env \<Rightarrow> instant \<Rightarrow> nat list \<Rightarrow> header_map \<Rightarrow> socket_addr \<Rightarrow> string \<Rightarrow> code_purpose \<Rightarrow> authority
    \<Rightarrow> (api_error + string option) \<times> authority" where
  "create_verification_code env now picks headers addr email purpose w =
     (let remote_ip = client_ip headers addr;
          (code, w') =
            (case purpose of
               PasswordReset \<Rightarrow>
                 (case request_password_reset env now picks email remote_ip w of (r, w') \<Rightarrow> (from_identities r, w'))
             | _ \<Rightarrow>
                 (case issue_signup_code (ie_tenants env) now picks email remote_ip purpose w of
                    (r, w') \<Rightarrow> (from_tenants r, w'))) in
      (case code of
         Inl e \<Rightarrow> Inl e
       | Inr c \<Rightarrow> Inr (if env_email_delivers (ie_tenants env) then None else Some c), w'))"

section \<open>Linking\<close>

lemma link_loop_Inr:
  assumes "link_loop races now v email x w = (Some (Inr ()), w')"
  shows "\<exists>i \<in> set (tenant_identities (adb w')). of_login (vi_provider v) (vi_subject v) i \<and> i_tenant_id i = x"
  using assms
proof (induction races arbitrary: w)
  case (Cons race races)
  show ?case
  proof (cases "find_by_provider_subject (vi_provider v) (vi_subject v) (adb w)")
    case (Some i)
    with Cons.prems show ?thesis
      by (auto simp: find_by_provider_subject_def split: if_splits dest!: find_Some_D)
  next
    case None
    let ?row = "link_row x v None email now"
    from Cons.prems None obtain r d where i: "identity_insert ?row (adb (race w)) = Inr (r, d)"
      by (auto simp: Let_def split: sum.splits)
    show ?thesis
    proof (cases r)
      case IdentityCreated
      with Cons.prems None i have w': "adb w' = d" by (auto simp: Let_def)
      from i IdentityCreated show ?thesis unfolding w'
        by (auto simp: identity_insert_def link_row_def of_login_def split: if_splits)
    next
      case AlreadyExists
      with Cons None i show ?thesis by (simp add: Let_def)
    qed
  qed
qed simp

lemma link_identity_Inr:
  assumes "link_identity env races now provider code verifier x w = (Some (Inr ()), w')"
  obtains v where "id_exchange env provider code verifier = Inr v" and "vi_email_verified v"
    and "\<exists>i \<in> set (tenant_identities (adb w')). of_login (vi_provider v) (vi_subject v) i \<and> i_tenant_id i = x"
proof -
  from assms obtain v e where v: "id_exchange env provider code verifier = Inr v" "vi_email_verified v"
    and l: "link_loop races now v e x w = (Some (Inr ()), w')"
    by (auto simp: link_identity_def split: sum.splits if_splits)
  from that [OF v link_loop_Inr [OF l]] show ?thesis .
qed

text \<open>A link request that runs alone needs one round.\<close>

lemma link_loop_alone: "fst (link_loop ((\<lambda>w. w) # races) now v email x w) \<noteq> None"
  by (auto simp: identity_insert_def find_by_provider_subject_def find_None_exists link_row_def Let_def
      split: option.splits sum.splits insert_identity_outcome.splits if_splits)

text \<open>C20. A callback that links succeeds only for the browser that started it and is still signed in. The state the
  provider echoed is the one in that browser's encrypted cookie, the session cookie resolves, at that moment, to the
  very tenant recorded at the start, the provider verified the address, and afterwards the provider account belongs to
  that tenant; the browser gets no new session and loses the spent state. This holds whatever is committed in between.\<close>

theorem oidc_link_guarded:
  assumes "api_oidc_callback env codec spa races new_id raw now provider code state jar w = (Some (Inr (jar', url)), w')"
    and "jar OAUTH_COOKIE = Some c" and "stash_from_str codec (ck_value c) = Some stash" and "os_link_tenant stash = Some x"
  shows "state = os_csrf_state stash \<and>
    (\<exists>s. jar SESSION_COOKIE = Some s \<and> tenant_for_session env now (ck_value s) w = Some x) \<and>
    (\<exists>v. id_exchange env provider code (os_verifier stash) = Inr v \<and> vi_email_verified v \<and>
      (\<exists>i \<in> set (tenant_identities (adb w')). i_provider i = vi_provider v \<and> i_subject i = vi_subject v \<and> i_tenant_id i = x)) \<and>
    url = spa \<and> jar' = jar(OAUTH_COOKIE := None)"
proof -
  from assms have s: "read_stash codec state jar = Inr stash" "state = os_csrf_state stash"
    by (auto simp: api_oidc_callback_def read_stash_def split: if_splits)
  have g: "still_signed_in env now x jar w" using assms(1,4) by (auto simp: api_oidc_callback_def s(1) split: if_splits)
  obtain r q where l: "link_identity env races now provider code (os_verifier stash) x w = (r, q)" by fastforce
  with assms(1,4) g have r: "r = Some (Inr ())" "q = w'" "url = spa" "jar' = jar_remove (cleared OAUTH_COOKIE) jar"
    by (auto simp: api_oidc_callback_def s(1) Let_def split: option.splits sum.splits)
  from link_identity_Inr [OF l [unfolded r(1,2)]] obtain v where "id_exchange env provider code (os_verifier stash) = Inr v"
    "vi_email_verified v" "\<exists>i \<in> set (tenant_identities (adb w')). of_login (vi_provider v) (vi_subject v) i \<and> i_tenant_id i = x" .
  with s(2) g r(3,4) show ?thesis
    by (auto simp: still_signed_in_def jar_remove_def cleared_def of_login_def split: option.splits)
qed

section \<open>From the password to the admitted request\<close>

lemma exchange_fresh_session:
  assumes "db_wf (adb w)" and "create_session env raw now x w = (Inr raw, w')" and "now' < now + days 30"
  shows "tenant_for_session env now' raw w' = Some x"
proof -
  note c = create_session_Inr [OF assms(2)]
  have "db_wf (adb w')" by (rule web_wf.create [OF assms(1,2)])
  from session_tenant_for_Some [OF this] c assms(3) show ?thesis
    by (auto simp: tenant_for_session_def retired_def SESSION_TTL_SECS_def days_def)
qed

text \<open>The web login works end to end. After a password login answered with success, for thirty days the returned
  cookie jar is exchanged for a token, and until that token expires every request to the Tenants service that carries
  it, whatever else it carries, is admitted as the user of the tenant that owns the password.\<close>

theorem web_login_admits:
  assumes "db_wf (adb w)"
    and "api_password_login env raw now headers addr jar email pw attempts w = (Inr (jar', status), attempts', w')"
    and "now' < now + days 30"
    and "jwt_roundtrip (env_jwt_encode (ie_tenants env)) (ax_jwt_decode ax)" and "ax_service ax = ''tenants''"
    and "\<forall>t \<in> set (tenants (adb w)). \<exists>token. env_jwt_encode (ie_tenants env)
      (spec_claims (user_spec (t_id t)) (timestamp now') (ie_user_jwt_ttl_secs env)) = Inr token"
  shows "\<exists>e i token w''. normalize_email email = Inr e \<and> find_by_provider_subject ''password'' e (adb w) = Some i \<and>
    api_token env now' jar' w' = (Inr token, w'') \<and>
    (\<forall>rq t allowed cache t'. bearer (rq_headers rq) = Some token \<and> rq_service rq = None \<and>
       length (rq_body rq) \<le> MAX_BODY_BYTES \<and> USER \<in> allowed \<and> t \<le> timestamp now' + ie_user_jwt_ttl_secs env \<longrightarrow>
       fst (authenticate ax allowed t t' rq cache) =
         Inr (UserCaller \<lparr>uc_tenant_id = i_tenant_id i, uc_user_id = i_tenant_id i, uc_network = None\<rparr>))"
proof -
  let ?ip = "client_ip headers addr" and ?x = "\<lambda>i. i_tenant_id i"
  from assms(2) obtain tok where p: "password_login env raw now email pw ?ip attempts w = (Inr tok, attempts', w')"
    and j: "jar' = jar_add (session_cookie tok) jar"
    by (auto simp: api_password_login_def sign_in_def from_identities_def split: prod.splits sum.splits)
  have "fst (password_login env raw now email pw ?ip attempts w) = Inr tok" by (simp add: p)
  then obtain e i h where e: "normalize_email email = Inr e" "find_by_provider_subject PROVIDER_PASSWORD e (adb w) = Some i"
    "i_secret_hash i = Some h" "ie_argon2_verify env h pw" and b: "fst (login_allowed ?ip (timestamp now) attempts)"
    unfolding password_login_iff by blast
  then have c: "create_session env raw now (?x i) w = (Inr tok, w')"
    using p by (auto simp: password_login_def id_normalize_email_def split: prod.splits bool.splits)
  have r: "tok = raw" by (rule create_session_Inr(1) [OF c])
  have f: "tenant_for_session env now' raw w' = Some (?x i)"
    by (rule exchange_fresh_session [OF assms(1) c [unfolded r] assms(3)])
  let ?c = "spec_claims (user_spec (?x i)) (timestamp now') (ie_user_jwt_ttl_secs env)"
  have "tenant_is_live (?x i) w" using c by (auto simp: create_session_def split: if_splits)
  then obtain u where "u \<in> set (tenants (adb w))" "t_id u = ?x i"
    by (auto dest!: tenant_is_live_exists simp: tenant_exists_def sql_exists_iff)
  then obtain token where t: "env_jwt_encode (ie_tenants env) ?c = Inr token" using assms(6) by metis
  have s: "sign (env_jwt_encode (ie_tenants env)) (user_spec (?x i)) (timestamp now') (ie_user_jwt_ttl_secs env) = Inr token"
    by (simp add: sign_Inr t)
  obtain w'' where "exchange_session env now' raw w' = (Inr token, w'')" using exchange_session_Inr f t by blast
  then have a: "api_token env now' jar' w' = (Inr token, w'')"
    by (simp add: api_token_def j r jar_add_def session_cookie_def from_identities_def)
  have v: "verify (ax_jwt_decode ax) ''tenants'' t' token = Inr ?c" if "t' \<le> timestamp now' + ie_user_jwt_ttl_secs env" for t'
    using that by (intro sign_verify [OF assms(4) s]) (auto simp: user_spec_def)
  show ?thesis
    using e(1,2) a v assms(5)
    by (intro exI [of _ e] exI [of _ i] exI [of _ token] exI [of _ w''])
      (auto simp: PROVIDER_PASSWORD_def authenticate_def spec_claims_def user_spec_def)
qed

section \<open>Examples\<close>

definition ex_stash :: oauth_stash where
  "ex_stash = \<lparr>os_csrf_state = ''st'', os_verifier = [], os_link_tenant = Some ''t1''\<rparr>"

definition ex_codec :: stash_codec where
  "ex_codec = \<lparr>stash_to_string = (\<lambda>s. Inr ''stash''), stash_from_str = (\<lambda>v. if v = ''stash'' then Some ex_stash else None)\<rparr>"

definition ex_jar :: cookie_jar where
  "ex_jar = jar_add (oauth_cookie ''stash'') (jar_add (session_cookie ''raw'') (\<lambda>_. None))"

lemma ex_jar_cookies: "ex_jar OAUTH_COOKIE = Some (oauth_cookie ''stash'')" "ex_jar SESSION_COOKIE = Some (session_cookie ''raw'')"
  by (simp_all add: ex_jar_def jar_add_def oauth_cookie_def session_cookie_def OAUTH_COOKIE_def SESSION_COOKIE_def)

theorem oidc_link_guarded_witness:
  "tenant_for_session ex_ids_env 5 ''raw'' ex_signed_in = Some ''t1''"
proof -
  have g: "github_exchange ex_github ''code'' [] = Inr \<lparr>vi_provider = ''github'', vi_subject = ''7'', vi_email = ''a@b.c'', vi_email_verified = True\<rparr>"
    by code_simp
  have e: "id_exchange ex_ids_env ''github'' ''code'' [] = Inr \<lparr>vi_provider = ''github'', vi_subject = ''7'', vi_email = ''a@b.c'', vi_email_verified = True\<rparr>"
    by (simp add: id_exchange_def id_provider_def ex_ids_env_def g)
  have t: "still_signed_in ex_ids_env 5 ''t1'' ex_jar ex_signed_in"
    by (simp add: still_signed_in_def ex_jar_cookies session_cookie_def tenant_for_session_def session_tenant_for_def session_live_def
        ex_signed_in_def ex_trial_eq ex_defs tenant_live_def hash_token_def ex_ids_env_def ex_env_def ex_crypto_def days_def secs_def)
  have f: "find_by_provider_subject ''github'' ''7'' (adb ex_signed_in) = Some (ex_row ''github'' ''7'')"
    by (simp add: ex_signed_in_def find_by_provider_subject_def of_login_def ex_row_def)
  have "api_oidc_callback ex_ids_env ex_codec ''spa'' [\<lambda>w. w] ''t2'' ''new'' 5 ''github'' ''code'' ''st'' ex_jar ex_signed_in =
      (Some (Inr (jar_remove (cleared OAUTH_COOKIE) ex_jar, ''spa'')), ex_signed_in)"
    using t by (simp add: api_oidc_callback_def read_stash_def ex_jar_cookies oauth_cookie_def ex_codec_def ex_stash_def Let_def
        link_identity_def e id_normalize_email_def ex_address f ex_row_def)
  from oidc_link_guarded [OF this ex_jar_cookies(1), of ex_stash "''t1''"] show ?thesis
    by (simp add: ex_codec_def oauth_cookie_def ex_stash_def ex_jar_cookies session_cookie_def)
qed

definition ex_user_claims :: claims where
  "ex_user_claims = spec_claims (user_spec ''t1'') 0 300"

definition ex_web_env :: identities_env where
  "ex_web_env = ex_ids_env\<lparr>ie_tenants := ex_env\<lparr>env_jwt_encode := (\<lambda>c. if c = ex_user_claims then Inr ''tok'' else Inl ''unsupported'')\<rparr>\<rparr>"

definition ex_web_context :: auth_context where
  "ex_web_context = \<lparr>ax_crypto = ex_crypto,
     ax_jwt_decode = (\<lambda>v now token. if token = ''tok'' \<and> passes v now ex_user_claims then Inr ex_user_claims else Inl ''no''),
     ax_service = ''tenants''\<rparr>"

definition ex_with_password :: authority where
  "ex_with_password = ex_trial\<lparr>adb := (adb ex_trial)\<lparr>tenant_identities :=
     [(ex_row ''password'' ''a@b.c'')\<lparr>i_secret_hash := Some ''$longenough''\<rparr>]\<rparr>\<rparr>"

lemma ex_with_password_wf: "db_wf (adb ex_with_password)"
  using ex_trial_wf by (simp add: ex_with_password_def ex_trial_eq ex_defs ex_row_def db_wf_defs references_def)

theorem web_login_admits_witness:
  "\<exists>jar' attempts' w' token w''.
     api_password_login ex_web_env ''raw'' 0 [] (V4 (203, 0, 113, 7), 51000) (\<lambda>_. None) ''a@b.c'' ''longenough'' (\<lambda>_. None) ex_with_password =
       (Inr (jar', 204), attempts', w') \<and>
     api_token ex_web_env 1 jar' w' = (Inr token, w'') \<and>
     (\<forall>rq. bearer (rq_headers rq) = Some token \<and> rq_service rq = None \<and> rq_body rq = [] \<longrightarrow>
       fst (authenticate ex_web_context {USER} 100 100 rq []) =
         Inr (UserCaller \<lparr>uc_tenant_id = ''t1'', uc_user_id = ''t1'', uc_network = None\<rparr>))"
proof -
  let ?addr = "(V4 (203, 0, 113, 7), 51000) :: socket_addr"
  have f: "find_by_provider_subject ''password'' ''a@b.c'' (adb ex_with_password) =
      Some ((ex_row ''password'' ''a@b.c'')\<lparr>i_secret_hash := Some ''$longenough''\<rparr>)"
    by (simp add: ex_with_password_def find_by_provider_subject_def of_login_def ex_row_def)
  have "fst (password_login ex_web_env ''raw'' 0 ''a@b.c'' ''longenough'' (client_ip [] ?addr) (\<lambda>_. None) ex_with_password) = Inr ''raw''"
    using ex_address f
    by (auto simp: password_login_iff PROVIDER_PASSWORD_def login_allowed_def LOGIN_ATTEMPTS_PER_IP_def LOGIN_WINDOW_SECS_def
        create_session_ok ex_web_env_def ex_ids_env_def)
      (simp_all add: ex_with_password_def ex_trial_eq ex_defs ex_row_def tenant_is_live_def tenant_find_by_id_def tenant_live_def)
  then obtain a' w' where "password_login ex_web_env ''raw'' 0 ''a@b.c'' ''longenough'' (client_ip [] ?addr) (\<lambda>_. None) ex_with_password =
      (Inr ''raw'', a', w')" by (metis prod.collapse)
  then obtain jar' a' w' where l: "api_password_login ex_web_env ''raw'' 0 [] ?addr (\<lambda>_. None) ''a@b.c'' ''longenough'' (\<lambda>_. None) ex_with_password =
      (Inr (jar', 204), a', w')"
    by (simp add: api_password_login_def sign_in_def from_identities_def)
  have "\<exists>e i token w''. normalize_email ''a@b.c'' = Inr e \<and> find_by_provider_subject ''password'' e (adb ex_with_password) = Some i \<and>
    api_token ex_web_env 1 jar' w' = (Inr token, w'') \<and>
    (\<forall>rq t allowed cache t'. bearer (rq_headers rq) = Some token \<and> rq_service rq = None \<and>
       length (rq_body rq) \<le> MAX_BODY_BYTES \<and> USER \<in> allowed \<and> t \<le> timestamp 1 + ie_user_jwt_ttl_secs ex_web_env \<longrightarrow>
       fst (authenticate ex_web_context allowed t t' rq cache) =
         Inr (UserCaller \<lparr>uc_tenant_id = i_tenant_id i, uc_user_id = i_tenant_id i, uc_network = None\<rparr>))"
    by (rule web_login_admits [OF ex_with_password_wf l])
      (simp_all add: days_def secs_def jwt_roundtrip_def ex_web_env_def ex_web_context_def ex_user_claims_def ex_ids_env_def timestamp_def
        ex_with_password_def ex_trial_eq ex_defs)
  with l ex_address f show ?thesis
    by (fastforce simp: ex_row_def ex_web_env_def ex_ids_env_def timestamp_def)
qed

end
