(* ===== verification/Composition.thy ===== *)
theory Composition
  imports Billing_Api Identities_Api
begin

text \<open>
  The composition root of the Tenants deployable (\<open>app-tenants/src\<close>, \<open>common/src/event.rs\<close>): the event streams of
  the three reactors, the reconcile that spans the tenant and license aggregates, the periodic loops, and
  the whole authority as one state machine over the commands of every aggregate. A stream may lag: the
  number of events it skipped is an argument of a reactor step.

  The theorems show that every constraint of the schema survives every run of the whole system, that a
  delivered deregistration reaches license and networks, that one reconcile repairs whatever lost events
  left behind for live tenants, and what it does not repair for deregistered ones.
\<close>

section \<open>Event streams and reactors\<close>

definition stream_next :: "nat \<Rightarrow> domain_event list \<Rightarrow> domain_event option \<times> domain_event list" where
  "stream_next skipped q = (case drop skipped q of [] \<Rightarrow> (None, []) | e # q' \<Rightarrow> (Some e, q'))"

definition run_subscription_reactor ::
  "trial_policy \<Rightarrow> nat \<Rightarrow> string \<Rightarrow> instant \<Rightarrow> authority \<Rightarrow> authority" where
  "run_subscription_reactor policy skipped i now w =
     (case stream_next skipped (subscription_queue w) of
        (None, q) \<Rightarrow> w\<lparr>subscription_queue := q\<rparr>
      | (Some e, q) \<Rightarrow> apply_to_subscription policy i now e (w\<lparr>subscription_queue := q\<rparr>))"

definition run_network_reactor :: "nat \<Rightarrow> instant \<Rightarrow> authority \<Rightarrow> authority" where
  "run_network_reactor skipped now w =
     (case stream_next skipped (network_queue w) of
        (None, q) \<Rightarrow> w\<lparr>network_queue := q\<rparr>
      | (Some e, q) \<Rightarrow> apply_to_network now e (w\<lparr>network_queue := q\<rparr>))"

definition run_identities_reactor :: "nat \<Rightarrow> authority \<Rightarrow> authority" where
  "run_identities_reactor skipped w =
     (case stream_next skipped (identities_queue w) of
        (None, q) \<Rightarrow> w\<lparr>identities_queue := q\<rparr>
      | (Some e, q) \<Rightarrow> apply_to_identities e (w\<lparr>identities_queue := q\<rparr>))"

section \<open>Reconcile and the periodic loops\<close>

fun reconcile_each ::
  "trial_policy \<Rightarrow> (string \<Rightarrow> string) \<Rightarrow> instant \<Rightarrow> string list \<Rightarrow> authority \<Rightarrow> (subscription_error + unit) \<times> authority" where
  "reconcile_each policy ids now [] w = (Inr (), w)"
| "reconcile_each policy ids now (x # xs) w =
     (if current x w \<noteq> None then reconcile_each policy ids now xs w
      else
        (case create_trial policy (ids x) now x w of
           (Inl e, w) \<Rightarrow> (Inl e, w)
         | (Inr created, w) \<Rightarrow>
             reconcile_each policy ids now xs (if created then w else deprovision_networks_for now x w)))"

definition reconcile ::
  "trial_policy \<Rightarrow> (string \<Rightarrow> string) \<Rightarrow> instant \<Rightarrow> authority \<Rightarrow> (subscription_error + unit) \<times> authority" where
  "reconcile policy ids now w = reconcile_each policy ids now (list_live_tenant_ids w) w"

definition sub_reaper_tick :: "trial_policy \<Rightarrow> (string \<Rightarrow> string) \<Rightarrow> instant \<Rightarrow> authority \<Rightarrow> authority" where
  "sub_reaper_tick policy ids now w = snd (reconcile policy ids now (snd (expire_overdue policy now w)))"

definition sweep_tick :: "authority \<Rightarrow> authority" where
  "sweep_tick w = snd (sweep_deregistered w)"

definition catalog_sync_step :: "'s stripe_gateway \<Rightarrow> bool \<Rightarrow> instant \<Rightarrow> 's billing \<Rightarrow> 's billing" where
  "catalog_sync_step gw notified now b = snd (sync_catalog gw now (if notified then b\<lparr>bl_resync := False\<rparr> else b))"

section \<open>The authority as one system\<close>

datatype app_cmd =
    WebTask "authority \<Rightarrow> authority" identities_cmd
  | BillingTask billing_cmd
  | SubscriptionReactor nat string instant
  | NetworkReactor nat instant
  | IdentitiesReactor nat
  | SubReaperTick "string \<Rightarrow> string" instant
  | SweepTick
  | CatalogSyncStep bool instant

record 's app =
  app_policy :: trial_policy
  app_env :: identities_env
  app_gateway :: "'s stripe_gateway"

fun app_exec :: "'s app \<Rightarrow> app_cmd \<Rightarrow> login_attempts \<times> 's billing \<Rightarrow> login_attempts \<times> 's billing" where
  "app_exec app (WebTask race c) (a, b) =
     (case identities_exec (app_env app) race c (a, bl_auth b) of (a, w) \<Rightarrow> (a, b\<lparr>bl_auth := w\<rparr>))"
| "app_exec app (BillingTask c) (a, b) = (a, billing_exec (app_gateway app) c b)"
| "app_exec app (SubscriptionReactor k i now) (a, b) =
     (a, b\<lparr>bl_auth := run_subscription_reactor (app_policy app) k i now (bl_auth b)\<rparr>)"
| "app_exec app (NetworkReactor k now) (a, b) = (a, b\<lparr>bl_auth := run_network_reactor k now (bl_auth b)\<rparr>)"
| "app_exec app (IdentitiesReactor k) (a, b) = (a, b\<lparr>bl_auth := run_identities_reactor k (bl_auth b)\<rparr>)"
| "app_exec app (SubReaperTick ids now) (a, b) =
     (a, b\<lparr>bl_auth := sub_reaper_tick (app_policy app) ids now (bl_auth b)\<rparr>)"
| "app_exec app SweepTick (a, b) = (a, b\<lparr>bl_auth := sweep_tick (bl_auth b)\<rparr>)"
| "app_exec app (CatalogSyncStep notified now) (a, b) = (a, catalog_sync_step (app_gateway app) notified now b)"

definition app_run :: "'s app \<Rightarrow> app_cmd list \<Rightarrow> login_attempts \<times> 's billing \<Rightarrow> login_attempts \<times> 's billing" where
  "app_run app cmds st = foldl (\<lambda>st c. app_exec app c st) st cmds"

fun app_race :: "app_cmd \<Rightarrow> authority \<Rightarrow> authority" where
  "app_race (WebTask race c) = race"
| "app_race (BillingTask c) = cmd_race c"
| "app_race c = (\<lambda>w. w)"

section \<open>Constraints\<close>

lemma apply_to_subscription_wf: "db_wf (adb w) \<Longrightarrow> db_wf (adb (apply_to_subscription policy i now e w))"
  by (cases e) (simp_all add: create_trial_wf cancel_wf)

lemma deprovision_wf: "db_wf (adb w) \<Longrightarrow> db_wf (adb (deprovision_networks_for now x w))"
  by (simp add: deprovision_networks_for_def set_deprovisioning_for_tenant_wf)

lemma apply_to_network_wf: "db_wf (adb w) \<Longrightarrow> db_wf (adb (apply_to_network now e w))"
  by (cases e) (simp_all add: deprovision_wf)

lemma apply_to_identities_wf: "db_wf (adb w) \<Longrightarrow> db_wf (adb (apply_to_identities e w))"
  by (cases e) (simp_all add: purge_for_def web_deletes_wf)

lemma reactors_wf:
  assumes "db_wf (adb w)"
  shows "db_wf (adb (run_subscription_reactor policy k i now w))" "db_wf (adb (run_network_reactor k now w))"
    "db_wf (adb (run_identities_reactor k w))"
  using assms
  by (auto simp: run_subscription_reactor_def run_network_reactor_def run_identities_reactor_def
      split: prod.splits option.splits intro!: apply_to_subscription_wf apply_to_network_wf apply_to_identities_wf)

lemma reconcile_each_wf: "db_wf (adb w) \<Longrightarrow> db_wf (adb (snd (reconcile_each policy ids now xs w)))"
proof (induction xs arbitrary: w)
  case (Cons x xs)
  show ?case
  proof (cases "current x w = None")
    case True
    obtain r v where c: "create_trial policy (ids x) now x w = (r, v)" by fastforce
    have "db_wf (adb v)" using create_trial_wf [OF Cons.prems] c by (metis snd_conv)
    then show ?thesis using True c Cons.IH by (cases r) (simp_all add: deprovision_wf)
  qed (use Cons in simp)
qed simp

lemma sub_reaper_tick_wf: "db_wf (adb w) \<Longrightarrow> db_wf (adb (sub_reaper_tick policy ids now w))"
  by (simp add: sub_reaper_tick_def reconcile_def reconcile_each_wf expire_overdue_wf)

lemma app_exec_wf:
  assumes "keeps db_wf (app_race c)" and "db_wf (adb (bl_auth (snd st)))"
  shows "db_wf (adb (bl_auth (snd (app_exec app c st))))"
proof -
  obtain a b where st: "st = (a, b)" by fastforce
  then have wf: "db_wf (adb (bl_auth b))" using assms(2) by simp
  show ?thesis
  proof (cases c)
    case (WebTask race d)
    obtain a' w where e: "identities_exec (app_env app) race d (a, bl_auth b) = (a', w)" by fastforce
    have "db_wf (adb w)"
      using web_wf.exec [of race "(a, bl_auth b)" d "app_env app"] assms(1) wf e WebTask by (simp add: option.pred_True)
    then show ?thesis by (simp add: st WebTask e)
  next
    case (BillingTask d)
    then show ?thesis using billing_wf.exec [OF _ wf] assms(1) by (simp add: st)
  next
    case (CatalogSyncStep notified now)
    then show ?thesis using wf by (simp add: st catalog_sync_step_def billing_wf.synced)
  qed (simp_all add: st reactors_wf [OF wf] sub_reaper_tick_wf [OF wf] sweep_tick_def sweep_adb delete_tombstoned_empty_wf [OF wf])
qed

section \<open>Reconcile\<close>

definition settled :: "string \<Rightarrow> authority \<Rightarrow> bool" where
  "settled x w =
     (find_current x (adb w) \<noteq> None \<or>
      list_all (\<lambda>n. n_tenant_id n = x \<longrightarrow> n_provisioning_state n = Deprovisioning) (networks (adb w)))"

lemma create_trial_shape:
  assumes "create_trial policy i now x w = (Inr created, v)"
  shows "networks (adb v) = networks (adb w)" and "tenants (adb v) = tenants (adb w)"
    and "created \<Longrightarrow> find_current x (adb v) \<noteq> None"
    and "y \<noteq> x \<or> \<not> created \<Longrightarrow> find_current y (adb v) = find_current y (adb w)"
    and "sql_exists (\<lambda>s. s_id s = j) (subscriptions (adb v)) \<Longrightarrow> j = i \<or> sql_exists (\<lambda>s. s_id s = j) (subscriptions (adb w))"
proof -
  let ?sub = "\<lparr>s_id = i, s_tenant_id = x, s_status = Trialing, s_entitlement = entitlement_DEFAULT,
    s_trial_expires_at = Some (now + days (trial_days policy)), s_current_period_end = None, s_created_at = now, s_updated_at = now\<rparr>"
  have v: "v = w\<lparr>adb := if created then (adb w)\<lparr>subscriptions := subscriptions (adb w) @ [?sub]\<rparr> else adb w\<rparr>"
    using assms by (auto simp: create_trial_def repo_create_trial_def Let_def split: if_splits)
  show "networks (adb v) = networks (adb w)" "tenants (adb v) = tenants (adb w)" by (simp_all add: v)
  show "created \<Longrightarrow> find_current x (adb v) \<noteq> None"
    by (simp add: v find_current_def find_append live_of_def sub_live_def split: option.split)
  show "y \<noteq> x \<or> \<not> created \<Longrightarrow> find_current y (adb v) = find_current y (adb w)"
    by (auto simp: v find_current_def find_append live_of_def split: option.split)
  show "sql_exists (\<lambda>s. s_id s = j) (subscriptions (adb v)) \<Longrightarrow> j = i \<or> sql_exists (\<lambda>s. s_id s = j) (subscriptions (adb w))"
    by (auto simp: v split: if_splits)
qed

lemma create_trial_ok:
  "tenant_exists x (adb w) \<Longrightarrow> \<not> sql_exists (\<lambda>s. s_id s = i) (subscriptions (adb w)) \<Longrightarrow>
    \<exists>created v. create_trial policy i now x w = (Inr created, v)"
  by (auto simp: create_trial_def repo_create_trial_def Let_def)

lemma deprovision_frame [simp]:
  "subscriptions (adb (deprovision_networks_for now x w)) = subscriptions (adb w)"
  "tenants (adb (deprovision_networks_for now x w)) = tenants (adb w)"
  by (simp_all add: deprovision_networks_for_def set_deprovisioning_for_tenant_def)

lemma deprovision_settles: "settled x (deprovision_networks_for now x w)"
proof -
  have "n_provisioning_state n = Deprovisioning" if "n_provisioning_state n \<noteq> Active" "n_provisioning_state n \<noteq> Provisioning" for n
    using that by (cases "n_provisioning_state n") auto
  then have "\<forall>n \<in> set (networks (adb (deprovision_networks_for now x w))). n_tenant_id n = x \<longrightarrow>
      n_provisioning_state n = Deprovisioning"
    unfolding deprovision_networks_for_def set_deprovisioning_for_tenant_def by (simp add: Ball_sql_update) blast
  then show ?thesis unfolding settled_def list_all_iff by (rule disjI2)
qed

lemma deprovision_keeps_settled:
  assumes "settled y w"
  shows "settled y (deprovision_networks_for now x w)"
proof (cases "find_current y (adb w)")
  case None
  with assms have "\<forall>n \<in> set (networks (adb w)). n_tenant_id n = y \<longrightarrow> n_provisioning_state n = Deprovisioning"
    by (simp add: settled_def list_all_iff)
  then have "\<forall>n \<in> set (networks (adb (deprovision_networks_for now x w))). n_tenant_id n = y \<longrightarrow>
      n_provisioning_state n = Deprovisioning"
    unfolding deprovision_networks_for_def set_deprovisioning_for_tenant_def by (simp add: Ball_sql_update)
  then show ?thesis unfolding settled_def list_all_iff by (rule disjI2)
qed (simp add: settled_def find_current_cong [OF deprovision_frame(1)])

lemma reconcile_step:
  assumes "create_trial policy i now x w = (Inr created, v)" and "v' = (if created then v else deprovision_networks_for now x v)"
  shows "settled x v'" and "settled y w \<Longrightarrow> settled y v'" and "tenants (adb v') = tenants (adb w)"
    and "sql_exists (\<lambda>s. s_id s = j) (subscriptions (adb v')) \<Longrightarrow> j = i \<or> sql_exists (\<lambda>s. s_id s = j) (subscriptions (adb w))"
proof -
  note c = create_trial_shape [OF assms(1)]
  show "settled x v'" using c(3) deprovision_settles by (simp add: assms(2) settled_def)
  show "settled y v'" if y: "settled y w"
  proof (cases "created \<and> y = x")
    case False
    then have "settled y v" using y c(1) c(4) [of y] by (auto simp: settled_def)
    then show ?thesis by (simp add: assms(2) deprovision_keeps_settled)
  qed (use c(3) in \<open>simp add: assms(2) settled_def\<close>)
  show "tenants (adb v') = tenants (adb w)" using c(2) by (simp add: assms(2))
  show "j = i \<or> sql_exists (\<lambda>s. s_id s = j) (subscriptions (adb w))" if "sql_exists (\<lambda>s. s_id s = j) (subscriptions (adb v'))"
    using that c(5) by (auto simp: assms(2) split: if_splits)
qed

lemma reconcile_each_settles:
  assumes "inj ids" and "\<forall>x \<in> set xs. tenant_exists x (adb w)" and "distinct xs"
    and "\<forall>x \<in> set xs. \<not> sql_exists (\<lambda>s. s_id s = ids x) (subscriptions (adb w))"
  shows "\<exists>v. reconcile_each policy ids now xs w = (Inr (), v) \<and> (\<forall>x \<in> set xs. settled x v) \<and>
    (\<forall>y. settled y w \<longrightarrow> settled y v) \<and> tenants (adb v) = tenants (adb w)"
  using assms(2-)
proof (induction xs arbitrary: w)
  case (Cons x xs)
  show ?case
  proof (cases "current x w = None")
    case False
    then have "settled x w" by (simp add: settled_def current_def)
    then show ?thesis using Cons False by fastforce
  next
    case True
    obtain created v where c: "create_trial policy (ids x) now x w = (Inr created, v)"
      using create_trial_ok Cons.prems by fastforce
    define v' where v': "v' = (if created then v else deprovision_networks_for now x v)"
    note s = reconcile_step [OF c v']
    have "\<forall>y \<in> set xs. tenant_exists y (adb v')" using Cons.prems(1) s(3) by (simp add: tenant_exists_iff)
    moreover have "\<forall>y \<in> set xs. \<not> sql_exists (\<lambda>s. s_id s = ids y) (subscriptions (adb v'))"
      using Cons.prems(2,3) s(4) injD [OF assms(1)] by fastforce
    ultimately obtain u where "reconcile_each policy ids now xs v' = (Inr (), u)" "\<forall>y \<in> set xs. settled y u"
      "\<forall>y. settled y v' \<longrightarrow> settled y u" "tenants (adb u) = tenants (adb v')"
      using Cons.IH [of v'] Cons.prems(2) by auto
    then show ?thesis using True c v' s by auto
  qed
qed simp

section \<open>A deregistration whose event was lost\<close>

definition tombstoned_paid :: "string \<Rightarrow> subscription \<Rightarrow> network list \<Rightarrow> authority \<Rightarrow> bool" where
  "tombstoned_paid x s ns w =
     (db_wf (adb w) \<and> (\<exists>t \<in> set (tenants (adb w)). t_id t = x \<and> \<not> tenant_live t) \<and>
      find_current x (adb w) = Some s \<and> s_status s = SubActive \<and>
      filter (\<lambda>n. n_tenant_id n = x) (networks (adb w)) = ns \<and> ns \<noteq> [])"

lemma tombstoned_not_listed: "tombstoned_paid x s ns w \<Longrightarrow> x \<notin> set (list_live_tenant_ids w)"
proof -
  assume t: "tombstoned_paid x s ns w"
  then obtain t where "t \<in> set (tenants (adb w))" "t_id t = x" "\<not> tenant_live t" by (auto simp: tombstoned_paid_def)
  moreover have "inj_on t_id (set (tenants (adb w)))"
    using t by (simp add: tombstoned_paid_def db_wf_tenant_id [unfolded distinct_map])
  ultimately show ?thesis by (auto simp: list_live_tenant_ids_def list_live_ids_def inj_on_def)
qed

lemma tombstoned_reconcile_each:
  "x \<notin> set xs \<Longrightarrow> tombstoned_paid x s ns w \<Longrightarrow> tombstoned_paid x s ns (snd (reconcile_each policy ids now xs w))"
proof (induction xs arbitrary: w)
  case (Cons y xs)
  have y: "y \<noteq> x" "x \<notin> set xs" using Cons.prems(1) by auto
  show ?case
  proof (cases "current y w = None")
    case True
    obtain r v where c: "create_trial policy (ids y) now y w = (r, v)" by fastforce
    have wf: "db_wf (adb v)" using Cons.prems(2) create_trial_wf [of w policy "ids y" now y] c by (simp add: tombstoned_paid_def)
    show ?thesis
    proof (cases r)
      case (Inl e)
      then have "v = w" using c by (auto simp: create_trial_def Let_def split: sum.splits)
      then show ?thesis using True c Inl Cons.prems(2) by simp
    next
      case (Inr created)
      note sh = create_trial_shape [OF c [unfolded Inr]]
      have v: "tombstoned_paid x s ns v" using Cons.prems(2) wf sh(1,2) sh(4) [of x] y by (simp add: tombstoned_paid_def)
      have "filter (\<lambda>n. n_tenant_id n = x) (networks (adb (deprovision_networks_for now y v))) =
          filter (\<lambda>n. n_tenant_id n = x) (networks (adb v))"
        using y by (auto simp: deprovision_networks_for_def set_deprovisioning_for_tenant_def intro!: filter_sql_update_other)
      then have "tombstoned_paid x s ns (deprovision_networks_for now y v)"
        using v deprovision_wf [OF wf] by (simp add: tombstoned_paid_def find_current_cong [OF deprovision_frame(1)])
      then show ?thesis using True c Inr Cons.IH [OF y(2)] v by simp
    qed
  qed (use Cons y in simp)
qed simp

lemma expire_overdue_frame:
  "tenants (adb (snd (expire_overdue policy now w))) = tenants (adb w)"
  "networks (adb (snd (expire_overdue policy now w))) = networks (adb w)"
proof -
  have "tenants (adb (foldl (\<lambda>w x. cancel now x w) w xs)) = tenants (adb w) \<and>
      networks (adb (foldl (\<lambda>w x. cancel now x w) w xs)) = networks (adb w)" for xs
    by (induction xs arbitrary: w) (simp_all add: cancel_adb cancel_current_def)
  then show "tenants (adb (snd (expire_overdue policy now w))) = tenants (adb w)"
    "networks (adb (snd (expire_overdue policy now w))) = networks (adb w)" by (simp_all add: expire_overdue_def Let_def)
qed

lemma tombstoned_reaper: "tombstoned_paid x s ns w \<Longrightarrow> tombstoned_paid x s ns (sub_reaper_tick policy ids now w)"
proof -
  assume t: "tombstoned_paid x s ns w"
  let ?v = "snd (expire_overdue policy now w)"
  have "\<not> overdue_at policy now s" using t by (simp add: tombstoned_paid_def overdue_at_def overdue_def)
  then have "find_current x (adb ?v) = Some s"
    using t list_overdue_iff [of "adb w" x s now policy]
    by (simp add: tombstoned_paid_def expire_overdue_def Let_def foldl_cancel_current)
  then have v: "tombstoned_paid x s ns ?v"
    using t expire_overdue_wf [of w policy now] by (simp add: tombstoned_paid_def expire_overdue_frame)
  show ?thesis unfolding sub_reaper_tick_def reconcile_def
    by (rule tombstoned_reconcile_each [OF tombstoned_not_listed [OF v] v])
qed

lemma find_current_filter: "find_current x d = find sub_live (filter (\<lambda>s. s_tenant_id s = x) (subscriptions d))"
proof -
  have "find (live_of x) t = find sub_live (filter (\<lambda>s. s_tenant_id s = x) t)" for t by (induction t) (auto simp: live_of_def)
  then show ?thesis by (simp add: find_current_def)
qed

lemma tombstoned_sweep: "tombstoned_paid x s ns w \<Longrightarrow> tombstoned_paid x s ns (sweep_tick w)"
proof -
  assume t: "tombstoned_paid x s ns w"
  obtain n w' where e: "sweep_deregistered w = (n, w')" by fastforce
  have wf: "db_wf (adb w)" and net: "filter (\<lambda>n. n_tenant_id n = x) (networks (adb w)) \<noteq> []"
    using t by (auto simp: tombstoned_paid_def)
  note sp = sweep_spec [OF wf e, of x]
  obtain u where u: "u \<in> set (tenants (adb w))" "t_id u = x" "\<not> tenant_live u" using t by (auto simp: tombstoned_paid_def)
  have "0 < network_count_by_tenant x (adb w)"
    using net by (auto simp: network_count_by_tenant_def sql_count_def filter_empty_conv)
  then have u': "u \<in> set (tenants (adb w'))" using sp u by auto
  then have "tenant_exists x (adb w')" using u(2) by (auto simp: tenant_exists_iff)
  then have "find_current x (adb w') = find_current x (adb w)" using sp by (simp add: find_current_filter)
  moreover have "db_wf (adb w')" using sweep_adb [of w] e delete_tombstoned_empty_wf [OF wf] by simp
  ultimately show ?thesis using t sp u u' by (auto simp: tombstoned_paid_def sweep_tick_def e)
qed

section \<open>Properties\<close>

definition ex_app :: "unit app" where
  "ex_app = \<lparr>app_policy = ex_policy, app_env = ex_ids_env, app_gateway = ex_gateway\<rparr>"



text \<open>C13. Reconcile repairs what lost events left behind for live tenants: given fresh row ids it always completes, and
  afterwards every live tenant either has a current subscription or only networks that are being torn down.\<close>

theorem reconcile_restores:
  assumes "db_wf (adb w)" and "inj ids" and "\<forall>x. \<not> sql_exists (\<lambda>s. s_id s = ids x) (subscriptions (adb w))"
  shows "\<exists>v. reconcile policy ids now w = (Inr (), v) \<and>
    (\<forall>t \<in> set (tenants (adb v)). tenant_live t \<longrightarrow> find_current (t_id t) (adb v) \<noteq> None \<or>
      (\<forall>n \<in> set (networks (adb v)). n_tenant_id n = t_id t \<longrightarrow> n_provisioning_state n = Deprovisioning))"
proof -
  have ex: "\<forall>x \<in> set (list_live_tenant_ids w). tenant_exists x (adb w)"
    by (auto simp: list_live_tenant_ids_def list_live_ids_def tenant_exists_iff)
  have "distinct (list_live_tenant_ids w)"
    using db_wf_tenant_id [OF assms(1)] by (simp add: list_live_tenant_ids_def list_live_ids_def distinct_map_filter)
  then obtain v where v: "reconcile policy ids now w = (Inr (), v)" "\<forall>x \<in> set (list_live_tenant_ids w). settled x v"
    "tenants (adb v) = tenants (adb w)"
    using reconcile_each_settles [OF assms(2) ex, of policy now] assms(3) by (auto simp: reconcile_def)
  have "settled (t_id t) v" if "t \<in> set (tenants (adb v))" "tenant_live t" for t
    using v(2,3) that by (auto simp: list_live_tenant_ids_def list_live_ids_def)
  then show ?thesis using v(1) by (auto simp: settled_def list_all_iff)
qed

theorem reconcile_restores_witness: "\<exists>v. reconcile ex_policy (\<lambda>x. CHR ''r'' # x) 9 ex_trial = (Inr (), v)"
proof -
  have "\<forall>x. \<not> sql_exists (\<lambda>s. s_id s = CHR ''r'' # x) (subscriptions (adb ex_trial))"
    by (simp add: ex_trial_eq)
  moreover have "inj (\<lambda>x. CHR ''r'' # x)" by (simp add: inj_def)
  ultimately show ?thesis using reconcile_restores [OF ex_trial_wf, of "\<lambda>x. CHR ''r'' # x" ex_policy 9] by blast
qed

text \<open>A deregistration that is delivered reaches everything: after the license reactor and the network reactor took
  their events, the tenant has no license and all of its networks are being torn down.\<close>

theorem deregistration_cascade:
  assumes "deregister_tenant now x w = (Inr True, w1)" and "subscription_queue w = []" and "network_queue w = []"
    and "find_current x (adb w) \<noteq> None"
    and "w2 = run_subscription_reactor policy 0 i now1 w1"
    and "w3 = run_network_reactor 0 now2 (run_network_reactor 0 now2 w2)"
  shows "find_current x (adb w3) = None \<and>
    (\<forall>n \<in> set (networks (adb w3)). n_tenant_id n = x \<longrightarrow> n_provisioning_state n = Deprovisioning)"
proof -
  have w1: "w1 = publish (TenantDeregistered x) (w\<lparr>adb := snd (set_deregistered now x (adb w))\<rparr>)"
    using assms(1) by (auto simp: deregister_tenant_def split: if_splits prod.splits bool.splits)
  have s1: "subscriptions (adb w1) = subscriptions (adb w)" by (simp add: w1 set_deregistered_def)
  have q: "subscription_queue w1 = [TenantDeregistered x]" "network_queue w1 = [TenantDeregistered x]"
    using assms(2,3) by (simp_all add: w1)
  have "sql_exists (live_of x) (subscriptions (adb w1))"
    using assms(4) by (simp add: s1 find_current_def find_None_exists)
  then have w2: "w2 = publish (SubscriptionDeactivated x)
      (w1\<lparr>subscription_queue := [], adb := snd (cancel_current x now1 (adb w1))\<rparr>)"
    by (simp add: assms(5) run_subscription_reactor_def stream_next_def q cancel_def cancel_current_def)
  have w3: "w3 = deprovision_networks_for now2 x (w2\<lparr>network_queue := []\<rparr>)"
    using q by (simp add: assms(6) run_network_reactor_def stream_next_def w2)
  have "find_current x (adb w3) = None"
    by (simp add: w3 find_current_cong [OF deprovision_frame(1)] w2 cancel_current_find)
  then show ?thesis using deprovision_settles [of x now2 "w2\<lparr>network_queue := []\<rparr>"] by (simp add: settled_def w3 list_all_iff)
qed

theorem deregistration_cascade_witness:
  "\<exists>w3. find_current ''t1'' (adb w3) = None \<and> w3 = run_network_reactor 0 7 (run_network_reactor 0 7
     (run_subscription_reactor ex_policy 0 [] 6 (snd (deregister_tenant 5 ''t1'' ex_trial))))"
proof -
  have d: "deregister_tenant 5 ''t1'' ex_trial = (Inr True, snd (deregister_tenant 5 ''t1'' ex_trial))"
    by (simp add: deregister_tenant_def ex_trial_eq ex_defs tenant_find_by_id_def set_deregistered_def tenant_live_def)
  have "subscription_queue ex_trial = []" "network_queue ex_trial = []" "find_current ''t1'' (adb ex_trial) \<noteq> None"
    by (simp_all add: ex_trial_eq ex_defs find_current_def live_of_def sub_live_def)
  then show ?thesis using deregistration_cascade [OF d _ _ _ refl refl] by blast
qed

text \<open>C38. A deregistration whose event is lost is not repaired: while a paid license is still active, no sequence of reaper,
  reconcile and sweep passes cancels it, tears down a network of the deregistered tenant, or removes the tenant, because
  reconcile looks at live tenants only and the sweep waits for the networks to go.\<close>

theorem dropped_deregistration_stuck:
  assumes "db_wf (adb (bl_auth b))" and "t \<in> set (tenants (adb (bl_auth b)))" and "t_id t = x" and "t_deregistered_at t \<noteq> None"
    and "find_current x (adb (bl_auth b)) = Some s" and "s_status s = SubActive"
    and "filter (\<lambda>n. n_tenant_id n = x) (networks (adb (bl_auth b))) = ns" and "ns \<noteq> []"
    and "list_all (\<lambda>c. c = SweepTick \<or> (\<exists>ids now. c = SubReaperTick ids now)) cmds"
    and "app_run app cmds (a, b) = (a', b')"
  shows "find_current x (adb (bl_auth b')) = Some s \<and> port_is_active policy later x (bl_auth b') \<and>
    tenant_exists x (adb (bl_auth b')) \<and> filter (\<lambda>n. n_tenant_id n = x) (networks (adb (bl_auth b'))) = ns"
proof -
  have "tombstoned_paid x s ns (bl_auth b)" using assms(1-8) by (auto simp: tombstoned_paid_def tenant_live_def)
  then have "tombstoned_paid x s ns (bl_auth (snd (app_run app cmds (a, b))))"
    using assms(9)
  proof (induction cmds arbitrary: b)
    case (Cons c cmds)
    obtain b1 where b1: "app_exec app c (a, b) = (a, b1)" "tombstoned_paid x s ns (bl_auth b1)"
      using Cons.prems tombstoned_reaper tombstoned_sweep by fastforce
    then show ?case using Cons.IH [of b1] Cons.prems(2) by (simp add: app_run_def)
  qed (simp add: app_run_def)
  then show ?thesis
    by (auto simp: assms(10) tombstoned_paid_def port_is_active_def sub_is_active_def tenant_exists_iff)
qed

theorem dropped_deregistration_stuck_witness:
  "\<exists>b. (\<forall>t \<in> set (tenants (adb (bl_auth (b :: unit billing)))). t_deregistered_at t = Some 5) \<and>
     port_is_active ex_policy (days 900) ''t1'' (bl_auth (snd (app_run ex_app [SubReaperTick (\<lambda>x. x) (days 800), SweepTick] (\<lambda>_. None, b))))"
proof -
  let ?t = "ex_tenant\<lparr>t_deregistered_at := Some 5\<rparr>" and ?n = "ex_net ''n1''"
  let ?s = "\<lparr>s_id = ''s1'', s_tenant_id = ''t1'', s_status = SubActive, s_entitlement = entitlement_DEFAULT,
      s_trial_expires_at = None, s_current_period_end = None, s_created_at = 0, s_updated_at = 0\<rparr>"
  let ?b = "ex_billing\<lparr>bl_auth := start (empty_db\<lparr>tenants := [?t], subscriptions := [?s], networks := [?n]\<rparr>)\<rparr>"
  obtain a' b' where r: "app_run ex_app [SubReaperTick (\<lambda>x. x) (days 800), SweepTick] (\<lambda>_. None, ?b) = (a', b')" by fastforce
  have "db_wf (adb (bl_auth ?b))"
    by (simp add: db_wf_defs start_def empty_db_def unique_where_def references_def sub_live_def tenant_live_def ex_tenant_def ex_net_def)
  moreover have "find_current ''t1'' (adb (bl_auth ?b)) = Some ?s"
    by (simp add: start_def find_current_def live_of_def sub_live_def)
  moreover have "filter (\<lambda>n. n_tenant_id n = ''t1'') (networks (adb (bl_auth ?b))) = [?n]" by (simp add: start_def ex_net_def)
  ultimately have "port_is_active ex_policy (days 900) ''t1'' (bl_auth b')"
    using dropped_deregistration_stuck [of ?b ?t "''t1''" ?s "[?n]" "[SubReaperTick (\<lambda>x. x) (days 800), SweepTick]" ex_app "\<lambda>_. None" a' b']
      r by (simp add: start_def ex_tenant_def)
  then show ?thesis using r by (intro exI [of _ ?b]) (simp add: start_def)
qed

end
