(* ===== verification/Config.thy ===== *)
theory Config
  imports Rotation Composition
begin

text \<open>
  Configuration and boot (\<open>common/src/config.rs\<close>, the \<open>config.rs\<close> of the three services, \<open>tenants/src/email.rs\<close> and
  the part of \<open>app-tenants/src/main.rs\<close> that assembles the services): the environment is a function from variable
  names to values, a configuration is read from it or refused with the first missing variable, its log form
  is the list of the fields it prints, and the environment records the other theories take as arguments
  are built from it. What the mail service, the OpenID library, the template engine and the key parsers
  do are the fields of \<open>boot_libs\<close>.

  The lemmas: the log form of a configuration does not depend on its secrets; a malformed number is
  refused by two services and replaced by its default in the third. The theorem follows one boot to the
  HTTP answers of the running service.
\<close>

section \<open>Reading the environment\<close>

type_synonym environment = "string \<Rightarrow> string option"

definition required :: "environment \<Rightarrow> string \<Rightarrow> string + string" where
  "required env k = ok_or (''required environment variable `'' @ k @ ''` is not set'') (env k)"

definition read_secret_file :: "(string \<Rightarrow> string + string) \<Rightarrow> environment \<Rightarrow> string \<Rightarrow> string + string" where
  "read_secret_file read env path_var =
     bind_result (required env path_var) (\<lambda>path.
       map_err (\<lambda>e. ''failed to read secret file at `'' @ path_var @ ''` ('' @ path @ ''): '' @ e) (read path))"

definition load_jwt_signing_key_pem :: "(string \<Rightarrow> string + string) \<Rightarrow> environment \<Rightarrow> string + string" where
  "load_jwt_signing_key_pem read env = read_secret_file read env ''JWT_SIGNING_KEY_PATH''"

definition load_jwt_verify_key_pem :: "(string \<Rightarrow> string + string) \<Rightarrow> environment \<Rightarrow> string + string" where
  "load_jwt_verify_key_pem read env = read_secret_file read env ''JWT_VERIFY_KEY_PATH''"

definition var_or :: "environment \<Rightarrow> string \<Rightarrow> string \<Rightarrow> string" where
  "var_or env k dflt = (case env k of None \<Rightarrow> dflt | Some v \<Rightarrow> v)"

definition opt :: "environment \<Rightarrow> string \<Rightarrow> string option" where
  "opt env k = (case env k of None \<Rightarrow> None | Some v \<Rightarrow> if v = [] then None else Some v)"

text \<open>\<open>str::parse::<u64>\<close> with the text of its error.\<close>

fun u64_digits :: "nat \<Rightarrow> string \<Rightarrow> string + nat" where
  "u64_digits acc [] = Inr acc"
| "u64_digits acc (c # cs) =
     (case digit_val c of
        None \<Rightarrow> Inl ''invalid digit found in string''
      | Some n \<Rightarrow>
          if 10 * acc + n < 2 ^ 64 then u64_digits (10 * acc + n) cs
          else Inl ''number too large to fit in target type'')"

definition parse_u64 :: "string \<Rightarrow> string + nat" where
  "parse_u64 s =
     (if s = [] then Inl ''cannot parse integer from empty string''
      else if s = ''+'' then Inl ''invalid digit found in string''
      else u64_digits 0 (if hd s = CHR ''+'' then tl s else s))"

definition parse_secs :: "environment \<Rightarrow> string \<Rightarrow> nat \<Rightarrow> string + nat" where
  "parse_secs env k dflt =
     (case env k of
        Some v \<Rightarrow> map_err (\<lambda>e. k @ '' must be a non-negative integer: '' @ e) (parse_u64 v)
      | None \<Rightarrow> Inr dflt)"

definition u64_or :: "environment \<Rightarrow> string \<Rightarrow> nat \<Rightarrow> nat" where
  "u64_or env k dflt = (case env k of None \<Rightarrow> dflt | Some v \<Rightarrow> case parse_u64 v of Inl _ \<Rightarrow> dflt | Inr n \<Rightarrow> n)"

definition i64_or :: "environment \<Rightarrow> string \<Rightarrow> int \<Rightarrow> int" where
  "i64_or env k dflt = (case env k of None \<Rightarrow> dflt | Some v \<Rightarrow> case parse_i64 v of None \<Rightarrow> dflt | Some n \<Rightarrow> n)"

datatype debug_value = DStr string | DStrs "string list" | DNum int | DOpt "string option"

definition redacted :: string where "redacted = ''<redacted>''"

section \<open>The Tenants service\<close>

definition COOKIE_KEY_MIN_BYTES :: nat where "COOKIE_KEY_MIN_BYTES = 64"

definition DEFAULT_USER_JWT_TTL_SECS :: int where "DEFAULT_USER_JWT_TTL_SECS = 300"

record tenants_config =
  tcf_global_database_url :: string
  tcf_region :: string
  tcf_known_regions :: "string list"
  tcf_api_listen_addr :: string
  tcf_mesh_listen_addr :: string
  tcf_mesh :: mesh_paths
  tcf_sweep_interval_secs :: nat
  tcf_policy :: trial_policy
  tcf_sub_reaper_interval_secs :: nat
  tcf_catalog_sync_interval_secs :: nat
  tcf_catalog_stale_secs :: int
  tcf_stripe_secret_key :: string
  tcf_stripe_webhook_secret :: string
  tcf_account_base_url :: string
  tcf_resend_api_key :: "string option"
  tcf_email_from :: string
  tcf_email_logo_url :: string
  tcf_cookie_key :: string
  tcf_user_jwt_ttl_secs :: int
  tcf_oauth_redirect_base :: string
  tcf_google_client_id :: "string option"
  tcf_google_client_secret :: "string option"
  tcf_github_client_id :: "string option"
  tcf_github_client_secret :: "string option"

definition known_regions_of :: "string \<Rightarrow> string list" where
  "known_regions_of s = filter (\<lambda>r. r \<noteq> []) (map trim (split_on (CHR '','') s))"

definition tenants_from_env :: "environment \<Rightarrow> string + tenants_config" where
  "tenants_from_env env =
     bind_result (required env ''ACCOUNT_BASE_URL'') (\<lambda>account_base_url.
     bind_result (required env ''COOKIE_KEY'') (\<lambda>cookie_key.
     if length cookie_key < COOKIE_KEY_MIN_BYTES
     then Inl (''COOKIE_KEY must be at least '' @ show_nat COOKIE_KEY_MIN_BYTES @ '' bytes (got '' @ show_nat (length cookie_key) @ '')'')
     else bind_result (required env ''GLOBAL_DATABASE_URL'') (\<lambda>database_url.
     bind_result (required env ''INFORGE_DEPLOYMENT_REGION_SLUG'') (\<lambda>region.
     bind_result (required env ''KNOWN_REGIONS'') (\<lambda>known_regions.
     bind_result (required env ''MTLS_TRUST_BUNDLE_PATH'') (\<lambda>bundle.
     bind_result (required env ''MTLS_LEAF_CERT_PATH'') (\<lambda>leaf.
     bind_result (required env ''MTLS_LEAF_KEY_PATH'') (\<lambda>key.
     bind_result (required env ''STRIPE_SECRET_KEY'') (\<lambda>stripe_secret.
     bind_result (required env ''STRIPE_WEBHOOK_SECRET'') (\<lambda>webhook_secret.
     Inr \<lparr>tcf_global_database_url = database_url, tcf_region = region, tcf_known_regions = known_regions_of known_regions,
          tcf_api_listen_addr = var_or env ''API_LISTEN_ADDR'' ''127.0.0.1:8080'',
          tcf_mesh_listen_addr = var_or env ''MESH_LISTEN_ADDR'' ''127.0.0.1:9443'',
          tcf_mesh = \<lparr>leaf_cert_path = leaf, leaf_key_path = key, trust_bundle_path = bundle\<rparr>,
          tcf_sweep_interval_secs = u64_or env ''TENANT_SWEEP_INTERVAL_SECS'' 3600,
          tcf_policy = \<lparr>trial_days = i64_or env ''TRIAL_DAYS'' 60, trial_grace_days = i64_or env ''TRIAL_GRACE_DAYS'' 15,
            payment_grace_days = i64_or env ''PAYMENT_GRACE_DAYS'' 15\<rparr>,
          tcf_sub_reaper_interval_secs = u64_or env ''SUB_REAPER_INTERVAL_SECS'' 3600,
          tcf_catalog_sync_interval_secs = u64_or env ''CATALOG_SYNC_INTERVAL_SECS'' 18000,
          tcf_catalog_stale_secs = i64_or env ''CATALOG_STALE_SECS'' 432000,
          tcf_stripe_secret_key = stripe_secret, tcf_stripe_webhook_secret = webhook_secret,
          tcf_account_base_url = account_base_url, tcf_resend_api_key = opt env ''RESEND_API_KEY'',
          tcf_email_from = var_or env ''EMAIL_FROM'' ''wardnet <noreply@wardnet.io>'',
          tcf_email_logo_url = (case opt env ''EMAIL_LOGO_URL'' of None \<Rightarrow> [] | Some u \<Rightarrow> u), tcf_cookie_key = cookie_key,
          tcf_user_jwt_ttl_secs = i64_or env ''USER_JWT_TTL_SECS'' DEFAULT_USER_JWT_TTL_SECS,
          tcf_oauth_redirect_base = (case opt env ''OAUTH_REDIRECT_BASE'' of None \<Rightarrow> account_base_url | Some u \<Rightarrow> u),
          tcf_google_client_id = opt env ''GOOGLE_CLIENT_ID'', tcf_google_client_secret = opt env ''GOOGLE_CLIENT_SECRET'',
          tcf_github_client_id = opt env ''GITHUB_CLIENT_ID'', tcf_github_client_secret = opt env ''GITHUB_CLIENT_SECRET''\<rparr>))))))))))"

definition tenants_config_fmt :: "tenants_config \<Rightarrow> (string \<times> debug_value) list" where
  "tenants_config_fmt c =
     [(''global_database_url'', DStr redacted), (''region'', DStr (tcf_region c)),
      (''known_regions'', DStrs (tcf_known_regions c)), (''api_listen_addr'', DStr (tcf_api_listen_addr c)),
      (''mesh_listen_addr'', DStr (tcf_mesh_listen_addr c)), (''trust_bundle_path'', DStr (trust_bundle_path (tcf_mesh c))),
      (''leaf_cert_path'', DStr (leaf_cert_path (tcf_mesh c))), (''leaf_key_path'', DStr (leaf_key_path (tcf_mesh c))),
      (''sweep_interval_secs'', DNum (int (tcf_sweep_interval_secs c))), (''trial_days'', DNum (trial_days (tcf_policy c))),
      (''trial_grace_days'', DNum (trial_grace_days (tcf_policy c))),
      (''payment_grace_days'', DNum (payment_grace_days (tcf_policy c))),
      (''sub_reaper_interval_secs'', DNum (int (tcf_sub_reaper_interval_secs c))),
      (''catalog_sync_interval_secs'', DNum (int (tcf_catalog_sync_interval_secs c))),
      (''catalog_stale_secs'', DNum (tcf_catalog_stale_secs c)), (''stripe_secret_key'', DStr redacted),
      (''stripe_webhook_secret'', DStr redacted), (''account_base_url'', DStr (tcf_account_base_url c)),
      (''resend_api_key'', DOpt (map_option (\<lambda>_. redacted) (tcf_resend_api_key c))), (''email_from'', DStr (tcf_email_from c)),
      (''email_logo_url'', DStr (tcf_email_logo_url c)), (''cookie_key'', DStr redacted),
      (''user_jwt_ttl_secs'', DNum (tcf_user_jwt_ttl_secs c)), (''oauth_redirect_base'', DStr (tcf_oauth_redirect_base c)),
      (''google_client_id'', DOpt (tcf_google_client_id c)),
      (''google_client_secret'', DOpt (map_option (\<lambda>_. redacted) (tcf_google_client_secret c))),
      (''github_client_id'', DOpt (tcf_github_client_id c)),
      (''github_client_secret'', DOpt (map_option (\<lambda>_. redacted) (tcf_github_client_secret c)))]"

section \<open>The regional services\<close>

record tunneller_config =
  ncf_api_listen_addr :: string
  ncf_https_listen_addr :: string
  ncf_dot_listen_addr :: string
  ncf_database_url :: string
  ncf_mesh_base_url :: string
  ncf_mesh :: mesh_paths
  ncf_forward_listen_addr :: string
  ncf_forward_advertise_addr :: string
  ncf_region :: string
  ncf_subdomain_parent :: string
  ncf_reconcile_interval_secs :: nat
  ncf_reconcile_jitter_secs :: nat
  ncf_route_ttl_secs :: nat
  ncf_ttl_reaper_interval_secs :: nat

definition tunneller_from_env :: "environment \<Rightarrow> string + tunneller_config" where
  "tunneller_from_env env =
     bind_result (required env ''DATABASE_URL'') (\<lambda>database_url.
     bind_result (required env ''MESH_BASE_URL'') (\<lambda>mesh_base_url.
     bind_result (required env ''MTLS_TRUST_BUNDLE_PATH'') (\<lambda>bundle.
     bind_result (required env ''MTLS_LEAF_CERT_PATH'') (\<lambda>leaf.
     bind_result (required env ''MTLS_LEAF_KEY_PATH'') (\<lambda>key.
     bind_result (required env ''FORWARD_ADVERTISE_ADDR'') (\<lambda>advertise.
     bind_result (required env ''INFORGE_DEPLOYMENT_REGION_SLUG'') (\<lambda>region.
     bind_result (required env ''SUBDOMAIN_PARENT'') (\<lambda>parent.
     bind_result (parse_secs env ''RECONCILE_INTERVAL_SECS'' 30) (\<lambda>reconcile_interval.
     bind_result (parse_secs env ''RECONCILE_JITTER_SECS'' 5) (\<lambda>jitter.
     bind_result (parse_secs env ''ROUTE_TTL_SECS'' 120) (\<lambda>route_ttl.
     bind_result (parse_secs env ''TTL_REAPER_INTERVAL_SECS'' 60) (\<lambda>ttl_reaper.
     Inr \<lparr>ncf_api_listen_addr = var_or env ''API_LISTEN_ADDR'' ''127.0.0.1:8080'',
          ncf_https_listen_addr = var_or env ''HTTPS_LISTEN_ADDR'' ''127.0.0.1:8443'',
          ncf_dot_listen_addr = var_or env ''DOT_LISTEN_ADDR'' ''127.0.0.1:8853'',
          ncf_database_url = database_url, ncf_mesh_base_url = mesh_base_url,
          ncf_mesh = \<lparr>leaf_cert_path = leaf, leaf_key_path = key, trust_bundle_path = bundle\<rparr>,
          ncf_forward_listen_addr = var_or env ''FORWARD_LISTEN_ADDR'' ''0.0.0.0:9444'',
          ncf_forward_advertise_addr = advertise, ncf_region = region, ncf_subdomain_parent = parent,
          ncf_reconcile_interval_secs = reconcile_interval, ncf_reconcile_jitter_secs = jitter,
          ncf_route_ttl_secs = route_ttl, ncf_ttl_reaper_interval_secs = ttl_reaper\<rparr>))))))))))))"

definition tunneller_config_fmt :: "tunneller_config \<Rightarrow> (string \<times> debug_value) list" where
  "tunneller_config_fmt c =
     [(''api_listen_addr'', DStr (ncf_api_listen_addr c)), (''https_listen_addr'', DStr (ncf_https_listen_addr c)),
      (''dot_listen_addr'', DStr (ncf_dot_listen_addr c)), (''database_url'', DStr redacted),
      (''mesh_base_url'', DStr (ncf_mesh_base_url c)), (''trust_bundle_path'', DStr (trust_bundle_path (ncf_mesh c))),
      (''leaf_cert_path'', DStr (leaf_cert_path (ncf_mesh c))), (''leaf_key_path'', DStr redacted),
      (''forward_listen_addr'', DStr (ncf_forward_listen_addr c)),
      (''forward_advertise_addr'', DStr (ncf_forward_advertise_addr c)), (''region'', DStr (ncf_region c)),
      (''subdomain_parent'', DStr (ncf_subdomain_parent c)),
      (''reconcile_interval_secs'', DNum (int (ncf_reconcile_interval_secs c))),
      (''reconcile_jitter_secs'', DNum (int (ncf_reconcile_jitter_secs c))),
      (''route_ttl_secs'', DNum (int (ncf_route_ttl_secs c))),
      (''ttl_reaper_interval_secs'', DNum (int (ncf_ttl_reaper_interval_secs c)))]"

record ddns_config =
  dcf_database_url :: string
  dcf_cloudflare_api_token :: string
  dcf_cloudflare_zone_id :: string
  dcf_cloudflare_api_base :: "string option"
  dcf_subdomain_parent :: string
  dcf_region :: string
  dcf_api_listen_addr :: string
  dcf_mesh_base_url :: string
  dcf_mesh :: mesh_paths
  dcf_provisioner_interval_secs :: nat
  dcf_reaper_interval_secs :: nat
  dcf_reaper_jitter_secs :: nat

definition DEFAULT_PROVISIONER_INTERVAL_SECS :: nat where "DEFAULT_PROVISIONER_INTERVAL_SECS = 10"

definition DEFAULT_REAPER_INTERVAL_SECS :: nat where "DEFAULT_REAPER_INTERVAL_SECS = 300"

definition DEFAULT_REAPER_JITTER_SECS :: nat where "DEFAULT_REAPER_JITTER_SECS = 30"

definition ddns_from_env :: "environment \<Rightarrow> string + ddns_config" where
  "ddns_from_env env =
     bind_result (required env ''DATABASE_URL'') (\<lambda>database_url.
     bind_result (required env ''CLOUDFLARE_API_TOKEN'') (\<lambda>token.
     bind_result (required env ''CLOUDFLARE_ZONE_ID'') (\<lambda>zone.
     bind_result (required env ''SUBDOMAIN_PARENT'') (\<lambda>parent.
     bind_result (required env ''INFORGE_DEPLOYMENT_REGION_SLUG'') (\<lambda>region.
     bind_result (required env ''MESH_BASE_URL'') (\<lambda>mesh_base_url.
     bind_result (required env ''MTLS_TRUST_BUNDLE_PATH'') (\<lambda>bundle.
     bind_result (required env ''MTLS_LEAF_CERT_PATH'') (\<lambda>leaf.
     bind_result (required env ''MTLS_LEAF_KEY_PATH'') (\<lambda>key.
     bind_result (parse_secs env ''PROVISIONER_INTERVAL_SECS'' DEFAULT_PROVISIONER_INTERVAL_SECS) (\<lambda>provisioner_interval.
     bind_result (parse_secs env ''REAPER_INTERVAL_SECS'' DEFAULT_REAPER_INTERVAL_SECS) (\<lambda>reaper_interval.
     bind_result (parse_secs env ''REAPER_JITTER_SECS'' DEFAULT_REAPER_JITTER_SECS) (\<lambda>jitter.
     Inr \<lparr>dcf_database_url = database_url, dcf_cloudflare_api_token = token, dcf_cloudflare_zone_id = zone,
          dcf_cloudflare_api_base = opt env ''CLOUDFLARE_API_BASE'', dcf_subdomain_parent = parent, dcf_region = region,
          dcf_api_listen_addr = var_or env ''API_LISTEN_ADDR'' ''127.0.0.1:8080'', dcf_mesh_base_url = mesh_base_url,
          dcf_mesh = \<lparr>leaf_cert_path = leaf, leaf_key_path = key, trust_bundle_path = bundle\<rparr>,
          dcf_provisioner_interval_secs = provisioner_interval, dcf_reaper_interval_secs = reaper_interval,
          dcf_reaper_jitter_secs = jitter\<rparr>))))))))))))"

definition ddns_config_fmt :: "ddns_config \<Rightarrow> (string \<times> debug_value) list" where
  "ddns_config_fmt c =
     [(''database_url'', DStr redacted), (''cloudflare_api_token'', DStr redacted),
      (''cloudflare_zone_id'', DStr (dcf_cloudflare_zone_id c)), (''cloudflare_api_base'', DOpt (dcf_cloudflare_api_base c)),
      (''subdomain_parent'', DStr (dcf_subdomain_parent c)), (''region'', DStr (dcf_region c)),
      (''api_listen_addr'', DStr (dcf_api_listen_addr c)), (''mesh_base_url'', DStr (dcf_mesh_base_url c)),
      (''trust_bundle_path'', DStr (trust_bundle_path (dcf_mesh c))), (''leaf_cert_path'', DStr (leaf_cert_path (dcf_mesh c))),
      (''leaf_key_path'', DStr (leaf_key_path (dcf_mesh c))),
      (''provisioner_interval_secs'', DNum (int (dcf_provisioner_interval_secs c))),
      (''reaper_interval_secs'', DNum (int (dcf_reaper_interval_secs c))),
      (''reaper_jitter_secs'', DNum (int (dcf_reaper_jitter_secs c)))]"

section \<open>Mail\<close>

record resend_email =
  re_from :: string
  re_to :: "string list"
  re_subject :: string
  re_html :: string
  re_text :: string

record boot_libs =
  bo_read_file :: "string \<Rightarrow> string + string"
  bo_db_init :: "string \<Rightarrow> string + unit"
  bo_signer :: "string \<Rightarrow> string + (claims \<Rightarrow> string + string)"
  bo_verifier :: "string \<Rightarrow> string + unit"
  bo_header_value :: "string \<Rightarrow> bool"
  bo_http_client :: "string + unit"
  bo_post_mail :: "string \<Rightarrow> string \<Rightarrow> resend_email \<Rightarrow> string + unit"
  bo_render_html :: "string \<Rightarrow> string \<Rightarrow> string \<Rightarrow> string \<Rightarrow> string + string"
  bo_render_text :: "string \<Rightarrow> string \<Rightarrow> string \<Rightarrow> string + string"
  bo_issuer_url :: "string \<Rightarrow> string + unit"
  bo_issuer_metadata :: "string \<Rightarrow> string + string"
  bo_redirect_url :: "string \<Rightarrow> string + unit"
  bo_oidc_provider :: "string \<Rightarrow> string \<Rightarrow> string \<Rightarrow> string \<Rightarrow> string \<Rightarrow> external_identity_provider"
  bo_github_provider :: "string \<Rightarrow> string \<Rightarrow> string \<Rightarrow> external_identity_provider"
  bo_crypto :: crypto
  bo_argon2_hash :: "bytes \<Rightarrow> string \<Rightarrow> string + string"
  bo_argon2_verify :: "string \<Rightarrow> string \<Rightarrow> bool"

definition RESEND_API_BASE :: string where "RESEND_API_BASE = ''https://api.resend.com''"

fun code_copy :: "code_purpose \<Rightarrow> string \<times> string \<times> string" where
  "code_copy Signup =
     (''Your Wardnet sign-up code'', ''Use this code to finish creating your Wardnet account:'',
      ''It expires shortly. If you didn'' @ [CHR 0x27] @ ''t request this, you can ignore this email.'')"
| "code_copy PasswordReset =
     (''Your Wardnet password-reset code'', ''Use this code to set a new password on your Wardnet account:'',
      ''It expires shortly. If you didn'' @ [CHR 0x27] @ ''t request this, you can ignore this email.'')"
| "code_copy PasswordChange =
     (''Confirm your Wardnet password change'', ''Use this code to confirm the password change on your Wardnet account:'',
      ''It expires shortly. If you didn'' @ [CHR 0x27] @ ''t request this, ignore this email and your password stays unchanged.'')"
| "code_copy Enrollment =
     (''Your Wardnet enrollment code'', ''Use this code in the install wizard to continue:'', ''It expires shortly.'')"

record resend_email_sender =
  rs_auth :: string
  rs_from :: string
  rs_base_url :: string
  rs_logo_url :: string

definition resend_with_base_url :: "boot_libs \<Rightarrow> string \<Rightarrow> string \<Rightarrow> string \<Rightarrow> string \<Rightarrow> string + resend_email_sender" where
  "resend_with_base_url lib api_key from_addr logo_url base_url =
     (if \<not> bo_header_value lib (''Bearer '' @ api_key) then Inl ''Resend API key contains invalid header characters''
      else bind_result (bo_http_client lib) (\<lambda>_.
        Inr \<lparr>rs_auth = ''Bearer '' @ api_key, rs_from = from_addr, rs_base_url = trim_end_matches (CHR ''/'') base_url,
             rs_logo_url = logo_url\<rparr>))"

definition resend_new :: "boot_libs \<Rightarrow> string \<Rightarrow> string \<Rightarrow> string \<Rightarrow> string + resend_email_sender" where
  "resend_new lib api_key from_addr logo_url = resend_with_base_url lib api_key from_addr logo_url RESEND_API_BASE"

definition resend_send_code :: "boot_libs \<Rightarrow> resend_email_sender \<Rightarrow> string \<Rightarrow> string \<Rightarrow> code_purpose \<Rightarrow> string + unit" where
  "resend_send_code lib s to_addr code purpose =
     (case code_copy purpose of (subject, intro, note) \<Rightarrow>
        bind_result (map_err (\<lambda>e. ''email HTML template render failed: '' @ e) (bo_render_html lib (rs_logo_url s) intro code note)) (\<lambda>html.
        bind_result (map_err (\<lambda>e. ''email text template render failed: '' @ e) (bo_render_text lib intro code note)) (\<lambda>text.
        bo_post_mail lib (rs_auth s) (rs_base_url s @ ''/emails'')
          \<lparr>re_from = rs_from s, re_to = [to_addr], re_subject = subject, re_html = html, re_text = text\<rparr>)))"

definition noop_send_code :: "string \<Rightarrow> string \<Rightarrow> code_purpose \<Rightarrow> string + unit" where
  "noop_send_code to_addr code purpose = Inr ()"

record email_sender =
  es_send_code :: "string \<Rightarrow> string \<Rightarrow> code_purpose \<Rightarrow> string + unit"
  es_delivers :: bool

definition email_of_config :: "boot_libs \<Rightarrow> tenants_config \<Rightarrow> string + email_sender" where
  "email_of_config lib c =
     (case tcf_resend_api_key c of
        Some k \<Rightarrow>
          bind_result (resend_new lib k (tcf_email_from c) (tcf_email_logo_url c)) (\<lambda>s.
            Inr \<lparr>es_send_code = resend_send_code lib s, es_delivers = True\<rparr>)
      | None \<Rightarrow> Inr \<lparr>es_send_code = noop_send_code, es_delivers = False\<rparr>)"

section \<open>Federated login providers\<close>

definition discover :: "boot_libs \<Rightarrow> string \<Rightarrow> string \<Rightarrow> string \<Rightarrow> string \<Rightarrow> string \<Rightarrow> string + external_identity_provider" where
  "discover lib name issuer_url client_id client_secret redirect_url =
     bind_result (map_err (\<lambda>e. ''build OIDC HTTP client: '' @ e) (bo_http_client lib)) (\<lambda>_.
     bind_result (map_err (\<lambda>e. ''invalid issuer URL: '' @ e) (bo_issuer_url lib issuer_url)) (\<lambda>_.
     bind_result (map_err (\<lambda>e. ''OIDC discovery for '' @ name @ '' failed: '' @ e) (bo_issuer_metadata lib issuer_url)) (\<lambda>metadata.
     bind_result (map_err (\<lambda>e. ''invalid redirect URL: '' @ e) (bo_redirect_url lib redirect_url)) (\<lambda>_.
     Inr (bo_oidc_provider lib name metadata client_id client_secret redirect_url)))))"

definition github_new :: "boot_libs \<Rightarrow> string \<Rightarrow> string \<Rightarrow> string \<Rightarrow> string + external_identity_provider" where
  "github_new lib client_id client_secret redirect_url =
     bind_result (map_err (\<lambda>e. ''build GitHub HTTP client: '' @ e) (bo_http_client lib)) (\<lambda>_.
       Inr (bo_github_provider lib client_id client_secret redirect_url))"

definition redirect_uri :: "tenants_config \<Rightarrow> string \<Rightarrow> string" where
  "redirect_uri c provider = tcf_oauth_redirect_base c @ ''/v1/auth/oidc/'' @ provider @ ''/callback''"

definition build_identity_providers :: "boot_libs \<Rightarrow> tenants_config \<Rightarrow> string + (string \<Rightarrow> external_identity_provider option)" where
  "build_identity_providers lib c =
     (let google =
        (case (tcf_google_client_id c, tcf_google_client_secret c) of
           (Some i, Some secret) \<Rightarrow>
             (case discover lib ''google'' ''https://accounts.google.com'' i secret (redirect_uri c ''google'') of
                Inr p \<Rightarrow> Map.empty(''google'' \<mapsto> p) | Inl _ \<Rightarrow> Map.empty)
         | _ \<Rightarrow> Map.empty) in
      case (tcf_github_client_id c, tcf_github_client_secret c) of
        (Some i, Some secret) \<Rightarrow>
          bind_result (github_new lib i secret (redirect_uri c ''github'')) (\<lambda>p. Inr (google(''github'' \<mapsto> p)))
      | _ \<Rightarrow> Inr google)"

section \<open>Boot\<close>

text \<open>The start of the Tenants process up to the services: configuration, database, keys, mail, providers, in the order of \<open>main\<close>.\<close>

definition tenants_boot :: "boot_libs \<Rightarrow> environment \<Rightarrow> string + tenants_config \<times> identities_env" where
  "tenants_boot lib env =
     bind_result (tenants_from_env env) (\<lambda>c.
     bind_result (bo_db_init lib (tcf_global_database_url c)) (\<lambda>_.
     bind_result (load_jwt_signing_key_pem (bo_read_file lib) env) (\<lambda>signing_key_pem.
     bind_result (bo_signer lib signing_key_pem) (\<lambda>encode.
     bind_result (load_jwt_verify_key_pem (bo_read_file lib) env) (\<lambda>verify_key_pem.
     bind_result (bo_verifier lib verify_key_pem) (\<lambda>_.
     bind_result (email_of_config lib c) (\<lambda>email.
     bind_result (build_identity_providers lib c) (\<lambda>providers.
     Inr (c, \<lparr>ie_tenants = \<lparr>env_policy = tcf_policy c, env_regions = tcf_known_regions c, env_crypto = bo_crypto lib,
                env_jwt_encode = encode, env_send_code = es_send_code email, env_email_delivers = es_delivers email\<rparr>,
              ie_argon2_hash = bo_argon2_hash lib, ie_argon2_verify = bo_argon2_verify lib,
              ie_providers = providers, ie_user_jwt_ttl_secs = tcf_user_jwt_ttl_secs c\<rparr>)))))))))"

section \<open>Lemmas\<close>

lemma tenants_config_redacts:
  "tenants_config_fmt (c\<lparr>tcf_global_database_url := u, tcf_stripe_secret_key := k, tcf_stripe_webhook_secret := s, tcf_cookie_key := y\<rparr>) =
     tenants_config_fmt c"
  "tcf_resend_api_key c = Some k \<Longrightarrow> tenants_config_fmt (c\<lparr>tcf_resend_api_key := Some k'\<rparr>) = tenants_config_fmt c"
  "tcf_google_client_secret c = Some k \<Longrightarrow> tenants_config_fmt (c\<lparr>tcf_google_client_secret := Some k'\<rparr>) = tenants_config_fmt c"
  "tcf_github_client_secret c = Some k \<Longrightarrow> tenants_config_fmt (c\<lparr>tcf_github_client_secret := Some k'\<rparr>) = tenants_config_fmt c"
  by (simp_all add: tenants_config_fmt_def)

lemma regional_configs_redact:
  "tunneller_config_fmt (n\<lparr>ncf_database_url := u\<rparr>) = tunneller_config_fmt n"
  "ddns_config_fmt (g\<lparr>dcf_database_url := u, dcf_cloudflare_api_token := t\<rparr>) = ddns_config_fmt g"
  by (simp_all add: tunneller_config_fmt_def ddns_config_fmt_def)

lemma malformed_number:
  assumes "env k = Some v" "parse_u64 v = Inl e"
  shows "u64_or env k dflt = dflt" and "parse_secs env k dflt = Inl (k @ '' must be a non-negative integer: '' @ e)"
  using assms by (simp_all add: u64_or_def parse_secs_def map_err_def)

lemma u64_digits_bound: "u64_digits acc s = Inr n \<Longrightarrow> acc < 2 ^ 64 \<Longrightarrow> n < 2 ^ 64"
  by (induction acc s rule: u64_digits.induct) (auto split: option.splits if_splits)

lemma parse_u64_bound: "parse_u64 v = Inr n \<Longrightarrow> n < 2 ^ 64"
  by (auto simp: parse_u64_def dest: u64_digits_bound split: if_splits)

lemma ok_or_Inr [simp]: "ok_or e x = Inr y \<longleftrightarrow> x = Some y"
  by (auto simp: ok_or_def split: option.split)

lemma opt_Some: "opt env k = Some v \<longleftrightarrow> env k = Some v \<and> v \<noteq> []"
  by (auto simp: opt_def split: option.split)

lemma tenants_from_env_Inr:
  assumes "tenants_from_env env = Inr c"
  obtains r where "env ''KNOWN_REGIONS'' = Some r" and "tcf_known_regions c = known_regions_of r"
    and "env ''COOKIE_KEY'' = Some (tcf_cookie_key c)" and "COOKIE_KEY_MIN_BYTES \<le> length (tcf_cookie_key c)"
    and "tcf_resend_api_key c = opt env ''RESEND_API_KEY''"
    and "tcf_google_client_id c = opt env ''GOOGLE_CLIENT_ID''" and "tcf_google_client_secret c = opt env ''GOOGLE_CLIENT_SECRET''"
    and "tcf_github_client_id c = opt env ''GITHUB_CLIENT_ID''" and "tcf_github_client_secret c = opt env ''GITHUB_CLIENT_SECRET''"
  using assms that by (auto simp: tenants_from_env_def required_def not_less split: if_splits)

lemma build_identity_providers_dom:
  assumes "build_identity_providers lib c = Inr providers" "providers name \<noteq> None"
  shows "name = ''google'' \<and> tcf_google_client_id c \<noteq> None \<and> tcf_google_client_secret c \<noteq> None \<or>
         name = ''github'' \<and> tcf_github_client_id c \<noteq> None \<and> tcf_github_client_secret c \<noteq> None"
  using assms by (auto simp: build_identity_providers_def Let_def split: option.splits sum.splits if_splits)

lemma email_of_config_delivers:
  "email_of_config lib c = Inr email \<Longrightarrow> es_delivers email \<longleftrightarrow> tcf_resend_api_key c \<noteq> None"
  by (auto simp: email_of_config_def split: option.splits)

lemma tenants_boot_Inr:
  assumes "tenants_boot lib env = Inr (c, ie)"
  shows "tenants_from_env env = Inr c" and "build_identity_providers lib c = Inr (ie_providers ie)"
    and "env_regions (ie_tenants ie) = tcf_known_regions c"
    and "env_email_delivers (ie_tenants ie) \<longleftrightarrow> tcf_resend_api_key c \<noteq> None"
  using assms by (auto simp: tenants_boot_def email_of_config_delivers)

lemma new_network_region: "n_region (new_network i now x slug dn region) = region"
  by (simp add: new_network_def)

lemma code_answer_hidden:
  assumes "env_email_delivers (ie_tenants ie)"
  shows "fst (create_verification_code ie now picks headers addr email purpose w) \<noteq> Inr (Some code)"
    and "fst (api_issue_tenant_code (ie_tenants ie) now picks caller x w) \<noteq> Inr (Some code)"
  using assms by (auto simp: create_verification_code_def api_issue_tenant_code_def Let_def split: prod.splits sum.splits)

lemma code_answer_shown:
  assumes "\<not> env_email_delivers (ie_tenants ie)" "fst (create_verification_code ie now picks headers addr email purpose w) = Inr r"
  shows "r \<noteq> None"
  using assms by (auto simp: create_verification_code_def Let_def split: prod.splits sum.splits)

section \<open>Properties\<close>

definition ex_boot :: boot_libs where
  "ex_boot = \<lparr>bo_read_file = Inr, bo_db_init = \<lambda>_. Inr (), bo_signer = \<lambda>_. Inr (\<lambda>_. Inr ''jwt''), bo_verifier = \<lambda>_. Inr (),
     bo_header_value = \<lambda>_. True, bo_http_client = Inr (), bo_post_mail = \<lambda>_ _ _. Inr (),
     bo_render_html = \<lambda>_ _ code _. Inr code, bo_render_text = \<lambda>_ code _. Inr code, bo_issuer_url = \<lambda>_. Inr (),
     bo_issuer_metadata = \<lambda>_. Inl ''timeout'', bo_redirect_url = \<lambda>_. Inr (),
     bo_oidc_provider = \<lambda>_ _ _ _ _. \<lparr>xp_authorize_url = \<lambda>_. \<lparr>ar_url = [], ar_csrf_state = [], ar_verifier = []\<rparr>, xp_exchange = \<lambda>_ _. Inl []\<rparr>,
     bo_github_provider = \<lambda>_ _ _. \<lparr>xp_authorize_url = \<lambda>_. \<lparr>ar_url = [], ar_csrf_state = [], ar_verifier = []\<rparr>, xp_exchange = \<lambda>_ _. Inl []\<rparr>,
     bo_crypto = ex_crypto, bo_argon2_hash = \<lambda>_ p. Inr p, bo_argon2_verify = \<lambda>h p. h = p\<rparr>"

definition ex_vars :: environment where
  "ex_vars k = (if k = ''COOKIE_KEY'' then Some (replicate 64 (CHR ''k''))
     else if k = ''KNOWN_REGIONS'' then Some ''eu1, us1'' else if k = ''RESEND_API_KEY'' then Some ''re_1''
     else if k = ''GITHUB_CLIENT_SECRET'' then None else Some ''v'')"

text \<open>C34. What one boot of the Tenants service fixes for all the answers of the running process. If it comes up at all, its
  cookie key has at least 64 bytes; a federated login exists only for Google or GitHub and only with both halves of the
  credential set and not empty; a network is only ever registered in a region of \<open>KNOWN_REGIONS\<close>; and one-time codes leave
  the process by mail only, never in an HTTP answer, exactly if \<open>RESEND_API_KEY\<close> is set and not empty: without it every code
  that is issued is handed to whoever asked for it.\<close>

theorem boot_decides_answers:
  assumes "tenants_boot lib env = Inr (c, ie)"
  shows "64 \<le> length (tcf_cookie_key c) \<and>
    (\<forall>name. ie_providers ie name \<noteq> None \<longrightarrow>
       name = ''google'' \<and> opt env ''GOOGLE_CLIENT_ID'' \<noteq> None \<and> opt env ''GOOGLE_CLIENT_SECRET'' \<noteq> None \<or>
       name = ''github'' \<and> opt env ''GITHUB_CLIENT_ID'' \<noteq> None \<and> opt env ''GITHUB_CLIENT_SECRET'' \<noteq> None) \<and>
    (\<forall>i j now x pk slug dn region w net w'. register_network (ie_tenants ie) i j now x pk slug dn region w = (Inr net, w') \<longrightarrow>
       n_region net \<in> set (known_regions_of (the (env ''KNOWN_REGIONS'')))) \<and>
    (opt env ''RESEND_API_KEY'' \<noteq> None \<longrightarrow>
       (\<forall>now picks headers addr email purpose w code.
          fst (create_verification_code ie now picks headers addr email purpose w) \<noteq> Inr (Some code)) \<and>
       (\<forall>now picks caller x w code. fst (api_issue_tenant_code (ie_tenants ie) now picks caller x w) \<noteq> Inr (Some code))) \<and>
    (opt env ''RESEND_API_KEY'' = None \<longrightarrow>
       (\<forall>now picks headers addr email purpose w r.
          fst (create_verification_code ie now picks headers addr email purpose w) = Inr r \<longrightarrow> r \<noteq> None))"
proof -
  note boot = tenants_boot_Inr [OF assms]
  obtain r where r: "env ''KNOWN_REGIONS'' = Some r" "tcf_known_regions c = known_regions_of r"
      "COOKIE_KEY_MIN_BYTES \<le> length (tcf_cookie_key c)" "tcf_resend_api_key c = opt env ''RESEND_API_KEY''"
      "tcf_google_client_id c = opt env ''GOOGLE_CLIENT_ID''" "tcf_google_client_secret c = opt env ''GOOGLE_CLIENT_SECRET''"
      "tcf_github_client_id c = opt env ''GITHUB_CLIENT_ID''" "tcf_github_client_secret c = opt env ''GITHUB_CLIENT_SECRET''"
    by (rule tenants_from_env_Inr [OF boot(1)])
  have region: "n_region net \<in> set (known_regions_of (the (env ''KNOWN_REGIONS'')))"
    if "register_network (ie_tenants ie) i j now x pk slug dn region w = (Inr net, w')"
    for i j now x pk slug dn region w net w'
    using register_network_Inr [OF that] by (metis r(1,2) boot(3) new_network_region option.sel)
  show ?thesis
    using r(3) build_identity_providers_dom [OF boot(2), unfolded r] region boot(4)[unfolded r] code_answer_hidden code_answer_shown
    by (auto simp: COOKIE_KEY_MIN_BYTES_def)
qed

lemma ex_boots: "\<exists>c ie. tenants_boot ex_boot ex_vars = Inr (c, ie)"
  by (simp add: tenants_boot_def tenants_from_env_def required_def ex_vars_def COOKIE_KEY_MIN_BYTES_def ok_or_def bind_result_def
      load_jwt_signing_key_pem_def load_jwt_verify_key_pem_def read_secret_file_def map_err_def email_of_config_def
      resend_new_def resend_with_base_url_def build_identity_providers_def opt_def discover_def ex_boot_def)

lemma ex_vars_opt: "opt ex_vars ''GITHUB_CLIENT_SECRET'' = None" "opt ex_vars ''RESEND_API_KEY'' \<noteq> None"
  by (simp_all add: opt_def ex_vars_def)

theorem boot_decides_answers_witness:
  "\<exists>c ie. tenants_boot ex_boot ex_vars = Inr (c, ie) \<and> ie_providers ie ''github'' = None \<and>
     (\<forall>now picks headers addr email purpose w code.
        fst (create_verification_code ie now picks headers addr email purpose w) \<noteq> Inr (Some code))"
proof -
  obtain c ie where b: "tenants_boot ex_boot ex_vars = Inr (c, ie)" using ex_boots by blast
  have "ie_providers ie ''github'' = None" using boot_decides_answers [OF b] ex_vars_opt(1) by auto
  moreover have "\<forall>now picks headers addr email purpose w code.
      fst (create_verification_code ie now picks headers addr email purpose w) \<noteq> Inr (Some code)"
    using boot_decides_answers [OF b] ex_vars_opt(2) by (elim conjE) (drule (1) mp, elim conjE)
  ultimately show ?thesis using b by blast
qed

end
