(* ===== verification/Spec2Isabelle.thy ===== *)
theory Spec2Isabelle
  imports Ddns_Reconcile Tunneller_Props Config
begin

text \<open>
  Verification of the wardnet cloud services (\<open>crates/\<close>): the global authority (Tenants, with the license and
  payment aggregates and the human login plane), the regional DNS reconciler (DDNS) and the regional edge
  that carries client connections into the tunnels of home networks (Tunneller).

  \<^bold>\<open>How the parts interact.\<close> A daemon enrols with a one-time code, proves possession of its key on every request
  and gets a short-lived token. The Tenants service writes desired state (networks with a provisioning
  state); DDNS pulls it over the mesh, publishes or tears down records and reports back; the Tunneller
  admits a daemon by its token and by the Tenants reads, and routes a client by the server name of its TLS
  hello, on this node or through the node that owns the tunnel. Licenses end by the reaper or by payment
  events; events between aggregates may be lost, and periodic passes repair what they can.

  \<^bold>\<open>How code is rendered.\<close> Structs are records, enums are datatypes, a fallible call is a sum (\<open>Inl\<close> the error),
  state is passed explicitly. An instant is an \<open>int\<close> of nanoseconds. A table is the list of its rows; a statement
  is one operation of \<open>Prelude\<close>, a transaction one definition. The clock, fresh ids and random draws are
  arguments. Code outside the repository (PostgreSQL apart from its constraints, TLS and X.509, JWT, HMAC, Argon2,
  JSON, HTTP services, the provider APIs) is a record of functions, and what a theorem needs of it is a named hypothesis
  stating documented behaviour, with a witness that instantiates it. Where other requests may run between two steps
  of a flow, the argument \<open>race\<close> is what they commit.

  \<^bold>\<open>Theories.\<close>
  \<^item> \<open>Prelude\<close>, \<open>Text\<close>, \<open>Wire\<close>, \<open>F64\<close>: instants, tables, the string, byte and double operations of the standard
    library the code uses.
  \<^item> \<open>Contract\<close>, \<open>Schema\<close>: \<open>common/src/contract.rs\<close>, \<open>error.rs\<close>, \<open>event.rs\<close>; the tables and constraints of the merged
    migrations. \<open>db_wf\<close> is the conjunction of the constraints.
  \<^item> \<open>Validation\<close>, \<open>Replay_Cache\<close>, \<open>Token\<close>, \<open>Auth\<close>: \<open>common/src/validation.rs\<close>, \<open>replay_cache.rs\<close>, \<open>token\<close>, \<open>auth\<close>.
  \<^item> \<open>Subscriptions\<close>: \<open>subscriptions/src\<close>, the license aggregate.
  \<^item> \<open>Tenant_Repos\<close>, \<open>Tenants_Service\<close>, \<open>Tenants_Props\<close>, \<open>Tenants_Api\<close>: \<open>tenants/src\<close> without the login plane.
  \<^item> \<open>Identities\<close>, \<open>Identities_Props\<close>, \<open>Password_Props\<close>, \<open>Identities_Api\<close>: the login plane (\<open>identities.rs\<close>, \<open>identities/\<close>,
    \<open>api/auth.rs\<close>, \<open>me.rs\<close>, \<open>cookies.rs\<close>, \<open>verification_codes.rs\<close>).
  \<^item> \<open>Stripe\<close>, \<open>Billing\<close>, \<open>Billing_Props\<close>, \<open>Webhooks\<close>, \<open>Catalog_Props\<close>, \<open>Billing_Api\<close>: \<open>billing/src\<close> and its endpoints.
  \<^item> \<open>Composition\<close>, \<open>Config\<close>: \<open>app-tenants/src\<close> (reactors, reconcile, loops, boot), the configurations of the three
    services, \<open>tenants/src/email.rs\<close>.
  \<^item> \<open>Ddns\<close>, \<open>Ddns_Props\<close>, \<open>Cloudflare\<close>, \<open>Ddns_Reconcile\<close>: \<open>ddns/src\<close>.
  \<^item> \<open>Sni\<close>, \<open>Proxy_Protocol\<close>, \<open>Mesh\<close>, \<open>Rotation\<close>, \<open>Tunnel_Registry\<close>, \<open>Tunnel_Handler\<close>, \<open>Tunneller\<close>, \<open>Tunneller_Props\<close>:
    \<open>tunneller/src\<close>, \<open>common/src/mtls\<close>, \<open>proxy_protocol.rs\<close>, \<open>serve.rs\<close> and the set-up of \<open>app-tunneller/src/main.rs\<close>.

  \<^bold>\<open>What is shown.\<close>
  \<^item> Access: the middleware forwards only callers with the evidence their kind requires; a request of one tenant leaves
    the rows of every other alone; tokens are minted exactly under the stated conditions and never for a deregistered
    tenant; codes are spent once and for their purpose; a webhook needs the signature of the endpoint secret.
  \<^item> Data: every run of the whole authority keeps the constraints of the schema; a trial is given once; an account keeps a
    login method; entitlement limits hold at registration.
  \<^item> Repair: the reconcile of the authority, the DNS reaper and the certificate watcher converge; drains end after one pass.
  \<^item> DNS: concurrent provisioners agree on one record; the Cloudflare client meets the contract of the provider trait
    although failed attempts may have had their effect.
  \<^item> Edge: the hello parser never leaves its buffer and finds the name in every well-formed hello; a connection reaches only
    the tunnel of the slug it names; the streams of a tunnel do not mix; a superseded registration is inert; through all
    rotations a node talks to pinned peers only.
  \<^item> Payment: redelivered events do nothing; what an event does to the license; the served catalog is the image of the
    provider's; discounts computed in doubles equal exact rounding.
  \<^item> The theorems of kind error exhibit what the code does not handle: an update delivered after the end of a
    subscription, an update racing with the reaper, a lost deregistration event, a reconnect racing with the cleanup of
    the old tunnel, a reload that fails once.

  \<^bold>\<open>Interfaces.\<close> \<open>text_codec\<close>, \<open>license_port\<close>, \<open>replay_guard\<close>, \<open>one_time_tokens\<close>, \<open>desired_state\<close>, \<open>owned_rows\<close>, \<open>web_invariant\<close>,
  \<open>login_provider\<close>, \<open>billing_invariant\<close>, \<open>event_ledger\<close> and \<open>hot_reload\<close> are locales, each interpreted on the definitions of
  the model; the properties use the interpreted facts.

  \<^bold>\<open>Bounds.\<close> No definition takes fuel: loops are structural or have a termination proof, and endless loops (accept, timers,
  \<open>select!\<close>) are sequences of steps given as an argument. The retries of the Cloudflare client are the three of the code.
  Doubles have an unbounded exponent, and the price theorems bound the amounts. \<open>u32\<close>, \<open>u64\<close> and \<open>u16\<close> values are words
  where wrap-around matters; the generation and connection counters wrap.

  \<^bold>\<open>Not modelled.\<close> Telemetry and logging (output only). Route tables, OpenAPI documents and health endpoints (framework).
  Sockets, TLS handshakes, HTTP parsing, task scheduling and timers. Connection pools, migration runners and the
  widths of text columns; the order of rows a query leaves unordered is that of insertion. Mail templates. The choice of
  the directories the certificate watcher watches. Unicode beyond ASCII in trimming and lower-casing. Build tasks
  (\<open>xtask\<close>), the browser application and the test helpers.
\<close>

end
